(* ===== verification/Llmos_Prelude.thy ===== *)
theory Llmos_Prelude
  imports Main "HOL-Library.Word" "HOL-Library.Sublist" "HOL-Library.Char_ord"
    "HOL-Library.List_Lexorder"
begin

unbundle bit_operations_syntax

text \<open>
  Shared vocabulary of the LLM-OS development: machine integers, Rust results and panics,
  the part of the Rust standard library on strings that the sources use, and the lemmas on
  them that several components need.

  A Rust \<open>String\<close> or \<open>&str\<close> is the list of its UTF-8 bytes, one \<open>char\<close> of HOL (a byte) each,
  so \<open>length\<close> is Rust's \<open>len()\<close> and the order of \<open>List_Lexorder\<close> is Rust's order on \<open>str\<close>.
\<close>

section \<open>Types\<close>

type_synonym u8 = "8 word"
type_synonym u32 = "32 word"
type_synonym u64 = "64 word"

text \<open>
  \<open>Result<T, E>\<close> is \<open>'e + 'a\<close> with \<open>Inl\<close> for \<open>Err\<close>. A call that may panic returns an
  \<open>outcome\<close>: \<open>Panic\<close> when it unwinds, \<open>Done\<close> of its value otherwise.
\<close>

datatype 'a outcome = Panic | Done 'a

named_theorems std_str \<open>definitions of the string operations of the Rust standard library\<close>
named_theorems result_simps \<open>equations of the combinators on results\<close>

section \<open>Results\<close>

fun and_then :: "'e + 'a \<Rightarrow> ('a \<Rightarrow> 'e + 'b) \<Rightarrow> 'e + 'b" where
  "and_then (Inl e) f = Inl e"
| "and_then (Inr x) f = f x"

fun map_err :: "('e \<Rightarrow> 'f) \<Rightarrow> 'e + 'a \<Rightarrow> 'f + 'a" where
  "map_err f (Inl e) = Inl (f e)"
| "map_err f (Inr x) = Inr x"

fun ok_or :: "'e \<Rightarrow> 'a option \<Rightarrow> 'e + 'a" where
  "ok_or e None = Inl e"
| "ok_or e (Some x) = Inr x"

fun is_ok :: "'e + 'a \<Rightarrow> bool" where
  "is_ok (Inl e) = False"
| "is_ok (Inr x) = True"

lemma and_then_Inr_iff [result_simps]:
  "and_then r f = Inr y \<longleftrightarrow> (\<exists>x. r = Inr x \<and> f x = Inr y)"
  by (cases r) auto

lemma and_then_Inl_iff [result_simps]:
  "and_then r f = Inl e \<longleftrightarrow> r = Inl e \<or> (\<exists>x. r = Inr x \<and> f x = Inl e)"
  by (cases r) auto

lemma map_err_Inr_iff [result_simps]: "map_err f r = Inr x \<longleftrightarrow> r = Inr x"
  by (cases r) auto

lemma map_err_Inl_iff [result_simps]: "map_err f r = Inl e \<longleftrightarrow> (\<exists>e'. r = Inl e' \<and> e = f e')"
  by (cases r) auto

lemma ok_or_Inr_iff [result_simps]: "ok_or e opt = Inr x \<longleftrightarrow> opt = Some x"
  by (cases opt) auto

lemma ok_or_Inl_iff [result_simps]: "ok_or e opt = Inl e' \<longleftrightarrow> opt = None \<and> e' = e"
  by (cases opt) auto

lemma is_ok_iff: "is_ok r \<longleftrightarrow> (\<exists>x. r = Inr x)"
  by (cases r) auto

section \<open>Bytes and characters\<close>

definition byte_of :: "char \<Rightarrow> u8" where
  "byte_of c = of_char c"

definition char_of_byte :: "u8 \<Rightarrow> char" where
  "char_of_byte b = char_of (unat b)"

definition as_bytes :: "string \<Rightarrow> u8 list" where
  "as_bytes s = map byte_of s"

lemma unat_byte_of: "unat (byte_of c) = of_char c"
proof -
  have "unat (of_nat (of_char c) :: u8) = of_char c"
    by (simp add: unat_of_nat)
  then show ?thesis
    by (simp add: byte_of_def of_nat_of_char)
qed

lemma char_of_byte_byte_of [simp]: "char_of_byte (byte_of c) = c"
  by (simp add: char_of_byte_def unat_byte_of)

lemma byte_of_char_of_byte [simp]: "byte_of (char_of_byte b) = b"
proof -
  have "unat b < 256"
    using unsigned_less [of b] by simp
  then have "unat (byte_of (char_of_byte b)) = unat b"
    by (simp add: unat_byte_of char_of_byte_def)
  then show ?thesis
    by (simp only: word_unat_eq_iff)
qed

lemma byte_of_inject [simp]: "byte_of c = byte_of d \<longleftrightarrow> c = d"
  by (metis char_of_byte_byte_of)

lemma as_bytes_inject [simp]: "as_bytes s = as_bytes t \<longleftrightarrow> s = t"
  by (simp add: as_bytes_def inj_def)

lemma length_as_bytes [simp]: "length (as_bytes s) = length s"
  by (simp add: as_bytes_def)

lemma as_bytes_append [simp]: "as_bytes (s @ t) = as_bytes s @ as_bytes t"
  by (simp add: as_bytes_def)

section \<open>Characters of ASCII\<close>

definition is_ascii_lowercase :: "char \<Rightarrow> bool" where
  "is_ascii_lowercase c \<longleftrightarrow> of_char CHR ''a'' \<le> (of_char c :: nat) \<and> of_char c \<le> (of_char CHR ''z'' :: nat)"

definition is_ascii_uppercase :: "char \<Rightarrow> bool" where
  "is_ascii_uppercase c \<longleftrightarrow> of_char CHR ''A'' \<le> (of_char c :: nat) \<and> of_char c \<le> (of_char CHR ''Z'' :: nat)"

definition is_ascii_digit :: "char \<Rightarrow> bool" where
  "is_ascii_digit c \<longleftrightarrow> of_char CHR ''0'' \<le> (of_char c :: nat) \<and> of_char c \<le> (of_char CHR ''9'' :: nat)"

definition to_ascii_lowercase :: "string \<Rightarrow> string" where
  "to_ascii_lowercase s =
     map (\<lambda>c. if is_ascii_uppercase c then char_of (of_char c + 32 :: nat) else c) s"

definition eq_ignore_ascii_case :: "string \<Rightarrow> string \<Rightarrow> bool" where
  "eq_ignore_ascii_case s t \<longleftrightarrow> to_ascii_lowercase s = to_ascii_lowercase t"

declare is_ascii_lowercase_def [std_str] is_ascii_uppercase_def [std_str]
  is_ascii_digit_def [std_str] to_ascii_lowercase_def [std_str] eq_ignore_ascii_case_def [std_str]

section \<open>Searching and splitting strings\<close>

definition starts_with :: "string \<Rightarrow> string \<Rightarrow> bool" where
  "starts_with s p \<longleftrightarrow> prefix p s"

definition ends_with :: "string \<Rightarrow> string \<Rightarrow> bool" where
  "ends_with s q \<longleftrightarrow> suffix q s"

definition strip_suffix :: "string \<Rightarrow> string \<Rightarrow> string option" where
  "strip_suffix s q = (if suffix q s then Some (take (length s - length q) s) else None)"

fun split_once :: "char \<Rightarrow> string \<Rightarrow> (string \<times> string) option" where
  "split_once c [] = None"
| "split_once c (x # xs) =
     (if x = c then Some ([], xs) else map_option (\<lambda>(a, b). (x # a, b)) (split_once c xs))"

definition rsplit_once :: "char \<Rightarrow> string \<Rightarrow> (string \<times> string) option" where
  "rsplit_once c s = map_option (\<lambda>(a, b). (rev b, rev a)) (split_once c (rev s))"

fun str_contains :: "string \<Rightarrow> string \<Rightarrow> bool" where
  "str_contains [] p = (p = [])"
| "str_contains (x # xs) p = (prefix p (x # xs) \<or> str_contains xs p)"

text \<open>\<open>[String]::join\<close> and \<open>concat\<close> of formatted pieces.\<close>

fun join :: "string \<Rightarrow> string list \<Rightarrow> string" where
  "join sep [] = []"
| "join sep [x] = x"
| "join sep (x # y # ys) = x @ sep @ join sep (y # ys)"

lemma split_once_None_iff: "split_once c s = None \<longleftrightarrow> c \<notin> set s"
  by (induction s) auto

lemma split_once_Some_iff: "split_once c s = Some (a, b) \<longleftrightarrow> s = a @ c # b \<and> c \<notin> set a"
proof (induction s arbitrary: a)
  case Nil
  then show ?case by simp
next
  case (Cons x xs)
  show ?case
    by (cases a) (auto simp: Cons.IH)
qed

lemma rsplit_once_None_iff: "rsplit_once c s = None \<longleftrightarrow> c \<notin> set s"
  by (simp add: rsplit_once_def split_once_None_iff)

lemma rsplit_once_Some_iff: "rsplit_once c s = Some (a, b) \<longleftrightarrow> s = a @ c # b \<and> c \<notin> set b"
proof -
  have "rsplit_once c s = Some (a, b) \<longleftrightarrow> split_once c (rev s) = Some (rev b, rev a)"
    by (auto simp: rsplit_once_def)
  also have "\<dots> \<longleftrightarrow> rev s = rev (a @ c # b) \<and> c \<notin> set b"
    by (simp add: split_once_Some_iff)
  finally show ?thesis
    by (simp only: rev_is_rev_conv)
qed

lemma strip_suffix_Some_iff: "strip_suffix s q = Some p \<longleftrightarrow> s = p @ q"
  by (auto simp: strip_suffix_def suffix_def)

lemma strip_suffix_None_iff: "strip_suffix s q = None \<longleftrightarrow> \<not> suffix q s"
  by (simp add: strip_suffix_def)

lemma strip_suffix_append [simp]: "strip_suffix (p @ q) q = Some p"
  by (simp add: strip_suffix_Some_iff)

lemma starts_with_append [simp]: "starts_with (p @ s) p"
  by (simp add: starts_with_def)

lemma starts_with_iff: "starts_with s p \<longleftrightarrow> (\<exists>r. s = p @ r)"
  by (simp add: starts_with_def prefix_def)

lemma str_contains_iff: "str_contains s p \<longleftrightarrow> (\<exists>a b. s = a @ p @ b)"
proof (induction s)
  case Nil
  then show ?case by auto
next
  case (Cons x xs)
  have "(\<exists>a b. x # xs = a @ p @ b) \<longleftrightarrow> prefix p (x # xs) \<or> (\<exists>a b. xs = a @ p @ b)"
    by (metis (no_types, lifting) Cons_eq_append_conv append.left_neutral append_Cons prefix_def)
  with Cons show ?case by simp
qed

declare starts_with_def [std_str] ends_with_def [std_str] strip_suffix_def [std_str]
  rsplit_once_def [std_str]

text \<open>Slicing a \<open>str\<close> panics when an end is out of range or inside a UTF-8 character.\<close>

definition is_char_boundary :: "string \<Rightarrow> nat \<Rightarrow> bool" where
  "is_char_boundary s i \<longleftrightarrow>
     i = 0 \<or> i = length s \<or>
     (i < length s \<and> \<not> (128 \<le> (of_char (s ! i) :: nat) \<and> of_char (s ! i) < (192 :: nat)))"

definition str_slice :: "string \<Rightarrow> nat \<Rightarrow> nat \<Rightarrow> string outcome" where
  "str_slice s i j =
     (if i \<le> j \<and> is_char_boundary s i \<and> is_char_boundary s j then Done (take (j - i) (drop i s))
      else Panic)"

section \<open>White space\<close>

text \<open>
  \<open>str::trim\<close> and \<open>split_whitespace\<close> use Unicode \<open>White_Space\<close>. On UTF-8 bytes a white-space
  character is one of the byte sequences below; UTF-8 is self-synchronising, so a prefix or
  suffix of a valid string that equals one of them is a whole character.
\<close>

definition ascii_white_space :: "string list" where
  "ascii_white_space = map (\<lambda>n. [char_of (n::nat)]) [9, 10, 11, 12, 13, 32]"

definition unicode_white_space :: "string list" where
  "unicode_white_space =
     map (map char_of)
       ([[0xC2, 0x85], [0xC2, 0xA0], [0xE1, 0x9A, 0x80], [0xE2, 0x80, 0xA8], [0xE2, 0x80, 0xA9],
         [0xE2, 0x80, 0xAF], [0xE2, 0x81, 0x9F], [0xE3, 0x80, 0x80]]
        @ map (\<lambda>k. [0xE2, 0x80, k]) [0x80, 0x81, 0x82, 0x83, 0x84, 0x85, 0x86, 0x87, 0x88, 0x89,
            0x8A :: nat])"

definition white_space :: "string list" where
  "white_space = ascii_white_space @ unicode_white_space"

lemma white_space_eval [code]:
  "white_space =
      [[CHR 0x09], [CHR 0x0A], [CHR 0x0B], [CHR 0x0C],
       [CHR 0x0D], [CHR 0x20], [CHR 0xC2, CHR 0x85], [CHR 0xC2, CHR 0xA0],
       [CHR 0xE1, CHR 0x9A, CHR 0x80], [CHR 0xE2, CHR 0x80, CHR 0xA8], [CHR 0xE2, CHR 0x80, CHR 0xA9], [CHR 0xE2, CHR 0x80, CHR 0xAF],
       [CHR 0xE2, CHR 0x81, CHR 0x9F], [CHR 0xE3, CHR 0x80, CHR 0x80], [CHR 0xE2, CHR 0x80, CHR 0x80], [CHR 0xE2, CHR 0x80, CHR 0x81],
       [CHR 0xE2, CHR 0x80, CHR 0x82], [CHR 0xE2, CHR 0x80, CHR 0x83], [CHR 0xE2, CHR 0x80, CHR 0x84], [CHR 0xE2, CHR 0x80, CHR 0x85],
       [CHR 0xE2, CHR 0x80, CHR 0x86], [CHR 0xE2, CHR 0x80, CHR 0x87], [CHR 0xE2, CHR 0x80, CHR 0x88], [CHR 0xE2, CHR 0x80, CHR 0x89],
       [CHR 0xE2, CHR 0x80, CHR 0x8A]]"
  by (simp add: white_space_def ascii_white_space_def unicode_white_space_def char_of_def
      bit_Suc_0_iff)

lemma white_space_nonempty: "w \<in> set white_space \<Longrightarrow> w \<noteq> []"
  by (auto simp: white_space_def ascii_white_space_def unicode_white_space_def)

function trim_start :: "string \<Rightarrow> string" where
  "trim_start s =
     (case find (\<lambda>w. prefix w s) white_space of
        None \<Rightarrow> s
      | Some w \<Rightarrow> trim_start (drop (length w) s))"
  by pat_completeness auto
termination
proof (relation "measure length")
  fix s w
  assume "find (\<lambda>w. prefix w s) white_space = Some w"
  then have "w \<in> set white_space" and "prefix w s"
    by (auto simp: find_Some_iff)
  then have "w \<noteq> []" and "length w \<le> length s"
    by (auto simp: white_space_nonempty prefix_length_le)
  then have "0 < length w \<and> length w \<le> length s"
    by simp
  then show "(drop (length w) s, s) \<in> measure length"
    by (simp del: length_greater_0_conv)
qed simp

declare trim_start.simps [simp del]

function trim_end :: "string \<Rightarrow> string" where
  "trim_end s =
     (case find (\<lambda>w. suffix w s) white_space of
        None \<Rightarrow> s
      | Some w \<Rightarrow> trim_end (take (length s - length w) s))"
  by pat_completeness auto
termination
proof (relation "measure length")
  fix s w
  assume "find (\<lambda>w. suffix w s) white_space = Some w"
  then have "w \<in> set white_space" and "suffix w s"
    by (auto simp: find_Some_iff)
  then have "w \<noteq> []" and "length w \<le> length s"
    by (auto simp: white_space_nonempty suffix_length_le)
  then have "0 < length w \<and> length w \<le> length s"
    by simp
  then show "(take (length s - length w) s, s) \<in> measure length"
    by (simp del: length_greater_0_conv)
qed simp

declare trim_end.simps [simp del]

definition trim :: "string \<Rightarrow> string" where
  "trim s = trim_end (trim_start s)"

definition no_leading_space :: "string \<Rightarrow> bool" where
  "no_leading_space s \<longleftrightarrow> find (\<lambda>w. prefix w s) white_space = None"

definition no_trailing_space :: "string \<Rightarrow> bool" where
  "no_trailing_space s \<longleftrightarrow> find (\<lambda>w. suffix w s) white_space = None"

lemma no_leading_space_iff: "no_leading_space s \<longleftrightarrow> (\<forall>w\<in>set white_space. \<not> prefix w s)"
  by (auto simp: no_leading_space_def find_None_iff)

lemma no_trailing_space_iff: "no_trailing_space s \<longleftrightarrow> (\<forall>w\<in>set white_space. \<not> suffix w s)"
  by (auto simp: no_trailing_space_def find_None_iff)

lemma trim_start_id: "no_leading_space s \<Longrightarrow> trim_start s = s"
  by (simp add: trim_start.simps [of s] no_leading_space_def)

lemma trim_end_id: "no_trailing_space s \<Longrightarrow> trim_end s = s"
  by (simp add: trim_end.simps [of s] no_trailing_space_def)

lemma trim_id: "no_leading_space s \<Longrightarrow> no_trailing_space s \<Longrightarrow> trim s = s"
  by (simp add: trim_def trim_start_id trim_end_id)

lemma trim_start_no_leading: "no_leading_space (trim_start s)"
  by (induction s rule: trim_start.induct)
    (subst trim_start.simps, auto simp: no_leading_space_def split: option.splits)

lemma trim_end_no_trailing: "no_trailing_space (trim_end s)"
  by (induction s rule: trim_end.induct)
    (subst trim_end.simps, auto simp: no_trailing_space_def split: option.splits)

lemma trim_end_prefix: "prefix (trim_end s) s"
proof (induction s rule: trim_end.induct)
  case (1 s)
  then show ?case
    by (subst trim_end.simps) (auto split: option.splits intro: prefix_order.trans take_is_prefix)
qed

lemma no_leading_space_prefix: "no_leading_space s \<Longrightarrow> prefix t s \<Longrightarrow> no_leading_space t"
  by (auto simp: no_leading_space_iff dest: prefix_order.trans)

lemma trim_no_space: "no_leading_space (trim s) \<and> no_trailing_space (trim s)"
  unfolding trim_def
  by (meson no_leading_space_prefix trim_end_no_trailing trim_end_prefix trim_start_no_leading)

lemma trim_trim [simp]: "trim (trim s) = trim s"
  using trim_no_space [of s] by (simp add: trim_id)

lemma trim_Nil [simp]: "trim [] = []"
  by (rule trim_id) (auto simp: no_leading_space_iff no_trailing_space_iff dest: white_space_nonempty)

text \<open>\<open>str::split_whitespace\<close>: the maximal runs of characters that are no white space.\<close>

definition at_space :: "string \<Rightarrow> bool" where
  "at_space s \<longleftrightarrow> list_ex (\<lambda>w. prefix w s) white_space"

fun take_word :: "string \<Rightarrow> string \<times> string" where
  "take_word [] = ([], [])"
| "take_word (x # xs) =
     (if at_space (x # xs) then ([], x # xs)
      else (case take_word xs of (a, b) \<Rightarrow> (x # a, b)))"

lemma take_word_append: "fst (take_word s) @ snd (take_word s) = s"
  by (induction s) (auto split: prod.splits)

lemma take_word_shorter: "s \<noteq> [] \<Longrightarrow> \<not> at_space s \<Longrightarrow> length (snd (take_word s)) < length s"
proof (cases s)
  case (Cons x xs)
  assume "\<not> at_space s"
  then have "snd (take_word s) = snd (take_word xs)"
    by (simp add: Cons split: prod.splits)
  moreover have "length (snd (take_word xs)) \<le> length xs"
    by (metis length_append le_add2 take_word_append)
  ultimately show ?thesis
    by (simp add: Cons)
qed simp

lemma not_at_space_iff: "\<not> at_space s \<longleftrightarrow> no_leading_space s"
  by (auto simp: at_space_def no_leading_space_iff list_ex_iff)

lemma trim_start_length: "length (trim_start s) \<le> length s"
  by (induction s rule: trim_start.induct)
    (subst trim_start.simps, auto split: option.splits)

lemma take_word_trim_start_length:
  assumes "trim_start s \<noteq> []" and "take_word (trim_start s) = (a, b)"
  shows "length b < length s"
proof -
  have "length (snd (take_word (trim_start s))) < length (trim_start s)"
    using assms(1) by (rule take_word_shorter) (simp add: not_at_space_iff trim_start_no_leading)
  with assms(2) trim_start_length [of s] show ?thesis
    by simp
qed

function split_whitespace :: "string \<Rightarrow> string list" where
  "split_whitespace s =
     (if trim_start s = [] then []
      else (case take_word (trim_start s) of (a, b) \<Rightarrow> a # split_whitespace b))"
  by pat_completeness auto
termination
  by (relation "measure length") (auto dest: take_word_trim_start_length [OF _ sym])

declare split_whitespace.simps [simp del]

section \<open>Numbers as text\<close>

text \<open>The \<open>Display\<close> of the unsigned integer types.\<close>

fun show_nat :: "nat \<Rightarrow> string" where
  "show_nat n =
     (if n < 10 then [char_of (48 + n)] else show_nat (n div 10) @ [char_of (48 + n mod 10)])"

declare show_nat.simps [simp del]

text \<open>\<open>char::to_digit\<close> and \<open>from_str_radix\<close> of an unsigned type with values below \<open>limit\<close>.\<close>

definition to_digit :: "nat \<Rightarrow> char \<Rightarrow> nat option" where
  "to_digit radix c =
     (let n = of_char c;
          d = (if is_ascii_digit c then n - 48
               else if is_ascii_lowercase c then n - 87
               else if is_ascii_uppercase c then n - 55 else radix)
      in if d < radix then Some d else None)"

fun parse_digits :: "nat \<Rightarrow> nat \<Rightarrow> nat \<Rightarrow> string \<Rightarrow> nat option" where
  "parse_digits radix limit acc [] = Some acc"
| "parse_digits radix limit acc (c # cs) =
     (case to_digit radix c of
        None \<Rightarrow> None
      | Some d \<Rightarrow>
          if limit \<le> acc * radix + d then None
          else parse_digits radix limit (acc * radix + d) cs)"

definition from_str_radix :: "nat \<Rightarrow> nat \<Rightarrow> string \<Rightarrow> nat option" where
  "from_str_radix radix limit s =
     (case s of
        [] \<Rightarrow> None
      | c # cs \<Rightarrow>
          if cs = [] \<and> (c = CHR ''+'' \<or> c = CHR ''-'') then None
          else if c = CHR ''+'' then parse_digits radix limit 0 cs
          else parse_digits radix limit 0 s)"

definition parse_u64 :: "string \<Rightarrow> nat option" where
  "parse_u64 = from_str_radix 10 (2 ^ 64)"

definition parse_u32 :: "string \<Rightarrow> nat option" where
  "parse_u32 = from_str_radix 10 (2 ^ 32)"

lemma is_ascii_digit_char_of: "d < 10 \<Longrightarrow> is_ascii_digit (char_of (48 + d :: nat))"
  by (simp add: is_ascii_digit_def)

lemma to_digit_char_of: "d < 10 \<Longrightarrow> to_digit 10 (char_of (48 + d :: nat)) = Some d"
  by (simp add: to_digit_def is_ascii_digit_char_of Let_def)

lemma show_nat_nonempty [simp]: "show_nat n \<noteq> []"
  by (subst show_nat.simps) simp

lemma show_nat_digits: "c \<in> set (show_nat n) \<Longrightarrow> is_ascii_digit c"
proof (induction n rule: show_nat.induct)
  case (1 n)
  from "1.prems" have "c \<in> set (if n < 10 then [char_of (48 + n)]
      else show_nat (n div 10) @ [char_of (48 + n mod 10)])"
    by (simp only: show_nat.simps [of n])
  with "1.IH" show ?case
    by (auto simp: is_ascii_digit_char_of split: if_splits)
qed

lemma show_nat_not_in: "\<not> is_ascii_digit c \<Longrightarrow> c \<notin> set (show_nat n)"
  using show_nat_digits by blast

lemma parse_digits_append:
  "parse_digits r l acc (s @ t) =
     (case parse_digits r l acc s of None \<Rightarrow> None | Some a \<Rightarrow> parse_digits r l a t)"
  by (induction r l acc s rule: parse_digits.induct) (auto split: option.splits)

lemma parse_digits_show_nat: "n < l \<Longrightarrow> parse_digits 10 l 0 (show_nat n) = Some n"
proof (induction n rule: show_nat.induct)
  case (1 n)
  show ?case
  proof (cases "n < 10")
    case True
    with "1.prems" show ?thesis
      by (subst show_nat.simps) (simp add: to_digit_char_of)
  next
    case False
    have "parse_digits 10 l 0 (show_nat (n div 10)) = Some (n div 10)"
      using "1.IH" "1.prems" False by auto
    moreover have "n div 10 * 10 + n mod 10 = n"
      by simp
    ultimately show ?thesis
      using "1.prems" False
      by (subst show_nat.simps) (simp add: parse_digits_append to_digit_char_of)
  qed
qed

lemma from_str_radix_show_nat: "n < l \<Longrightarrow> from_str_radix 10 l (show_nat n) = Some n"
proof -
  assume "n < l"
  then have *: "parse_digits 10 l 0 (show_nat n) = Some n"
    by (rule parse_digits_show_nat)
  obtain c cs where s: "show_nat n = c # cs"
    by (metis neq_Nil_conv show_nat_nonempty)
  then have "is_ascii_digit c"
    using show_nat_digits [of c n] by simp
  then have "c \<noteq> CHR ''+''" and "c \<noteq> CHR ''-''"
    by (auto simp: is_ascii_digit_def)
  with * s show ?thesis
    by (simp add: from_str_radix_def)
qed

lemma show_nat_inject [simp]: "show_nat m = show_nat n \<longleftrightarrow> m = n"
proof
  assume eq: "show_nat m = show_nat n"
  have "parse_digits 10 (m + n + 1) 0 (show_nat m) = Some m"
    by (rule parse_digits_show_nat) simp
  moreover have "parse_digits 10 (m + n + 1) 0 (show_nat n) = Some n"
    by (rule parse_digits_show_nat) simp
  ultimately show "m = n"
    using eq by simp
qed simp

section \<open>Iterators\<close>

text \<open>\<open>slice::chunks(n)\<close>: consecutive pieces of length \<open>n\<close>, the last one possibly shorter.\<close>

function chunks :: "nat \<Rightarrow> 'a list \<Rightarrow> 'a list list" where
  "chunks n xs = (if n = 0 \<or> xs = [] then [] else take n xs # chunks n (drop n xs))"
  by pat_completeness auto
termination
  by (relation "measure (\<lambda>(n, xs). length xs)") auto

declare chunks.simps [simp del]

lemma chunks_Nil [simp]: "chunks n [] = []"
  by (simp add: chunks.simps)

lemma chunks_short: "0 < n \<Longrightarrow> xs \<noteq> [] \<Longrightarrow> length xs \<le> n \<Longrightarrow> chunks n xs = [xs]"
  by (simp add: chunks.simps [of n xs])

lemma chunks_append: "length xs = n \<Longrightarrow> 0 < n \<Longrightarrow> chunks n (xs @ ys) = xs # chunks n ys"
  by (subst chunks.simps) auto

text \<open>Collecting an iterator of results stops at the first error.\<close>

fun collect :: "('e + 'a) list \<Rightarrow> 'e + 'a list" where
  "collect [] = Inr []"
| "collect (Inl e # rs) = Inl e"
| "collect (Inr x # rs) = (case collect rs of Inl e \<Rightarrow> Inl e | Inr xs \<Rightarrow> Inr (x # xs))"

lemma collect_map_Inr [simp]: "collect (map Inr xs) = Inr xs"
  by (induction xs) auto

lemma length_collect: "collect rs = Inr xs \<Longrightarrow> length xs = length rs"
  by (induction rs arbitrary: xs rule: collect.induct) (auto split: sum.splits)

lemma collect_Inr_iff: "collect rs = Inr xs \<longleftrightarrow> rs = map Inr xs"
  by (induction rs arbitrary: xs rule: collect.induct) (auto split: sum.splits)

end
