(* ===== verification/Hmac.thy ===== *)
theory Hmac
  imports Llmos_Prelude
begin

text \<open>
  \<^verbatim>\<open>crates/identity/src/hmac.rs\<close>: SHA-256, HMAC-SHA256, the constant-time comparison and the
  hexadecimal codec. Words are machine words, so every \<open>wrapping_add\<close> is \<open>+\<close> on
  \<open>u32\<close>; an array that a loop fills by index is a list updated by index.
\<close>

section \<open>SHA-256\<close>

subsection \<open>Constants and bytes\<close>

definition sha_K :: "u32 list" where
  "sha_K = concat [
    [0x428a2f98, 0x71374491, 0xb5c0fbcf, 0xe9b5dba5, 0x3956c25b, 0x59f111f1, 0x923f82a4, 0xab1c5ed5],
    [0xd807aa98, 0x12835b01, 0x243185be, 0x550c7dc3, 0x72be5d74, 0x80deb1fe, 0x9bdc06a7, 0xc19bf174],
    [0xe49b69c1, 0xefbe4786, 0x0fc19dc6, 0x240ca1cc, 0x2de92c6f, 0x4a7484aa, 0x5cb0a9dc, 0x76f988da],
    [0x983e5152, 0xa831c66d, 0xb00327c8, 0xbf597fc7, 0xc6e00bf3, 0xd5a79147, 0x06ca6351, 0x14292967],
    [0x27b70a85, 0x2e1b2138, 0x4d2c6dfc, 0x53380d13, 0x650a7354, 0x766a0abb, 0x81c2c92e, 0x92722c85],
    [0xa2bfe8a1, 0xa81a664b, 0xc24b8b70, 0xc76c51a3, 0xd192e819, 0xd6990624, 0xf40e3585, 0x106aa070],
    [0x19a4c116, 0x1e376c08, 0x2748774c, 0x34b0bcb5, 0x391c0cb3, 0x4ed8aa4a, 0x5b9cca4f, 0x682e6ff3],
    [0x748f82ee, 0x78a5636f, 0x84c87814, 0x8cc70208, 0x90befffa, 0xa4506ceb, 0xbef9a3f7, 0xc67178f2]]"

type_synonym hash_words = "u32 \<times> u32 \<times> u32 \<times> u32 \<times> u32 \<times> u32 \<times> u32 \<times> u32"

definition sha_init :: hash_words where
  "sha_init = (0x6a09e667, 0xbb67ae85, 0x3c6ef372, 0xa54ff53a, 0x510e527f, 0x9b05688c,
    0x1f83d9ab, 0x5be0cd19)"

definition u32_to_be_bytes :: "u32 \<Rightarrow> u8 list" where
  "u32_to_be_bytes x = [ucast (drop_bit 24 x), ucast (drop_bit 16 x), ucast (drop_bit 8 x), ucast x]"

definition u64_to_be_bytes :: "u64 \<Rightarrow> u8 list" where
  "u64_to_be_bytes x = map (\<lambda>k. ucast (drop_bit k x)) [56, 48, 40, 32, 24, 16, 8, 0]"

definition u32_from_be_bytes :: "u8 \<Rightarrow> u8 \<Rightarrow> u8 \<Rightarrow> u8 \<Rightarrow> u32" where
  "u32_from_be_bytes b0 b1 b2 b3 =
     push_bit 24 (ucast b0) OR push_bit 16 (ucast b1) OR push_bit 8 (ucast b2) OR ucast b3"

subsection \<open>Padding\<close>

text \<open>The loop \<open>while padded.len() % 64 != 56 { padded.push(0) }\<close>.\<close>

function pad_zeros :: "u8 list \<Rightarrow> u8 list" where
  "pad_zeros p = (if length p mod 64 \<noteq> 56 then pad_zeros (p @ [0]) else p)"
  by pat_completeness auto
termination
proof (relation "measure (\<lambda>p. if length p mod 64 \<le> 56 then 56 - length p mod 64
    else 120 - length p mod 64)")
  fix p :: "u8 list"
  assume "length p mod 64 \<noteq> 56"
  moreover have "length p mod 64 < 64"
    by simp
  ultimately show "(p @ [0], p) \<in> measure (\<lambda>p. if length p mod 64 \<le> 56
      then 56 - length p mod 64 else 120 - length p mod 64)"
    by (auto simp: mod_Suc)
qed simp

declare pad_zeros.simps [simp del]

definition pad_message :: "u8 list \<Rightarrow> u8 list" where
  "pad_message data =
     (let bit_len = (of_nat (length data) :: u64) * 8
      in pad_zeros (data @ [0x80]) @ u64_to_be_bytes bit_len)"

subsection \<open>Message schedule and compression\<close>

function chunks_exact :: "nat \<Rightarrow> 'a list \<Rightarrow> 'a list list" where
  "chunks_exact n xs =
     (if 0 < n \<and> n \<le> length xs then take n xs # chunks_exact n (drop n xs) else [])"
  by pat_completeness auto
termination
  by (relation "measure (\<lambda>(n, xs). length xs)") auto

declare chunks_exact.simps [simp del]

definition load_words :: "u8 list \<Rightarrow> u32 list" where
  "load_words chunk =
     fold (\<lambda>i w. w[i := u32_from_be_bytes (chunk ! (i * 4)) (chunk ! (i * 4 + 1))
                         (chunk ! (i * 4 + 2)) (chunk ! (i * 4 + 3))])
       [0..<16] (replicate 64 0)"

definition extend_word :: "nat \<Rightarrow> u32 list \<Rightarrow> u32 list" where
  "extend_word i w =
     (let s0 = word_rotr 7 (w ! (i - 15)) XOR word_rotr 18 (w ! (i - 15)) XOR drop_bit 3 (w ! (i - 15));
          s1 = word_rotr 17 (w ! (i - 2)) XOR word_rotr 19 (w ! (i - 2)) XOR drop_bit 10 (w ! (i - 2))
      in w[i := w ! (i - 16) + s0 + w ! (i - 7) + s1])"

definition schedule :: "u8 list \<Rightarrow> u32 list" where
  "schedule chunk = fold extend_word [16..<64] (load_words chunk)"

definition sha_round :: "u32 list \<Rightarrow> nat \<Rightarrow> hash_words \<Rightarrow> hash_words" where
  "sha_round w i s =
     (case s of (a, b, c, d, e, f, g, hh) \<Rightarrow>
       (let s1 = word_rotr 6 e XOR word_rotr 11 e XOR word_rotr 25 e;
            ch = (e AND f) XOR ((NOT e) AND g);
            temp1 = hh + s1 + ch + sha_K ! i + w ! i;
            s0 = word_rotr 2 a XOR word_rotr 13 a XOR word_rotr 22 a;
            maj = (a AND b) XOR (a AND c) XOR (b AND c);
            temp2 = s0 + maj
        in (temp1 + temp2, a, b, c, d + temp1, e, f, g)))"

definition compress :: "u8 list \<Rightarrow> hash_words \<Rightarrow> hash_words" where
  "compress chunk h =
     (case h of (h0, h1, h2, h3, h4, h5, h6, h7) \<Rightarrow>
       (case fold (sha_round (schedule chunk)) [0..<64] h of (a, b, c, d, e, f, g, hh) \<Rightarrow>
         (h0 + a, h1 + b, h2 + c, h3 + d, h4 + e, h5 + f, h6 + g, h7 + hh)))"

definition digest_bytes :: "hash_words \<Rightarrow> u8 list" where
  "digest_bytes h =
     (case h of (h0, h1, h2, h3, h4, h5, h6, h7) \<Rightarrow>
       concat (map u32_to_be_bytes [h0, h1, h2, h3, h4, h5, h6, h7]))"

definition sha256 :: "u8 list \<Rightarrow> u8 list" where
  "sha256 data = digest_bytes (fold compress (chunks_exact 64 (pad_message data)) sha_init)"

section \<open>HMAC\<close>

definition BLOCK_SIZE :: nat where "BLOCK_SIZE = 64"

text \<open>The key block: a long key is hashed first, then copied over zeros.\<close>

definition padded_key :: "u8 list \<Rightarrow> u8 list" where
  "padded_key key =
     (if BLOCK_SIZE < length key then sha256 key @ replicate (BLOCK_SIZE - length (sha256 key)) 0
      else key @ replicate (BLOCK_SIZE - length key) 0)"

definition hmac_sha256 :: "u8 list \<Rightarrow> u8 list \<Rightarrow> u8 list" where
  "hmac_sha256 key message =
     (let pk = padded_key key;
          i_key_pad = map (\<lambda>b. 0x36 XOR b) pk;
          o_key_pad = map (\<lambda>b. 0x5c XOR b) pk;
          inner_hash = sha256 (i_key_pad @ message)
      in sha256 (o_key_pad @ inner_hash))"

definition constant_time_eq :: "u8 list \<Rightarrow> u8 list \<Rightarrow> bool" where
  "constant_time_eq a b =
     (if length a \<noteq> length b then False
      else fold (\<lambda>(x, y) diff. diff OR (x XOR y)) (zip a b) 0 = 0)"

section \<open>Hexadecimal\<close>

definition hex_digit :: "nat \<Rightarrow> char" where
  "hex_digit d = (if d < 10 then char_of (48 + d) else char_of (87 + d))"

text \<open>\<open>format!("{:02x}", byte)\<close> for each byte.\<close>

fun hex_encode :: "u8 list \<Rightarrow> string" where
  "hex_encode [] = []"
| "hex_encode (b # bs) = hex_digit (unat b div 16) # hex_digit (unat b mod 16) # hex_encode bs"

fun hex_decode_loop :: "string \<Rightarrow> nat list \<Rightarrow> u8 list \<Rightarrow> u8 list option outcome" where
  "hex_decode_loop hex [] bytes = Done (Some bytes)"
| "hex_decode_loop hex (i # is) bytes =
     (case str_slice hex i (i + 2) of
        Panic \<Rightarrow> Panic
      | Done sub \<Rightarrow>
          (case from_str_radix 16 256 sub of
             None \<Rightarrow> Done None
           | Some byte \<Rightarrow> hex_decode_loop hex is (bytes @ [of_nat byte])))"

definition hex_decode :: "string \<Rightarrow> u8 list option outcome" where
  "hex_decode hex =
     (if length hex mod 2 \<noteq> 0 then Done None
      else hex_decode_loop hex (map (\<lambda>k. 2 * k) [0..<length hex div 2]) [])"

section \<open>Padding: shape and injectivity\<close>

lemma pad_zeros_eq: "\<exists>n<64. pad_zeros p = p @ replicate n 0 \<and> (length p + n) mod 64 = 56"
proof (induction p rule: pad_zeros.induct)
  case (1 p)
  show ?case
  proof (cases "length p mod 64 = 56")
    case True
    then show ?thesis
      by (intro exI [of _ 0]) (simp add: pad_zeros.simps [of p])
  next
    case False
    then obtain n where n: "n < 64" "pad_zeros (p @ [0]) = (p @ [0]) @ replicate n 0"
        "(length (p @ [0]) + n) mod 64 = 56"
      using "1.IH" by blast
    show ?thesis
    proof (cases "n = 63")
      case True
      with n(3) have "length p mod 64 = 56"
        by simp
      with False show ?thesis by simp
    next
      case neq: False
      with n False show ?thesis
        by (intro exI [of _ "Suc n"]) (simp add: pad_zeros.simps [of p])
    qed
  qed
qed

lemma length_u64_to_be_bytes [simp]: "length (u64_to_be_bytes x) = 8"
  by (simp add: u64_to_be_bytes_def)

lemma length_u32_to_be_bytes [simp]: "length (u32_to_be_bytes x) = 4"
  by (simp add: u32_to_be_bytes_def)

lemma u64_to_be_bytes_inject: "u64_to_be_bytes x = u64_to_be_bytes y \<Longrightarrow> x = y"
proof (rule bit_word_eqI)
  fix n
  assume eq: "u64_to_be_bytes x = u64_to_be_bytes y" and "n < LENGTH(64)"
  then have n: "n < 64" by simp
  define k where "k = n div 8 * 8"
  have "n div 8 \<in> {0, 1, 2, 3, 4, 5, 6, 7}"
    using n by auto
  then have "k \<in> {56, 48, 40, 32, 24, 16, 8, 0}"
    by (auto simp: k_def)
  then have "(ucast (drop_bit k x) :: u8) = ucast (drop_bit k y)"
    using eq by (auto simp: u64_to_be_bytes_def)
  then have "bit (ucast (drop_bit k x) :: u8) (n mod 8) = bit (ucast (drop_bit k y) :: u8) (n mod 8)"
    by simp
  then show "bit x n = bit y n"
    by (simp add: bit_unsigned_iff bit_drop_bit_eq k_def)
qed

lemma pad_message_shape:
  "\<exists>n<64. pad_message d = d @ [0x80] @ replicate n 0 @ u64_to_be_bytes (of_nat (length d) * 8)
    \<and> (length d + 1 + n) mod 64 = 56"
  using pad_zeros_eq [of "d @ [0x80]"] by (auto simp: pad_message_def Let_def)

lemma pad_message_prefix: "take (length d) (pad_message d) = d"
  using pad_message_shape [of d] by auto

lemma length_pad_message: "length (pad_message d) mod 64 = 0"
proof -
  obtain n where len: "length (pad_message d) = length d + 1 + n + 8"
    and 56: "(length d + 1 + n) mod 64 = 56"
    using pad_message_shape [of d] by auto
  show ?thesis
    unfolding len using mod_add_left_eq [of "length d + 1 + n" 64 8] 56 by simp
qed

lemma pad_message_tail:
  "drop (length (pad_message d) - 8) (pad_message d) = u64_to_be_bytes (of_nat (length d) * 8)"
  using pad_message_shape [of d] by auto

lemma bit_length_inject:
  assumes "(of_nat m * 8 :: u64) = of_nat n * 8" and "m < 2 ^ 61" and "n < 2 ^ 61"
  shows "m = n"
proof -
  have "unat (of_nat (m * 8) :: u64) = unat (of_nat (n * 8) :: u64)"
    using assms(1) by simp
  moreover have "m * 8 < 2 ^ LENGTH(64)" "n * 8 < 2 ^ LENGTH(64)"
    using assms(2,3) by simp_all
  ultimately have "m * 8 = n * 8"
    by (simp only: unat_of_nat mod_less)
  then show ?thesis by simp
qed

text \<open>
  SHA-256's Merkle-Damgard padding is injective: two messages shorter than 2^61 bytes (so that
  the bit length fits the 64-bit field) with the same padded block sequence are equal, and the
  padded message is a whole number of 64-byte blocks that starts with the message itself.
\<close>

theorem pad_message_injective:
  assumes "pad_message d = pad_message e" and "length d < 2 ^ 61" and "length e < 2 ^ 61"
  shows "d = e \<and> length (pad_message d) mod 64 = 0 \<and> take (length d) (pad_message d) = d"
proof -
  have "u64_to_be_bytes (of_nat (length d) * 8) = u64_to_be_bytes (of_nat (length e) * 8)"
    using pad_message_tail [of d] pad_message_tail [of e] assms(1) by simp
  then have "length d = length e"
    using assms(2,3) by (blast dest: u64_to_be_bytes_inject bit_length_inject)
  then have "d = e"
    by (metis assms(1) pad_message_prefix)
  then show ?thesis
    by (simp add: length_pad_message pad_message_prefix)
qed

theorem pad_message_injective_witness:
  "length (pad_message [7]) mod 64 = 0 \<and> take (length [7]) (pad_message [7]) = [7]"
  using pad_message_injective [of "[7]" "[7]"] by simp

section \<open>The message schedule is the recurrence of FIPS 180-4\<close>

definition small_sigma0 :: "u32 \<Rightarrow> u32" where
  "small_sigma0 x = word_rotr 7 x XOR word_rotr 18 x XOR drop_bit 3 x"

definition small_sigma1 :: "u32 \<Rightarrow> u32" where
  "small_sigma1 x = word_rotr 17 x XOR word_rotr 19 x XOR drop_bit 10 x"

definition block_word :: "u8 list \<Rightarrow> nat \<Rightarrow> u32" where
  "block_word M t = u32_from_be_bytes (M ! (t * 4)) (M ! (t * 4 + 1)) (M ! (t * 4 + 2)) (M ! (t * 4 + 3))"

fun fips_W :: "u8 list \<Rightarrow> nat \<Rightarrow> u32" where
  "fips_W M t =
     (if t < 16 then block_word M t
      else small_sigma1 (fips_W M (t - 2)) + fips_W M (t - 7)
        + small_sigma0 (fips_W M (t - 15)) + fips_W M (t - 16))"

declare fips_W.simps [simp del]

lemma fold_upt_Suc: "i \<le> n \<Longrightarrow> fold f [i..<Suc n] x = f n (fold f [i..<n] x)"
  by simp

lemma load_words_upto:
  "n \<le> 16 \<Longrightarrow>
    (let w = fold (\<lambda>i w. w[i := block_word c i]) [0..<n] (replicate 64 0)
     in length w = 64 \<and> (\<forall>t<n. w ! t = block_word c t))"
proof (induction n)
  case (Suc n)
  then show ?case
    by (auto simp: Let_def nth_list_update less_Suc_eq)
qed simp

lemma load_words_nth: "length (load_words c) = 64 \<and> (\<forall>t<16. load_words c ! t = block_word c t)"
  using load_words_upto [of 16 c] by (simp add: load_words_def block_word_def Let_def)

lemma extend_word_eq:
  "extend_word n w = w[n := small_sigma1 (w ! (n - 2)) + w ! (n - 7)
     + small_sigma0 (w ! (n - 15)) + w ! (n - 16)]"
  by (simp add: extend_word_def small_sigma0_def small_sigma1_def Let_def ac_simps)

lemma schedule_upto:
  "16 \<le> n \<Longrightarrow> n \<le> 64 \<Longrightarrow>
    length (fold extend_word [16..<n] (load_words c)) = 64 \<and>
    (\<forall>t<n. fold extend_word [16..<n] (load_words c) ! t = fips_W c t)"
proof (induction n rule: nat_induct_at_least)
  case base
  then show ?case
    using load_words_nth [of c] by (simp add: fips_W.simps)
next
  case (Suc n)
  define w where "w = fold extend_word [16..<n] (load_words c)"
  have w: "length w = 64" "\<And>t. t < n \<Longrightarrow> w ! t = fips_W c t"
    using Suc by (auto simp: w_def)
  have step: "fold extend_word [16..<Suc n] (load_words c) = extend_word n w"
    using Suc.hyps by (simp add: w_def)
  have "extend_word n w ! t = fips_W c t" if "t < Suc n" for t
    using that w Suc.hyps Suc.prems
    by (cases "t = n") (auto simp: extend_word_eq fips_W.simps [of c n])
  then show ?case
    unfolding step using w(1) by (simp add: extend_word_def Let_def)
qed

text \<open>
  The array-filling loops that build the 64-word message schedule compute the recurrence of
  FIPS 180-4: every entry equals the standard's \<open>W_t\<close>, and no entry is left at its initial zero.
\<close>

theorem schedule_is_fips_recurrence:
  "length (schedule chunk) = 64 \<and> map (fips_W chunk) [0..<64] = schedule chunk"
proof -
  have "length (schedule chunk) = 64" "\<And>t. t < 64 \<Longrightarrow> schedule chunk ! t = fips_W chunk t"
    using schedule_upto [of 64 chunk] by (simp_all add: schedule_def)
  then show ?thesis
    by (auto intro: nth_equalityI)
qed

section \<open>Digest and MAC: lengths and key equivalence\<close>

lemma length_digest_bytes [simp]: "length (digest_bytes h) = 32"
  by (simp add: digest_bytes_def split: prod.splits)

lemma length_sha256 [simp]: "length (sha256 d) = 32"
  by (simp add: sha256_def)

lemma length_hmac_sha256 [simp]: "length (hmac_sha256 k m) = 32"
  by (simp add: hmac_sha256_def Let_def)

lemma length_padded_key [simp]: "length (padded_key k) = 64"
  by (simp add: padded_key_def BLOCK_SIZE_def)

lemma hmac_cong: "padded_key k = padded_key k' \<Longrightarrow> hmac_sha256 k m = hmac_sha256 k' m"
  by (simp add: hmac_sha256_def)

text \<open>
  The MAC is always 32 bytes and depends on the key through its 64-byte block only: a key that
  fits the block and the same key followed by zero bytes up to 64 give the same MAC, and a key
  longer than a block gives the MAC of its SHA-256 digest. (Distinct keys of these shapes are
  interchangeable, as RFC 2104 has it.)
\<close>

theorem hmac_key_equivalence:
  assumes "length k + n \<le> 64" and "64 < length long_key"
  shows "length (hmac_sha256 k m) = 32
    \<and> hmac_sha256 (k @ replicate n 0) m = hmac_sha256 k m
    \<and> hmac_sha256 long_key m = hmac_sha256 (sha256 long_key) m"
proof -
  have "padded_key (k @ replicate n 0) = padded_key k"
    using assms(1) by (simp add: padded_key_def BLOCK_SIZE_def flip: replicate_add)
  moreover have "padded_key long_key = padded_key (sha256 long_key)"
    using assms(2) by (simp add: padded_key_def BLOCK_SIZE_def)
  ultimately show ?thesis
    by (auto intro: hmac_cong)
qed

theorem hmac_key_equivalence_witness:
  "hmac_sha256 [1, 0, 0] [5] = hmac_sha256 [1] [5]
    \<and> hmac_sha256 (replicate 65 9) [5] = hmac_sha256 (sha256 (replicate 65 9)) [5]"
  using hmac_key_equivalence [of "[1]" 2 "replicate 65 9" "[5]"] by (simp add: numeral_2_eq_2)

section \<open>Comparison\<close>

lemma xor_eq_0_iff_eq: "(a :: u8) XOR b = 0 \<longleftrightarrow> a = b"
proof
  assume "a XOR b = 0"
  then have "(a XOR b) XOR b = b"
    by simp
  then show "a = b"
    by (simp add: xor.assoc)
qed simp

lemma fold_diff_eq_0:
  "fold (\<lambda>(x, y) diff. diff OR (x XOR y)) xs d = (0 :: u8) \<longleftrightarrow> d = 0 \<and> (\<forall>(x, y)\<in>set xs. x = y)"
proof (induction xs arbitrary: d)
  case (Cons p xs)
  then show ?case
    by (cases p) (auto simp: or_eq_0_iff xor_eq_0_iff_eq)
qed simp

lemma zip_all_eq: "length a = length b \<Longrightarrow> (\<forall>(x, y)\<in>set (zip a b). x = y) \<longleftrightarrow> a = b"
  by (induction a b rule: list_induct2) auto

text \<open>
  The constant-time comparison, which accumulates the differences of all byte pairs and never
  exits early on a mismatch, decides equality of byte slices.
\<close>

theorem constant_time_eq_iff: "constant_time_eq a b \<longleftrightarrow> a = b"
  by (auto simp: constant_time_eq_def fold_diff_eq_0 zip_all_eq)

section \<open>Hexadecimal round trip\<close>

lemma length_hex_encode [simp]: "length (hex_encode d) = 2 * length d"
  by (induction d) auto

lemma hex_encode_append: "hex_encode (d @ e) = hex_encode d @ hex_encode e"
  by (induction d) auto

lemma of_char_hex_digit: "n < 16 \<Longrightarrow> of_char (hex_digit n) = (if n < 10 then 48 + n else 87 + n)"
  by (auto simp: hex_digit_def)

lemma hex_digit_props:
  assumes "n < 16"
  shows "to_digit 16 (hex_digit n) = Some n \<and> hex_digit n \<noteq> CHR ''+''
    \<and> hex_digit n \<noteq> CHR ''.'' \<and> of_char (hex_digit n) < (128 :: nat)"
proof -
  have "of_char (hex_digit n) \<noteq> (of_char CHR ''+'' :: nat)"
    and "of_char (hex_digit n) \<noteq> (of_char CHR ''.'' :: nat)"
    using assms by (auto simp: of_char_hex_digit)
  then have "hex_digit n \<noteq> CHR ''+''" "hex_digit n \<noteq> CHR ''.''"
    by (simp_all only: of_char_eq_iff not_False_eq_True)
  moreover have "to_digit 16 (hex_digit n) = Some n"
    using assms by (auto simp: to_digit_def std_str of_char_hex_digit Let_def)
  ultimately show ?thesis
    using assms by (auto simp: of_char_hex_digit)
qed

lemma unat_u8_less: "unat (b :: u8) < 256"
  using unsigned_less [of b] by simp

lemma unat_u8_nibbles: "unat (b :: u8) div 16 < 16" "unat (b :: u8) mod 16 < 16"
  using unat_u8_less [of b] by auto

lemmas nibble_props =
  unat_u8_nibbles(1) [THEN hex_digit_props] unat_u8_nibbles(2) [THEN hex_digit_props]

lemma from_str_radix_hex_byte:
  "from_str_radix 16 256 [hex_digit (unat b div 16), hex_digit (unat b mod 16)] = Some (unat (b :: u8))"
  using nibble_props [of b] unat_u8_less [of b] unat_u8_nibbles(1) [of b]
  by (simp add: from_str_radix_def)

lemma hex_encode_ascii: "c \<in> set (hex_encode d) \<Longrightarrow> of_char c < (128 :: nat) \<and> c \<noteq> CHR ''.''"
  by (induction d) (use nibble_props in auto)

lemma ascii_boundary:
  "\<forall>c\<in>set s. of_char c < (128 :: nat) \<Longrightarrow> i \<le> length s \<Longrightarrow> is_char_boundary s i"
  using nth_mem [of i s] by (fastforce simp: is_char_boundary_def)

lemma ascii_slice:
  "\<forall>c\<in>set s. of_char c < (128 :: nat) \<Longrightarrow> i \<le> j \<Longrightarrow> j \<le> length s \<Longrightarrow>
    str_slice s i j = Done (take (j - i) (drop i s))"
  by (simp add: str_slice_def ascii_boundary)

lemma hex_decode_loop_encode:
  "hex_decode_loop (hex_encode (pre @ suf)) (map (\<lambda>k. 2 * k) [length pre..<length pre + length suf]) acc
    = Done (Some (acc @ suf))"
proof (induction suf arbitrary: pre acc)
  case (Cons b suf)
  have range: "[length pre..<length pre + length (b # suf)]
      = length pre # [length (pre @ [b])..<length (pre @ [b]) + length suf]"
    by (simp add: upt_rec)
  have slice: "str_slice (hex_encode (pre @ b # suf)) (2 * length pre) (2 * length pre + 2)
      = Done [hex_digit (unat b div 16), hex_digit (unat b mod 16)]"
    using hex_encode_ascii [of _ "pre @ b # suf"]
    by (subst ascii_slice) (auto simp: hex_encode_append)
  show ?case
    using Cons.IH [of "pre @ [b]" "acc @ [b]"]
    by (simp only: range list.map hex_decode_loop.simps slice) (simp add: from_str_radix_hex_byte)
qed simp

lemma hex_decode_loop_ascii:
  assumes "\<forall>c\<in>set s. of_char c < (128 :: nat)" and "\<forall>i\<in>set is. i + 2 \<le> length s"
  shows "hex_decode_loop s is acc \<noteq> Panic"
  using assms(2)
proof (induction "is" arbitrary: acc)
  case (Cons i "is")
  then have "str_slice s i (i + 2) = Done (take 2 (drop i s))"
    by (subst ascii_slice [OF assms(1)]) auto
  with Cons show ?case
    by (auto split: option.splits)
qed simp

lemma hex_decode_ascii:
  assumes "\<forall>c\<in>set s. of_char c < (128 :: nat)"
  shows "hex_decode s \<noteq> Panic"
proof -
  have "hex_decode_loop s (map (\<lambda>k. 2 * k) [0..<length s div 2]) [] \<noteq> Panic"
    using assms by (rule hex_decode_loop_ascii) auto
  then show ?thesis
    by (simp add: hex_decode_def)
qed

text \<open>
  Decoding the hexadecimal form of any byte string gives that byte string back, and the form has two
  characters per byte.
\<close>

theorem hex_roundtrip:
  "hex_decode (hex_encode d) = Done (Some d) \<and> length (hex_encode d) = 2 * length d"
  using hex_decode_loop_encode [of "[]" d "[]"] by (simp add: hex_decode_def)

text \<open>
  The hexadecimal decoder is not total on strings and not strict on digits: a string whose
  two-byte slices cut a UTF-8 character makes it panic although its type promises an option, and
  a leading plus sign is accepted as part of a byte, so two different strings decode to the same bytes.
\<close>

theorem hex_decode_not_strict:
  "hex_decode (CHR ''a'' # char_of (0xC3 :: nat) # char_of (0xA9 :: nat) # ''b'') = Panic
    \<and> hex_decode ''+f'' = Done (Some [0x0f]) \<and> hex_decode ''0f'' = Done (Some [0x0f])"
  by code_simp

end
