(* ===== verification/Sha_Vectors.thy ===== *)
theory Sha_Vectors
  imports Hmac
begin

text \<open>
  A published test vector, evaluated by the kernel through the whole of the model of
  \<^verbatim>\<open>crates/identity/src/hmac.rs\<close>'s \<open>sha256\<close>: it ties the definitions of \<open>Hmac\<close> to the standard.
\<close>

text \<open>
  The SHA-256 of \<open>hello\<close>, computed through padding, schedule, 64 rounds and the final addition,
  is the published digest (the unit test of the source).
\<close>

theorem sha256_hello:
  "hex_encode (sha256 (as_bytes ''hello''))
    = ''2cf24dba5fb0a30e26e83b2ac5b9e29e1b161e5c1fa7425e73043362938b9824''"
  by code_simp

section \<open>The unit tests of the module\<close>

text \<open>
  The tests of \<^verbatim>\<open>hmac.rs\<close> as truth values over the model. The test of HMAC is case 2 of RFC 4231; its four
  compressions are evaluated one by one, with the blocks and the states between them written out.
\<close>

definition sha256_empty_string :: bool where
  "sha256_empty_string \<longleftrightarrow>
     hex_encode (sha256 []) = ''e3b0c44298fc1c149afbf4c8996fb92427ae41e4649b934ca495991b7852b855''"

definition sha256_hello_test :: bool where
  "sha256_hello_test \<longleftrightarrow>
     hex_encode (sha256 (as_bytes ''hello'')) = ''2cf24dba5fb0a30e26e83b2ac5b9e29e1b161e5c1fa7425e73043362938b9824''"

definition hmac_sha256_rfc4231_test_case_2 :: bool where
  "hmac_sha256_rfc4231_test_case_2 \<longleftrightarrow>
     hex_encode (hmac_sha256 (as_bytes ''Jefe'') (as_bytes ''what do ya want for nothing?''))
       = ''5bdcc146bf60754e6a042426089575c75a003f089d2739839dec58b964ec3843''"

definition constant_time_eq_works :: bool where
  "constant_time_eq_works \<longleftrightarrow>
     constant_time_eq (as_bytes ''abc'') (as_bytes ''abc'') \<and> \<not> constant_time_eq (as_bytes ''abc'') (as_bytes ''abd'')
     \<and> \<not> constant_time_eq (as_bytes ''abc'') (as_bytes ''ab'')"

definition hex_roundtrip_test :: bool where
  "hex_roundtrip_test \<longleftrightarrow>
     (let data = [0xde, 0xad, 0xbe, 0xef]; hex = hex_encode data
      in hex = ''deadbeef'' \<and> hex_decode hex = Done (Some data))"

lemma sha256_empty_string_test: "sha256_empty_string"
  by code_simp

lemma sha256_hello_works_test: "sha256_hello_test"
  by (simp only: sha256_hello_test_def sha256_hello)

lemma constant_time_eq_works_test: "constant_time_eq_works"
  by code_simp

lemma hex_roundtrip_works_test: "hex_roundtrip_test"
  by code_simp

subsection \<open>HMAC block by block\<close>

definition hmac_inner_block1 :: "u8 list" where
  "hmac_inner_block1 =
    [124, 83, 80, 83, 54, 54, 54, 54, 54, 54, 54, 54, 54, 54, 54, 54,
     54, 54, 54, 54, 54, 54, 54, 54, 54, 54, 54, 54, 54, 54, 54, 54,
     54, 54, 54, 54, 54, 54, 54, 54, 54, 54, 54, 54, 54, 54, 54, 54,
     54, 54, 54, 54, 54, 54, 54, 54, 54, 54, 54, 54, 54, 54, 54, 54]"

definition hmac_inner_state1 :: hash_words where
  "hmac_inner_state1 = (0x655da7fa, 0xcc434b37, 0x5a1cd5cb, 0x0692ee0e, 0xa47a23d3, 0x4c3af449, 0xdba21ae2, 0x78c7500c)"

definition hmac_inner_block2 :: "u8 list" where
  "hmac_inner_block2 =
    [119, 104, 97, 116, 32, 100, 111, 32, 121, 97, 32, 119, 97, 110, 116, 32,
     102, 111, 114, 32, 110, 111, 116, 104, 105, 110, 103, 63, 128, 0, 0, 0,
     0, 0, 0, 0, 0, 0, 0, 0, 0, 0, 0, 0, 0, 0, 0, 0,
     0, 0, 0, 0, 0, 0, 0, 0, 0, 0, 0, 0, 0, 0, 2, 224]"

definition hmac_inner_state2 :: hash_words where
  "hmac_inner_state2 = (0xa2e48586, 0x3d27f9d8, 0x64ac8d80, 0x2432a1ed, 0x477d8c4c, 0x6f349d16, 0xd4e7e917, 0xc629cad7)"

lemma hmac_inner_compress1: "compress hmac_inner_block1 sha_init = hmac_inner_state1"
  by code_simp

lemma hmac_inner_compress2: "compress hmac_inner_block2 hmac_inner_state1 = hmac_inner_state2"
  by code_simp

definition hmac_outer_block1 :: "u8 list" where
  "hmac_outer_block1 =
    [22, 57, 58, 57, 92, 92, 92, 92, 92, 92, 92, 92, 92, 92, 92, 92,
     92, 92, 92, 92, 92, 92, 92, 92, 92, 92, 92, 92, 92, 92, 92, 92,
     92, 92, 92, 92, 92, 92, 92, 92, 92, 92, 92, 92, 92, 92, 92, 92,
     92, 92, 92, 92, 92, 92, 92, 92, 92, 92, 92, 92, 92, 92, 92, 92]"

definition hmac_outer_state1 :: hash_words where
  "hmac_outer_state1 = (0x0eafe3d5, 0x13412e6c, 0x6a6a2feb, 0x2d375acc, 0x51a4fd47, 0x6db095e8, 0x23bfa18a, 0x52f141d5)"

definition hmac_outer_block2 :: "u8 list" where
  "hmac_outer_block2 =
    [162, 228, 133, 134, 61, 39, 249, 216, 100, 172, 141, 128, 36, 50, 161, 237,
     71, 125, 140, 76, 111, 52, 157, 22, 212, 231, 233, 23, 198, 41, 202, 215,
     128, 0, 0, 0, 0, 0, 0, 0, 0, 0, 0, 0, 0, 0, 0, 0,
     0, 0, 0, 0, 0, 0, 0, 0, 0, 0, 0, 0, 0, 0, 3, 0]"

definition hmac_outer_state2 :: hash_words where
  "hmac_outer_state2 = (0x5bdcc146, 0xbf60754e, 0x6a042426, 0x089575c7, 0x5a003f08, 0x9d273983, 0x9dec58b9, 0x64ec3843)"

lemma hmac_outer_compress1: "compress hmac_outer_block1 sha_init = hmac_outer_state1"
  by code_simp

lemma hmac_outer_compress2: "compress hmac_outer_block2 hmac_outer_state1 = hmac_outer_state2"
  by code_simp

definition hmac_inner_hash :: "u8 list" where
  "hmac_inner_hash =
    [162, 228, 133, 134, 61, 39, 249, 216, 100, 172, 141, 128, 36, 50, 161, 237,
     71, 125, 140, 76, 111, 52, 157, 22, 212, 231, 233, 23, 198, 41, 202, 215]"


lemma hmac_inner_blocks:
  "chunks_exact 64 (pad_message (map (\<lambda>b. 0x36 XOR b) (padded_key (as_bytes ''Jefe'')) @ as_bytes ''what do ya want for nothing?''))
    = [hmac_inner_block1, hmac_inner_block2]"
  by code_simp

lemma hmac_outer_blocks:
  "chunks_exact 64 (pad_message (map (\<lambda>b. 0x5c XOR b) (padded_key (as_bytes ''Jefe'')) @ hmac_inner_hash))
    = [hmac_outer_block1, hmac_outer_block2]"
  by code_simp

lemma hmac_inner_digest: "digest_bytes hmac_inner_state2 = hmac_inner_hash"
  by code_simp

lemma hmac_outer_digest:
  "hex_encode (digest_bytes hmac_outer_state2) = ''5bdcc146bf60754e6a042426089575c75a003f089d2739839dec58b964ec3843''"
  by code_simp

lemma hmac_rfc4231_test: "hmac_sha256_rfc4231_test_case_2"
proof -
  have "sha256 (map (\<lambda>b. 0x36 XOR b) (padded_key (as_bytes ''Jefe'')) @ as_bytes ''what do ya want for nothing?'')
      = hmac_inner_hash"
    by (simp only: sha256_def hmac_inner_blocks fold_simps hmac_inner_compress1 hmac_inner_compress2 hmac_inner_digest)
  then have "hmac_sha256 (as_bytes ''Jefe'') (as_bytes ''what do ya want for nothing?'') = digest_bytes hmac_outer_state2"
    by (simp only: hmac_sha256_def Let_def sha256_def [of "map _ _ @ hmac_inner_hash"] hmac_outer_blocks fold_simps
        hmac_outer_compress1 hmac_outer_compress2)
  then show ?thesis
    by (simp only: hmac_sha256_rfc4231_test_case_2_def hmac_outer_digest)
qed

end
