(* ===== verification/Fips_Sha256.thy ===== *)
theory Fips_Sha256
  imports Hmac
begin

text \<open>
  The secure hash standard (FIPS 180-4) and the keyed hash (FIPS 198-1) as the standards put them, on strings of bits,
  and the theorem that \<^verbatim>\<open>crates/identity/src/hmac.rs\<close> computes them: padding, parsing into blocks and words, message
  schedule, the 64 rounds, the constants, and the two nested hashes of the MAC. Nothing of the definitions of this theory
  is taken from the code but the two tables of constants, which are checked against their definition by roots of primes.
\<close>

section \<open>Strings of bits\<close>

text \<open>A word as its bits, the most significant first, and back.\<close>

definition be_bits :: "'a::len word \<Rightarrow> bool list" where
  "be_bits w = map (\<lambda>i. bit w (LENGTH('a) - 1 - i)) [0..<LENGTH('a)]"

definition of_bits :: "bool list \<Rightarrow> u32" where
  "of_bits bs = foldl (\<lambda>a b. 2 * a + of_bool b) 0 bs"

definition bits_of :: "u8 list \<Rightarrow> bool list" where
  "bits_of bytes = concat (map be_bits bytes)"

lemma length_be_bits [simp]: "length (be_bits (w :: 'a::len word)) = LENGTH('a)"
  by (simp add: be_bits_def)

lemma be_bits_inject: "be_bits v = be_bits w \<longleftrightarrow> v = (w :: 'a::len word)"
proof
  assume eq: "be_bits v = be_bits w"
  show "v = w"
  proof (rule bit_word_eqI)
    fix n assume n: "n < LENGTH('a)"
    then have "be_bits v ! (LENGTH('a) - 1 - n) = be_bits w ! (LENGTH('a) - 1 - n)"
      using eq by simp
    then show "bit v n = bit w n"
      using n by (simp add: be_bits_def)
  qed
qed simp

lemma bits_of_simps [simp]:
  "bits_of [] = []" "bits_of (b # bs) = be_bits b @ bits_of bs" "bits_of (bs @ cs) = bits_of bs @ bits_of cs"
  by (simp_all add: bits_of_def)

lemma length_bits_of [simp]: "length (bits_of bs) = 8 * length bs"
  by (induction bs) simp_all

lemma bits_of_replicate_0: "bits_of (replicate n 0) = replicate (8 * n) False"
proof (induction n)
  case (Suc n)
  have "be_bits (0 :: u8) = replicate 8 False"
    by (simp add: be_bits_def map_replicate_const)
  with Suc show ?case
    by (simp add: replicate_add)
qed simp

lemma bits_of_drop: "drop (8 * n) (bits_of bs) = bits_of (drop n bs)"
proof (induction n arbitrary: bs)
  case (Suc n)
  then show ?case
    by (cases bs) (simp_all flip: drop_drop)
qed simp

lemma bits_of_take: "take (8 * n) (bits_of bs) = bits_of (take n bs)"
proof (induction n arbitrary: bs)
  case (Suc n)
  then show ?case
    by (cases bs) simp_all
qed simp

lemma upt_8: "[0..<8] = [0, 1, 2, 3, 4, 5, 6, 7 :: nat]"
  by (simp add: upt_rec)

lemma bits_of_be_bytes:
  "bits_of (u32_to_be_bytes x) = be_bits x" "bits_of (u64_to_be_bytes y) = be_bits y"
  by (simp_all add: u32_to_be_bytes_def u64_to_be_bytes_def be_bits_def upt_rec bit_unsigned_iff bit_drop_bit_eq)

lemma bits_of_from_be_bytes: "be_bits (u32_from_be_bytes a b c d) = bits_of [a, b, c, d]"
proof -
  have high: "8 \<le> n \<Longrightarrow> \<not> bit w n" for w :: u8 and n
    using bit_imp_le_length [of w n] by auto
  show ?thesis
    by (simp add: u32_from_be_bytes_def be_bits_def upt_rec bit_unsigned_iff bit_or_iff bit_push_bit_iff high)
qed

lemma foldl_bits: "foldl (\<lambda>a b. 2 * a + of_bool b) acc bs = acc * 2 ^ length bs + foldl (\<lambda>a b. 2 * a + of_bool b) (0 :: u32) bs"
proof (induction bs arbitrary: acc)
  case (Cons b bs)
  show ?case
    using Cons.IH [of "2 * acc + of_bool b"] Cons.IH [of "of_bool b"] by (simp add: algebra_simps)
qed simp

lemma of_bits_be_bits: "of_bits (be_bits w) = w"
proof -
  have "of_bits (map (bit w) (rev [0..<n])) = take_bit n w" for n
  proof (induction n)
    case (Suc n)
    have "take_bit (Suc n) w = take_bit n w + of_bool (bit w n) * 2 ^ n"
      by (rule bit_word_eqI) (auto simp: bit_take_bit_iff disjunctive_add bit_or_iff bit_exp_iff less_Suc_eq split: if_splits)
    then show ?case
      using Suc foldl_bits [of "of_bool (bit w n)" "map (bit w) (rev [0..<n])"] by (simp add: of_bits_def)
  qed (simp add: of_bits_def)
  moreover have "be_bits w = map (bit w) (rev [0..<32])"
    by (rule nth_equalityI) (simp_all add: be_bits_def rev_nth)
  ultimately show ?thesis
    by (simp add: take_bit_word_eq_self)
qed

section \<open>Padding and parsing\<close>

text \<open>The bit 1, then the fewest zeros that leave room for the length in the last 64 bits of a block.\<close>

definition fips_zeros :: "nat \<Rightarrow> nat" where
  "fips_zeros l = (LEAST k. (l + 1 + k) mod 512 = 448)"

definition fips_pad :: "bool list \<Rightarrow> bool list" where
  "fips_pad m = m @ [True] @ replicate (fips_zeros (length m)) False @ be_bits (of_nat (length m) :: u64)"

definition fips_blocks :: "bool list \<Rightarrow> bool list list" where
  "fips_blocks m = map (\<lambda>i. take 512 (drop (512 * i) m)) [0..<length m div 512]"

definition fips_word :: "bool list \<Rightarrow> nat \<Rightarrow> u32" where
  "fips_word block t = of_bits (take 32 (drop (32 * t) block))"

lemma fips_zeros_bytes:
  assumes "n < 64" "(len + 1 + n) mod 64 = 56"
  shows "fips_zeros (8 * len) = 7 + 8 * n"
  unfolding fips_zeros_def
proof (rule Least_equality)
  show sol: "(8 * len + 1 + (7 + 8 * n)) mod 512 = 448"
    using assms(2) mult_mod_right [of 8 "len + 1 + n" 64] by (simp add: algebra_simps)
  fix k assume k: "(8 * len + 1 + k) mod 512 = 448"
  show "7 + 8 * n \<le> k"
  proof (rule ccontr)
    assume "\<not> 7 + 8 * n \<le> k"
    then have less: "k < 7 + 8 * n" by simp
    have "512 dvd (8 * len + 1 + (7 + 8 * n)) - (8 * len + 1 + k)"
      using mod_eq_dvd_iff_nat [of "8 * len + 1 + k" "8 * len + 1 + (7 + 8 * n)" 512] sol k less by simp
    then have "512 \<le> 7 + 8 * n - k"
      using less by (intro dvd_imp_le) simp_all
    with assms(1) show False by simp
  qed
qed

lemma bits_of_pad_message: "bits_of (pad_message d) = fips_pad (bits_of d)"
proof -
  obtain n where n: "n < 64" "pad_message d = d @ [0x80] @ replicate n 0 @ u64_to_be_bytes (of_nat (length d) * 8)"
    "(length d + 1 + n) mod 64 = 56"
    using pad_message_shape by blast
  have "be_bits (0x80 :: u8) = True # replicate 7 False"
    by (simp add: be_bits_def upt_rec numeral_eq_Suc)
  then show ?thesis
    using fips_zeros_bytes [OF n(1,3)]
    by (simp add: n(2) fips_pad_def bits_of_replicate_0 bits_of_be_bytes replicate_add mult.commute)
qed

lemma chunks_exact_nth:
  "0 < n \<Longrightarrow> chunks_exact n xs = map (\<lambda>i. take n (drop (n * i) xs)) [0..<length xs div n]"
proof (induction n xs rule: chunks_exact.induct)
  case (1 n xs)
  show ?case
  proof (cases "n \<le> length xs")
    case True
    then have "length xs div n = Suc (length (drop n xs) div n)"
      using "1.prems" by (simp add: le_div_geq)
    then have "map (\<lambda>i. take n (drop (n * i) xs)) [0..<length xs div n]
        = take n xs # map (\<lambda>i. take n (drop (n * i) (drop n xs))) [0..<length (drop n xs) div n]"
      by (simp add: upt_conv_Cons map_Suc_upt [symmetric] add.commute del: upt_Suc)
    with True 1 show ?thesis
      by (simp add: chunks_exact.simps [of n xs])
  next
    case False
    then show ?thesis
      by (simp add: chunks_exact.simps [of n xs])
  qed
qed

lemma fips_blocks_bytes: "fips_blocks (bits_of p) = map bits_of (chunks_exact 64 p)"
proof -
  have "take 512 (drop (512 * i) (bits_of p)) = bits_of (take 64 (drop (64 * i) p))" for i
    using bits_of_drop [of "64 * i" p] bits_of_take [of 64 "drop (64 * i) p"] by simp
  moreover have "8 * length p div 512 = length p div 64"
    using div_mult_mult1 [of 8 "length p" 64] by simp
  ultimately show ?thesis
    by (simp add: fips_blocks_def chunks_exact_nth)
qed

lemma fips_word_bytes:
  assumes "length chunk = 64" "t < 16"
  shows "fips_word (bits_of chunk) t = block_word chunk t"
proof -
  have "take 4 (drop (4 * t) chunk) = [chunk ! (4 * t), chunk ! (4 * t + 1), chunk ! (4 * t + 2), chunk ! (4 * t + 3)]"
    using assms by (auto intro!: nth_equalityI simp: less_Suc_eq numeral_eq_Suc)
  then have "take 32 (drop (32 * t) (bits_of chunk)) = be_bits (block_word chunk t)"
    using bits_of_drop [of "4 * t" chunk] bits_of_take [of 4 "drop (4 * t) chunk"]
    by (simp add: block_word_def bits_of_from_be_bytes mult.commute)
  then show ?thesis
    by (simp add: fips_word_def of_bits_be_bits)
qed

section \<open>The hash\<close>

definition sigma_upper0 :: "u32 \<Rightarrow> u32" where
  "sigma_upper0 x = word_rotr 2 x XOR word_rotr 13 x XOR word_rotr 22 x"

definition sigma_upper1 :: "u32 \<Rightarrow> u32" where
  "sigma_upper1 x = word_rotr 6 x XOR word_rotr 11 x XOR word_rotr 25 x"

definition ch_bits :: "u32 \<Rightarrow> u32 \<Rightarrow> u32 \<Rightarrow> u32" where
  "ch_bits x y z = (x AND y) XOR ((NOT x) AND z)"

definition maj_bits :: "u32 \<Rightarrow> u32 \<Rightarrow> u32 \<Rightarrow> u32" where
  "maj_bits x y z = (x AND y) XOR (x AND z) XOR (y AND z)"

function fips_schedule :: "bool list \<Rightarrow> nat \<Rightarrow> u32" where
  "fips_schedule block t =
     (if t < 16 then fips_word block t
      else small_sigma1 (fips_schedule block (t - 2)) + fips_schedule block (t - 7)
        + small_sigma0 (fips_schedule block (t - 15)) + fips_schedule block (t - 16))"
  by pat_completeness auto
termination
  by (relation "measure snd") auto

declare fips_schedule.simps [simp del]

fun fips_round :: "bool list \<Rightarrow> nat \<Rightarrow> hash_words \<Rightarrow> hash_words" where
  "fips_round block t (a, b, c, d, e, f, g, h) =
     (let t1 = h + sigma_upper1 e + ch_bits e f g + sha_K ! t + fips_schedule block t;
          t2 = sigma_upper0 a + maj_bits a b c
      in (t1 + t2, a, b, c, d + t1, e, f, g))"

fun add_words :: "hash_words \<Rightarrow> hash_words \<Rightarrow> hash_words" where
  "add_words (a, b, c, d, e, f, g, h) (a', b', c', d', e', f', g', h') =
     (a + a', b + b', c + c', d + d', e + e', f + f', g + g', h + h')"

definition fips_compress :: "bool list \<Rightarrow> hash_words \<Rightarrow> hash_words" where
  "fips_compress block h = add_words (fold (fips_round block) [0..<64] h) h"

fun fips_digest :: "hash_words \<Rightarrow> bool list" where
  "fips_digest (a, b, c, d, e, f, g, h) = concat (map be_bits [a, b, c, d, e, f, g, h])"

definition fips_sha256 :: "bool list \<Rightarrow> bool list" where
  "fips_sha256 m = fips_digest (fold fips_compress (fips_blocks (fips_pad m)) sha_init)"

lemma hash_words_cases:
  fixes s :: hash_words
  obtains a b c d e f g h where "s = (a, b, c, d, e, f, g, h)"
  by (metis surj_pair)

lemma fips_schedule_bytes:
  assumes "length chunk = 64"
  shows "fips_schedule (bits_of chunk) t = fips_W chunk t"
proof (induction t rule: less_induct)
  case (less t)
  then show ?case
    by (simp add: fips_schedule.simps [of "bits_of chunk" t] fips_W.simps [of chunk t] fips_word_bytes assms)
qed

lemma compress_bytes:
  assumes "length chunk = 64"
  shows "compress chunk h = fips_compress (bits_of chunk) h"
proof -
  have W: "schedule chunk ! t = fips_schedule (bits_of chunk) t" if "t < 64" for t
    using schedule_upto [of 64 chunk] that by (simp add: schedule_def fips_schedule_bytes [OF assms])
  have "sha_round (schedule chunk) t s = fips_round (bits_of chunk) t s" if "t < 64" for t s
    by (rule hash_words_cases [of s]) (simp add: sha_round_def W [OF that] sigma_upper0_def sigma_upper1_def ch_bits_def maj_bits_def Let_def)
  then have "fold (sha_round (schedule chunk)) [0..<64] h = fold (fips_round (bits_of chunk)) [0..<64] h"
    by (intro fold_cong) auto
  then show ?thesis
    by (cases rule: hash_words_cases [of h]; cases rule: hash_words_cases [of "fold (fips_round (bits_of chunk)) [0..<64] h"])
      (simp add: compress_def fips_compress_def add.commute del: fold_upt_Suc)
qed

lemma sha256_bits: "bits_of (sha256 data) = fips_sha256 (bits_of data)"
proof -
  have "length chunk = 64" if "chunk \<in> set (chunks_exact 64 (pad_message data))" for chunk
    using that by (auto simp: chunks_exact_nth dest: less_mult_imp_div_less)
  then have "fold compress (chunks_exact 64 (pad_message data)) h
      = fold fips_compress (map bits_of (chunks_exact 64 (pad_message data))) h" for h
    by (auto simp: fold_map compress_bytes intro!: fold_cong)
  moreover have "bits_of (digest_bytes h) = fips_digest h" for h
    by (rule hash_words_cases [of h]) (simp add: digest_bytes_def bits_of_be_bytes)
  ultimately show ?thesis
    by (simp add: sha256_def fips_sha256_def fips_blocks_bytes flip: bits_of_pad_message)
qed

section \<open>The keyed hash\<close>

definition xor_bits :: "bool list \<Rightarrow> bool list \<Rightarrow> bool list" where
  "xor_bits xs ys = map2 (\<noteq>) xs ys"

text \<open>A key longer than a block is hashed; then zeros fill up the block.\<close>

definition fips_key :: "bool list \<Rightarrow> bool list" where
  "fips_key key = (let k = (if 512 < length key then fips_sha256 key else key) in k @ replicate (512 - length k) False)"

definition fips_hmac :: "bool list \<Rightarrow> bool list \<Rightarrow> bool list" where
  "fips_hmac key m =
     (let ipad = concat (replicate 64 (be_bits (0x36 :: u8))); opad = concat (replicate 64 (be_bits (0x5c :: u8)))
      in fips_sha256 (xor_bits (fips_key key) opad @ fips_sha256 (xor_bits (fips_key key) ipad @ m)))"

lemma fips_key_bytes: "bits_of (padded_key key) = fips_key (bits_of key)"
  by (simp add: padded_key_def fips_key_def BLOCK_SIZE_def sha256_bits [symmetric] bits_of_replicate_0 Let_def
      diff_mult_distrib2)

lemma xor_bits_be_bits: "be_bits (c XOR b) = xor_bits (be_bits b) (be_bits (c :: u8))"
  by (auto simp: be_bits_def xor_bits_def bit_xor_iff intro!: nth_equalityI)

lemma xor_bits_pad: "bits_of (map (\<lambda>b. c XOR b) bs) = xor_bits (bits_of bs) (concat (replicate (length bs) (be_bits c)))"
  by (induction bs) (simp_all add: xor_bits_be_bits xor_bits_def)

lemma hmac_bits: "bits_of (hmac_sha256 key m) = fips_hmac (bits_of key) (bits_of m)"
  by (simp add: hmac_sha256_def fips_hmac_def sha256_bits xor_bits_pad fips_key_bytes Let_def)

section \<open>The constants\<close>

text \<open>
  The constants are the first 32 bits of the fractional parts of roots of the first primes: the cube roots of 64 for the
  rounds, the square roots of eight for the initial hash. With \<open>r\<close> the integral part of the root, \<open>n = r * 2 ^ 32 + w\<close> is the root of
  \<open>p * 2 ^ (32 * m)\<close> rounded down.
\<close>

definition root_fraction :: "nat \<Rightarrow> int \<Rightarrow> u32 \<Rightarrow> bool" where
  "root_fraction m p w \<longleftrightarrow>
     list_ex (\<lambda>r. let n = r * 2 ^ 32 + uint w in n ^ m \<le> p * 2 ^ (32 * m) \<and> p * 2 ^ (32 * m) < (n + 1) ^ m) [0..p]"

definition is_prime :: "int \<Rightarrow> bool" where
  "is_prime p \<longleftrightarrow> 1 < p \<and> (\<forall>d\<in>{2..<p}. \<not> d dvd p)"

definition primes_to_311 :: "int list" where
  "primes_to_311 = filter is_prime [1..311]"

text \<open>Up to 311 a number is prime when no prime below 18 divides it.\<close>

definition small_primes :: "int list" where "small_primes = [2, 3, 5, 7, 11, 13, 17]"
definition prime_test :: "int \<Rightarrow> bool" where
  "prime_test p \<longleftrightarrow> 1 < p \<and> list_all (\<lambda>d. p \<le> d \<or> p mod d \<noteq> 0) small_primes"

lemma small_divisor: "d \<in> {2..<18} \<Longrightarrow> \<exists>q\<in>set small_primes. q dvd (d :: int)"
proof -
  assume "d \<in> {2..<18}"
  then have "d \<in> set [2..17]" unfolding set_upto by auto
  moreover have "list_all (\<lambda>d. list_ex (\<lambda>q. q dvd d) small_primes) [2..17]" by code_simp
  ultimately show ?thesis by (auto simp: list_all_iff list_ex_iff)
qed

lemma is_prime_test:
  assumes "p \<le> 311"
  shows "is_prime p \<longleftrightarrow> prime_test p"
proof
  assume "is_prime p"
  moreover have "2 \<le> q" if "q \<in> set small_primes" for q
    using that by (auto simp: small_primes_def)
  ultimately show "prime_test p"
    unfolding is_prime_def prime_test_def list_all_iff dvd_eq_mod_eq_0 by (meson atLeastLessThan_iff linorder_not_less)
next
  assume t: "prime_test p"
  have "\<not> d dvd p" if d: "d \<in> {2..<p}" for d
  proof
    assume "d dvd p"
    then obtain e where e: "p = d * e" by (elim dvdE)
    have "2 \<le> e"
    proof (rule ccontr)
      assume "\<not> 2 \<le> e"
      then have "d * e \<le> d * 1" using d by (intro mult_left_mono) auto
      with e d show False by auto
    qed
    have "d < 18 \<or> e < 18"
    proof (rule ccontr)
      assume "\<not> ?thesis"
      then have "18 * 18 \<le> d * e" by (intro mult_mono) auto
      with e assms show False by simp
    qed
    then obtain q where "q \<in> set small_primes" "q dvd p" "q < p"
    proof
      assume "d < 18"
      then obtain q where "q \<in> set small_primes" "q dvd d" using small_divisor [of d] d by auto
      moreover have "q \<le> d" using calculation d by (intro zdvd_imp_le) auto
      ultimately show thesis using that [of q] d e by auto
    next
      assume "e < 18"
      then obtain q where "q \<in> set small_primes" "q dvd e" using small_divisor [of e] \<open>2 \<le> e\<close> by auto
      moreover have "q \<le> e" using calculation \<open>2 \<le> e\<close> by (intro zdvd_imp_le) auto
      moreover have "e < p" using d \<open>2 \<le> e\<close> by (simp add: e)
      ultimately show thesis using that [of q] e by simp
    qed
    with t show False
      by (auto simp: prime_test_def list_all_iff dvd_eq_mod_eq_0)
  qed
  with t show "is_prime p"
    by (simp add: is_prime_def prime_test_def)
qed

lemma primes_eval:
  "primes_to_311 = [2, 3, 5, 7, 11, 13, 17, 19, 23, 29, 31, 37, 41, 43, 47, 53, 59, 61, 67, 71, 73, 79, 83, 89, 97, 101,
     103, 107, 109, 113, 127, 131, 137, 139, 149, 151, 157, 163, 167, 173, 179, 181, 191, 193, 197, 199, 211, 223, 227, 229,
     233, 239, 241, 251, 257, 263, 269, 271, 277, 281, 283, 293, 307, 311]"
proof -
  have "primes_to_311 = filter prime_test [1..311]"
    unfolding primes_to_311_def by (intro filter_cong refl is_prime_test) (simp add: set_upto del: upto_rec_numeral)
  moreover have "filter prime_test [1..311] = [2, 3, 5, 7, 11, 13, 17, 19, 23, 29, 31, 37, 41, 43, 47, 53, 59, 61, 67, 71, 73, 79,
     83, 89, 97, 101, 103, 107, 109, 113, 127, 131, 137, 139, 149, 151, 157, 163, 167, 173, 179, 181, 191, 193, 197, 199, 211,
     223, 227, 229, 233, 239, 241, 251, 257, 263, 269, 271, 277, 281, 283, 293, 307, 311]"
    by code_simp
  ultimately show ?thesis by simp
qed

lemma round_constants: "list_all2 (root_fraction 3) primes_to_311 sha_K"
  unfolding primes_eval by code_simp

lemma hash_constants:
  "list_all2 (root_fraction 2) (take 8 primes_to_311)
     (case sha_init of (a, b, c, d, e, f, g, h) \<Rightarrow> [a, b, c, d, e, f, g, h])"
  unfolding primes_eval by code_simp

section \<open>The code computes the standards\<close>

text \<open>
  C32: \<open>sha256\<close> and \<open>hmac_sha256\<close> are the functions of FIPS 180-4 and FIPS 198-1, for messages and keys of every length (the length
  field taken modulo \<open>2 ^ 64\<close>): on the bits of the data they give the bits of the standards' results, and the tables of
  constants are the fractions of the cube and square roots of the first primes.
\<close>

theorem sha256_is_standard:
  "bits_of (sha256 data) = fips_sha256 (bits_of data)
    \<and> bits_of (hmac_sha256 key data) = fips_hmac (bits_of key) (bits_of data)
    \<and> list_all2 (root_fraction 3) primes_to_311 sha_K
    \<and> list_all2 (root_fraction 2) (take 8 primes_to_311)
        (case sha_init of (a, b, c, d, e, f, g, h) \<Rightarrow> [a, b, c, d, e, f, g, h])"
  by (simp only: sha256_bits hmac_bits round_constants hash_constants simp_thms)

end
