(* ===== verification/Workload.thy ===== *)
theory Workload
  imports Llmos_Prelude
begin

text \<open>
  \<^verbatim>\<open>crates/identity/src/workload.rs\<close>: workload identifiers \<open>namespace/name\<close>, their parser, their
  \<open>Display\<close>, and the identity record.
\<close>

record workload_id =
  wid_namespace :: string
  wid_name :: string

record workload_identity =
  wi_id :: workload_id
  wi_capabilities :: "string list"

datatype workload_id_error = InvalidFormat string | InvalidCharacters string

fun workload_id_error_display :: "workload_id_error \<Rightarrow> string" where
  "workload_id_error_display (InvalidFormat raw) =
     ''invalid workload id format (expected namespace/name): '' @ raw"
| "workload_id_error_display (InvalidCharacters raw) =
     ''workload id contains invalid characters: '' @ raw"

definition is_valid_segment :: "string \<Rightarrow> bool" where
  "is_valid_segment s \<longleftrightarrow>
     list_all (\<lambda>ch. is_ascii_lowercase ch \<or> is_ascii_digit ch \<or> ch = CHR ''-'' \<or> ch = CHR ''_'') s"

definition workload_parse :: "string \<Rightarrow> workload_id_error + workload_id" where
  "workload_parse raw =
     (case split_once CHR ''/'' raw of
        None \<Rightarrow> Inl (InvalidFormat raw)
      | Some (ns, nm) \<Rightarrow>
          if ns = [] \<or> nm = [] then Inl (InvalidFormat raw)
          else if \<not> is_valid_segment ns \<or> \<not> is_valid_segment nm then Inl (InvalidCharacters raw)
          else Inr \<lparr>wid_namespace = ns, wid_name = nm\<rparr>)"

definition workload_display :: "workload_id \<Rightarrow> string" where
  "workload_display w = wid_namespace w @ ''/'' @ wid_name w"

text \<open>What the parser promises of an identifier it returns.\<close>

definition workload_wf :: "workload_id \<Rightarrow> bool" where
  "workload_wf w \<longleftrightarrow> wid_namespace w \<noteq> [] \<and> wid_name w \<noteq> []
     \<and> is_valid_segment (wid_namespace w) \<and> is_valid_segment (wid_name w)"

lemma valid_segment_no_slash: "is_valid_segment s \<Longrightarrow> CHR ''/'' \<notin> set s"
  by (auto simp: is_valid_segment_def list_all_iff std_str)

lemma workload_parse_Inr_iff:
  "workload_parse raw = Inr w \<longleftrightarrow> workload_wf w \<and> workload_display w = raw"
proof
  assume "workload_parse raw = Inr w"
  then show "workload_wf w \<and> workload_display w = raw"
    by (auto simp: workload_parse_def workload_wf_def workload_display_def split_once_Some_iff
        split: option.splits if_splits)
next
  assume "workload_wf w \<and> workload_display w = raw"
  then have "split_once CHR ''/'' raw = Some (wid_namespace w, wid_name w)" and "workload_wf w"
    by (auto simp: split_once_Some_iff workload_display_def workload_wf_def
        dest: valid_segment_no_slash)
  then show "workload_parse raw = Inr w"
    by (simp add: workload_parse_def workload_wf_def)
qed

lemma workload_display_inject:
  "workload_wf v \<Longrightarrow> workload_wf w \<Longrightarrow> workload_display v = workload_display w \<Longrightarrow> v = w"
  by (metis workload_parse_Inr_iff sum.inject(2))

text \<open>
  C30: Parsing and displaying workload identifiers are inverse: the parser returns an identifier
  exactly when the input is the display of that identifier and both its segments are non-empty
  words over lower-case letters, digits, minus and underscore; every other input is an error that
  carries the input, of the format kind exactly when there is no slash or an empty side.
\<close>

theorem workload_parse_correct:
  "(workload_parse raw = Inr w \<longleftrightarrow> workload_wf w \<and> workload_display w = raw)
    \<and> (workload_parse raw = Inl (InvalidFormat raw) \<longleftrightarrow>
        count_list raw CHR ''/'' = 0 \<or> hd raw = CHR ''/'' \<or>
        (last raw = CHR ''/'' \<and> count_list raw CHR ''/'' = 1))"
proof -
  have "workload_parse raw = Inl (InvalidFormat raw) \<longleftrightarrow>
      (case split_once CHR ''/'' raw of None \<Rightarrow> True | Some (ns, nm) \<Rightarrow> ns = [] \<or> nm = [])"
    by (auto simp: workload_parse_def split: option.splits)
  also have "\<dots> \<longleftrightarrow> CHR ''/'' \<notin> set raw \<or> hd raw = CHR ''/'' \<or>
      (last raw = CHR ''/'' \<and> count_list raw CHR ''/'' = 1)"
  proof (cases "split_once CHR ''/'' raw")
    case None
    then show ?thesis
      by (simp flip: split_once_None_iff)
  next
    case (Some p)
    then obtain ns nm where p: "p = (ns, nm)" and raw: "raw = ns @ CHR ''/'' # nm"
      and "CHR ''/'' \<notin> set ns"
      by (cases p) (auto simp: split_once_Some_iff)
    then have "hd raw = CHR ''/'' \<longleftrightarrow> ns = []"
      by (cases ns) auto
    moreover have "last raw = CHR ''/'' \<and> count_list raw CHR ''/'' = 1 \<longleftrightarrow> nm = []"
      using raw \<open>CHR ''/'' \<notin> set ns\<close> by (auto simp: count_list_0_iff dest: last_in_set)
    ultimately show ?thesis
      using Some p raw by simp
  qed
  finally show ?thesis
    by (simp add: workload_parse_Inr_iff count_list_0_iff)
qed

end
