(* ===== verification/Base64.thy ===== *)
theory Base64
  imports Llmos_Prelude
begin

text \<open>
  The base64 codec of \<^verbatim>\<open>crates/identity/src/token.rs\<close>. The encoder works on 24-bit groups in a
  \<open>u32\<close>; the decoder on chunks of four bytes, with its own character table. Errors are the texts
  of the \<open>anyhow\<close> errors.
\<close>

section \<open>Encoder\<close>

definition ALPHABET :: string where
  "ALPHABET = ''ABCDEFGHIJKLMNOPQRSTUVWXYZabcdefghijklmnopqrstuvwxyz0123456789+/''"

definition encode_chunk :: "u8 list \<Rightarrow> string" where
  "encode_chunk chunk =
     (let b0 = ucast (chunk ! 0) :: u32;
          b1 = (if 1 < length chunk then ucast (chunk ! 1) else 0);
          b2 = (if 2 < length chunk then ucast (chunk ! 2) else 0);
          triple = push_bit 16 b0 OR push_bit 8 b1 OR b2
      in [ALPHABET ! unat (drop_bit 18 triple AND 0x3F),
          ALPHABET ! unat (drop_bit 12 triple AND 0x3F),
          if 1 < length chunk then ALPHABET ! unat (drop_bit 6 triple AND 0x3F) else CHR ''='',
          if 2 < length chunk then ALPHABET ! unat (triple AND 0x3F) else CHR ''=''])"

definition base64_encode :: "u8 list \<Rightarrow> string" where
  "base64_encode data = concat (map encode_chunk (chunks 3 data))"

section \<open>Decoder\<close>

text \<open>A byte shown as a \<open>char\<close> is the Latin-1 character, which UTF-8 writes in one or two bytes.\<close>

definition latin1_utf8 :: "u8 \<Rightarrow> string" where
  "latin1_utf8 b =
     (if b < 0x80 then [char_of_byte b]
      else [char_of_byte (0xC0 OR drop_bit 6 b), char_of_byte (0x80 OR (b AND 0x3F))])"

definition decode_char :: "u8 \<Rightarrow> string + u8" where
  "decode_char c =
     (if byte_of CHR ''A'' \<le> c \<and> c \<le> byte_of CHR ''Z'' then Inr (c - byte_of CHR ''A'')
      else if byte_of CHR ''a'' \<le> c \<and> c \<le> byte_of CHR ''z'' then Inr (c - byte_of CHR ''a'' + 26)
      else if byte_of CHR ''0'' \<le> c \<and> c \<le> byte_of CHR ''9'' then Inr (c - byte_of CHR ''0'' + 52)
      else if c = byte_of CHR ''+'' then Inr 62
      else if c = byte_of CHR ''/'' then Inr 63
      else Inl (''invalid base64 character: '' @ latin1_utf8 c))"

definition get_or_0 :: "u8 list \<Rightarrow> nat \<Rightarrow> u32" where
  "get_or_0 vals i = (if i < length vals then ucast (vals ! i) else 0)"

definition decode_chunk :: "u8 list \<Rightarrow> string + u8 list" where
  "decode_chunk chunk =
     (if length chunk < 4 then Inl ''invalid base64 length''
      else
        let pad = length (filter (\<lambda>b. b = byte_of CHR ''='') chunk)
        in case collect (map decode_char (filter (\<lambda>b. b \<noteq> byte_of CHR ''='') chunk)) of
             Inl e \<Rightarrow> Inl e
           | Inr vals \<Rightarrow>
               if length vals + pad \<noteq> 4 then Inl ''invalid base64 padding''
               else
                 let triple = push_bit 18 (get_or_0 vals 0) OR push_bit 12 (get_or_0 vals 1)
                                OR push_bit 6 (get_or_0 vals 2) OR get_or_0 vals 3
                 in Inr ([ucast (drop_bit 16 triple AND 0xFF)]
                         @ (if pad < 2 then [ucast (drop_bit 8 triple AND 0xFF)] else [])
                         @ (if pad < 1 then [ucast (triple AND 0xFF)] else [])))"

fun decode_chunks :: "u8 list list \<Rightarrow> u8 list \<Rightarrow> string + u8 list" where
  "decode_chunks [] out = Inr out"
| "decode_chunks (c # cs) out =
     (case decode_chunk c of Inl e \<Rightarrow> Inl e | Inr bs \<Rightarrow> decode_chunks cs (out @ bs))"

definition base64_decode :: "string \<Rightarrow> string + u8 list" where
  "base64_decode input = decode_chunks (chunks 4 (as_bytes input)) []"

section \<open>One group round trips\<close>

lemma alphabet_table:
  "map (\<lambda>i. decode_char (byte_of (ALPHABET ! i))) [0..<64] = map (\<lambda>i. Inr (of_nat i)) [0..<64]
    \<and> CHR ''='' \<notin> set ALPHABET \<and> CHR ''.'' \<notin> set ALPHABET \<and> length ALPHABET = 64"
  by code_simp

lemma decode_char_alphabet: "i < 64 \<Longrightarrow> decode_char (byte_of (ALPHABET ! i)) = Inr (of_nat i)"
  using alphabet_table by (metis (no_types, lifting) add_0 length_map length_upt minus_nat.diff_0 nth_map nth_upt)

lemma alphabet_nth: "i < 64 \<Longrightarrow> ALPHABET ! i \<noteq> CHR ''='' \<and> ALPHABET ! i \<noteq> CHR ''.''"
  using alphabet_table by (metis nth_mem)

lemma and_3F: "(x :: u32) AND 0x3F = take_bit 6 x"
  by (simp add: take_bit_eq_mask mask_eq_exp_minus_1)
lemma and_FF: "(x :: u32) AND 0xFF = take_bit 8 x"
  by (simp add: take_bit_eq_mask mask_eq_exp_minus_1)

definition group24 :: "u8 \<Rightarrow> u8 \<Rightarrow> u8 \<Rightarrow> u32" where
  "group24 b0 b1 b2 = push_bit 16 (ucast b0) OR push_bit 8 (ucast b1) OR ucast b2"

lemma bit_group24: "bit (group24 b0 b1 b2) n \<longleftrightarrow>
  (16 \<le> n \<and> n < 24 \<and> bit b0 (n - 16)) \<or> (8 \<le> n \<and> n < 16 \<and> bit b1 (n - 8)) \<or> (n < 8 \<and> bit b2 n)"
  using bit_imp_le_length [of b0 "n - 16"] bit_imp_le_length [of b1 "n - 8"] bit_imp_le_length [of b2 n]
  by (auto simp: group24_def bit_simps)

lemma ucast_sextet: "(ucast (of_nat (unat (x AND 0x3F :: u32)) :: u8) :: u32) = x AND 0x3F"
  unfolding and_3F of_nat_unat
  by (rule bit_word_eqI) (auto simp: bit_simps)

lemma split_bits: "push_bit (n + m) (drop_bit (n + m) t) OR push_bit n (take_bit m (drop_bit n t)) = push_bit n (drop_bit n (t :: u32))"
proof (rule bit_word_eqI)
  fix k
  assume "k < LENGTH(32)"
  then show "bit (push_bit (n + m) (drop_bit (n + m) t) OR push_bit n (take_bit m (drop_bit n t))) k
      = bit (push_bit n (drop_bit n t)) k"
    by (cases "n + m \<le> k") (auto simp: bit_simps)
qed

lemma sextets_rebuild:
  "t = group24 b0 b1 b2 \<Longrightarrow>
    push_bit 18 (drop_bit 18 t AND 0x3F) OR push_bit 12 (drop_bit 12 t AND 0x3F)
      OR push_bit 6 (drop_bit 6 t AND 0x3F) OR (t AND 0x3F) = (t :: u32)"
proof -
  assume t: "t = group24 b0 b1 b2"
  have "take_bit 6 (drop_bit 18 t) = drop_bit 18 t"
    unfolding t by (rule bit_word_eqI) (auto simp: bit_simps bit_group24)
  then show ?thesis
    unfolding and_3F
    using split_bits [of 12 6 t] split_bits [of 6 6 t] split_bits [of 0 6 t]
    by (simp add: or.assoc [symmetric])
qed
lemma group24_byte0: "ucast (drop_bit 16 (group24 b0 b1 b2) AND 0xFF) = b0"
  unfolding and_FF
  by (rule bit_word_eqI) (auto simp: bit_simps bit_group24)
lemma group24_byte1: "ucast (drop_bit 8 (group24 b0 b1 b2) AND 0xFF) = b1"
  unfolding and_FF
  by (rule bit_word_eqI) (auto simp: bit_simps bit_group24)
lemma group24_byte2: "ucast ((group24 b0 b1 b2) AND 0xFF) = b2"
  unfolding and_FF
  by (rule bit_word_eqI) (auto simp: bit_simps bit_group24)

lemma and_3F_less: "unat (x AND 0x3F :: u32) < 64"
  using take_bit_nat_less_exp [of 6 "unat x"] by (simp add: and_3F unsigned_take_bit_eq)

text \<open>A sextet of a group: the alphabet's character for it, and the value the decoder reads back.\<close>

definition six :: "u32 \<Rightarrow> char" where
  "six x = ALPHABET ! unat (x AND 0x3F)"

definition sextet :: "u32 \<Rightarrow> u8" where
  "sextet x = of_nat (unat (x AND 0x3F))"

lemma six_props [simp]:
  "decode_char (byte_of (six x)) = Inr (sextet x)" "six x \<noteq> CHR ''=''" "CHR ''.'' \<noteq> six x"
  using and_3F_less [of x] alphabet_nth [of "unat (x AND 0x3F)"]
  by (auto simp: six_def sextet_def decode_char_alphabet)

lemma sextets_group:
  fixes a b c :: u8
  defines "t \<equiv> group24 a b c"
  shows "push_bit 18 (ucast (sextet (drop_bit 18 t))) OR push_bit 12 (ucast (sextet (drop_bit 12 t)))
    OR push_bit 6 (ucast (sextet (drop_bit 6 t))) OR ucast (sextet t) = t"
  unfolding sextet_def ucast_sextet t_def by (rule sextets_rebuild [OF refl])

lemma sextet_zero: "ucast (sextet (group24 a b 0)) = (0 :: u32)"
    "ucast (sextet (drop_bit 6 (group24 a 0 0))) = (0 :: u32)"
  unfolding sextet_def ucast_sextet and_3F
  by (rule bit_word_eqI, auto simp: bit_simps bit_group24)+

lemmas group24_bytes = group24_byte0 group24_byte1 group24_byte2

lemma encode_chunk_eqs:
  "encode_chunk [a, b, c] =
     [six (drop_bit 18 (group24 a b c)), six (drop_bit 12 (group24 a b c)),
      six (drop_bit 6 (group24 a b c)), six (group24 a b c)]"
  "encode_chunk [a, b] =
     [six (drop_bit 18 (group24 a b 0)), six (drop_bit 12 (group24 a b 0)),
      six (drop_bit 6 (group24 a b 0)), CHR ''='']"
  "encode_chunk [a] =
     [six (drop_bit 18 (group24 a 0 0)), six (drop_bit 12 (group24 a 0 0)), CHR ''='', CHR ''='']"
  by (simp_all add: encode_chunk_def group24_def six_def Let_def)

lemma decode_encode_3: "decode_chunk (as_bytes (encode_chunk [a, b, c])) = Inr [a, b, c]"
  by (simp add: encode_chunk_eqs decode_chunk_def as_bytes_def Let_def get_or_0_def sextets_group
      group24_bytes)

lemma decode_encode_2: "decode_chunk (as_bytes (encode_chunk [a, b])) = Inr [a, b]"
  using sextets_group [of a b 0]
  by (simp add: encode_chunk_eqs decode_chunk_def as_bytes_def Let_def get_or_0_def sextet_zero
      group24_bytes)

lemma decode_encode_1: "decode_chunk (as_bytes (encode_chunk [a])) = Inr [a]"
  using sextets_group [of a 0 0]
  by (simp add: encode_chunk_eqs decode_chunk_def as_bytes_def Let_def get_or_0_def sextet_zero
      group24_bytes)

section \<open>The whole codec\<close>

lemma length_encode_chunk [simp]: "length (encode_chunk c) = 4"
  by (simp add: encode_chunk_def Let_def)

lemma base64_encode_step:
  "base64_encode [] = []"
  "base64_encode [a] = encode_chunk [a]"
  "base64_encode [a, b] = encode_chunk [a, b]"
  "base64_encode (a # b # c # rest) = encode_chunk [a, b, c] @ base64_encode rest"
  using chunks_append [of "[a, b, c]" 3 rest]
  by (simp_all add: base64_encode_def chunks_short)

lemma chunks_as_bytes_append:
  "length x = 4 \<Longrightarrow> chunks 4 (as_bytes (x @ y)) = as_bytes x # chunks 4 (as_bytes y)"
  by (simp add: chunks_append)

lemma three_cases:
  obtains "d = []" | a where "d = [a]" | a b where "d = [a, b]"
    | a b c rest where "d = a # b # c # rest"
  by (metis list.exhaust)

lemma decode_chunks_encode:
  "decode_chunks (chunks 4 (as_bytes (base64_encode d))) acc = Inr (acc @ d)"
proof (induction d arbitrary: acc rule: length_induct)
  case (1 d)
  have single: "chunks 4 (as_bytes (encode_chunk c)) = [as_bytes (encode_chunk c)]" for c
    using chunks_as_bytes_append [of "encode_chunk c" "[]"] by (simp add: as_bytes_def)
  show ?case
  proof (cases d rule: three_cases)
    case 1
    then show ?thesis by (simp add: base64_encode_step as_bytes_def)
  next
    case (2 a)
    then show ?thesis by (simp add: base64_encode_step single decode_encode_1)
  next
    case (3 a b)
    then show ?thesis by (simp add: base64_encode_step single decode_encode_2)
  next
    case (4 a b c rest)
    then have "decode_chunks (chunks 4 (as_bytes (base64_encode rest))) (acc @ [a, b, c])
        = Inr ((acc @ [a, b, c]) @ rest)"
      using "1.IH" by simp
    then show ?thesis
      using chunks_as_bytes_append [of "encode_chunk [a, b, c]" "base64_encode rest"]
      by (simp add: 4 base64_encode_step decode_encode_3)
  qed
qed

lemma base64_roundtrip: "base64_decode (base64_encode d) = Inr d"
  by (simp add: base64_decode_def decode_chunks_encode)

lemma encode_chunk_no_dot: "CHR ''.'' \<notin> set (encode_chunk c)"
  by (simp add: encode_chunk_def Let_def flip: six_def)

lemma base64_encode_no_dot: "CHR ''.'' \<notin> set (base64_encode d)"
  by (auto simp: base64_encode_def encode_chunk_no_dot)

lemma length_base64_encode: "length (base64_encode d) = 4 * ((length d + 2) div 3)"
proof (induction d rule: length_induct)
  case (1 d)
  show ?case
  proof (cases d rule: three_cases)
    case (4 a b c rest)
    then have "length (base64_encode rest) = 4 * ((length rest + 2) div 3)"
      using "1.IH" by simp
    moreover have "(length rest + 5) div 3 = Suc ((length rest + 2) div 3)"
      by presburger
    ultimately show ?thesis
      by (simp add: 4 base64_encode_step add.commute)
  qed (simp_all add: base64_encode_step)
qed

text \<open>
  C31: Decoding the base64 form of any byte string returns that byte string, and the form has four
  characters for every three bytes begun and never a dot (the separator of a signed token).
\<close>

theorem base64_correct:
  "base64_decode (base64_encode d) = Inr d
    \<and> length (base64_encode d) = 4 * ((length d + 2) div 3) \<and> CHR ''.'' \<notin> set (base64_encode d)"
  by (simp add: base64_roundtrip length_base64_encode base64_encode_no_dot)

lemma length_filter_split:
  "length (filter (\<lambda>b. b \<noteq> x) xs) + length (filter (\<lambda>b. b = x) xs) = length xs"
  using sum_length_filter_compl [of "\<lambda>b. b \<noteq> x" xs] by simp

lemma decode_char_error: "decode_char c = Inl e \<Longrightarrow> take 24 e = ''invalid base64 character''"
  by (auto simp: decode_char_def split: if_splits)

lemma collect_Inl: "collect rs = Inl e \<Longrightarrow> Inl e \<in> set rs"
  by (induction rs rule: collect.induct) (auto split: sum.splits)

lemma decode_chunk_no_padding_error:
  assumes "length c \<le> 4"
  shows "decode_chunk c \<noteq> Inl ''invalid base64 padding''"
proof
  let ?cs = "filter (\<lambda>b. b \<noteq> byte_of CHR ''='') c"
  assume err: "decode_chunk c = Inl ''invalid base64 padding''"
  then have "length c = 4"
    using assms by (auto simp: decode_chunk_def split: if_splits)
  show False
  proof (cases "collect (map decode_char ?cs)")
    case (Inl e)
    with err \<open>length c = 4\<close> have "e = ''invalid base64 padding''"
      by (simp add: decode_chunk_def Let_def)
    moreover obtain b where "decode_char b = Inl e"
      using collect_Inl [OF Inl] by (metis ex_map_conv)
    then have "take 24 e = ''invalid base64 character''"
      by (rule decode_char_error)
    ultimately show False by simp
  next
    case (Inr vals)
    then have "length vals = length ?cs"
      by (auto dest: length_collect)
    then have "length vals + length (filter (\<lambda>b. b = byte_of CHR ''='') c) = 4"
      using length_filter_split [of "byte_of CHR ''=''" c] \<open>length c = 4\<close> by simp
    with err Inr \<open>length c = 4\<close> show False
      by (simp add: decode_chunk_def Let_def)
  qed
qed

lemma chunks_length: "c \<in> set (chunks n xs) \<Longrightarrow> length c \<le> n"
  by (induction n xs rule: chunks.induct) (subst (asm) (2) chunks.simps, auto split: if_splits)

lemma decode_chunks_error:
  "decode_chunks cs out = Inl e \<Longrightarrow> \<exists>c\<in>set cs. decode_chunk c = Inl e"
  by (induction cs out rule: decode_chunks.induct) (auto split: sum.splits)

text \<open>
  The decoder never reports its padding error: in a chunk of four bytes the values and the pads
  always add up to four, so the check it makes is dead, and padding is accepted anywhere and in any
  number. Strings that no encoder produces decode to bytes: two spellings of one byte, and
  four pad characters decode to a zero byte.
\<close>

theorem base64_padding_unchecked:
  "base64_decode input \<noteq> Inl ''invalid base64 padding''
    \<and> base64_decode ''QQ=='' = Inr [65] \<and> base64_decode ''Q=Q='' = Inr [65]
    \<and> base64_decode ''===='' = Inr [0]"
proof -
  have "base64_decode input \<noteq> Inl ''invalid base64 padding''"
    using decode_chunks_error chunks_length decode_chunk_no_padding_error
    unfolding base64_decode_def by blast
  moreover have "base64_decode ''QQ=='' = Inr [65]" "base64_decode ''Q=Q='' = Inr [65]"
    "base64_decode ''===='' = Inr [0]"
    by code_simp+
  ultimately show ?thesis
    by blast
qed

end
