(* ===== verification/Token.thy ===== *)
theory Token
  imports Workload Base64 Hmac
begin

text \<open>
  \<^verbatim>\<open>crates/identity/src/token.rs\<close> and \<^verbatim>\<open>verifier.rs\<close>: identity tokens, plain and signed, and their
  verification against the clock. JSON (\<open>serde_json\<close>) is a parameter: \<open>to_vec\<close> serialises claims
  and \<open>from_slice\<close> parses them, an error being its text. The wall clock is a parameter too: the
  system time in nanoseconds relative to the Unix epoch, read once per verification.
\<close>

section \<open>Tokens\<close>

record token_claims =
  tc_subject :: workload_id
  tc_capabilities :: "string list"
  tc_issued_at_unix_ms :: nat
  tc_expires_at_unix_ms :: nat

record identity_token =
  it_raw :: string
  it_claims :: token_claims

type_synonym to_vec = "token_claims \<Rightarrow> string + u8 list"
type_synonym from_slice = "u8 list \<Rightarrow> string + token_claims"

definition token_issue :: "to_vec \<Rightarrow> token_claims \<Rightarrow> string + identity_token" where
  "token_issue to_vec claims =
     and_then (to_vec claims) (\<lambda>json. Inr \<lparr>it_raw = base64_encode json, it_claims = claims\<rparr>)"

definition token_decode :: "from_slice \<Rightarrow> string \<Rightarrow> string + identity_token" where
  "token_decode from_slice raw =
     and_then (base64_decode raw) (\<lambda>bytes.
     and_then (from_slice bytes) (\<lambda>claims.
     Inr \<lparr>it_raw = raw, it_claims = claims\<rparr>))"

definition token_signature :: "u8 list \<Rightarrow> string \<Rightarrow> string" where
  "token_signature key encoded = hex_encode (hmac_sha256 key (as_bytes encoded))"

definition token_issue_signed :: "to_vec \<Rightarrow> token_claims \<Rightarrow> u8 list \<Rightarrow> string + identity_token" where
  "token_issue_signed to_vec claims key =
     and_then (to_vec claims) (\<lambda>json.
       let encoded = base64_encode json;
           signature = token_signature key encoded
       in Inr \<lparr>it_raw = encoded @ ''.'' @ signature, it_claims = claims\<rparr>)"

definition token_decode_signed :: "from_slice \<Rightarrow> string \<Rightarrow> u8 list \<Rightarrow> string + identity_token" where
  "token_decode_signed from_slice raw key =
     and_then (ok_or ''token missing signature separator'' (rsplit_once CHR ''.'' raw)) (\<lambda>(encoded, signature).
       if \<not> constant_time_eq (as_bytes signature) (as_bytes (token_signature key encoded))
       then Inl ''token signature verification failed''
       else
         and_then (base64_decode encoded) (\<lambda>bytes.
         and_then (from_slice bytes) (\<lambda>claims.
         Inr \<lparr>it_raw = raw, it_claims = claims\<rparr>)))"

section \<open>Verification\<close>

datatype verification_error =
    Expired
  | NotYetValid
  | DecodeFailed string
  | SubjectMismatch (sm_expected: string) (sm_actual: string)

fun verification_error_display :: "verification_error \<Rightarrow> string" where
  "verification_error_display Expired = ''token has expired''"
| "verification_error_display NotYetValid = ''token is not yet valid''"
| "verification_error_display (DecodeFailed e) = ''token decode failed: '' @ e"
| "verification_error_display (SubjectMismatch expected actual) =
     ''subject mismatch: expected '' @ expected @ '', got '' @ actual"

text \<open>\<open>duration_since(UNIX_EPOCH)\<close> fails before the epoch, where the default 0 is used.\<close>

definition now_unix_millis :: "int \<Rightarrow> nat" where
  "now_unix_millis system_time = (if system_time < 0 then 0 else nat system_time div 10 ^ 6)"

definition verify :: "from_slice \<Rightarrow> string \<Rightarrow> int \<Rightarrow> verification_error + identity_token" where
  "verify from_slice raw clock =
     and_then (map_err DecodeFailed (token_decode from_slice raw)) (\<lambda>token.
       let now = now_unix_millis clock; claims = it_claims token
       in if now < tc_issued_at_unix_ms claims then Inl NotYetValid
          else if tc_expires_at_unix_ms claims \<le> now then Inl Expired
          else Inr token)"

definition verify_for ::
    "from_slice \<Rightarrow> string \<Rightarrow> workload_id \<Rightarrow> int \<Rightarrow> verification_error + identity_token" where
  "verify_for from_slice raw expected clock =
     and_then (verify from_slice raw clock) (\<lambda>token.
       let actual = tc_subject (it_claims token)
       in if actual \<noteq> expected
          then Inl (SubjectMismatch (workload_display expected) (workload_display actual))
          else Inr token)"

definition verify_signed ::
    "from_slice \<Rightarrow> string \<Rightarrow> u8 list \<Rightarrow> int \<Rightarrow> verification_error + identity_token" where
  "verify_signed from_slice raw key clock =
     and_then (map_err DecodeFailed (token_decode_signed from_slice raw key)) (\<lambda>token.
       let now = now_unix_millis clock; claims = it_claims token
       in if now < tc_issued_at_unix_ms claims then Inl NotYetValid
          else if tc_expires_at_unix_ms claims \<le> now then Inl Expired
          else Inr token)"

text \<open>The validity window both verifiers check: closed at the issue time, open at the expiry.\<close>

definition in_window :: "token_claims \<Rightarrow> int \<Rightarrow> bool" where
  "in_window claims clock \<longleftrightarrow>
     tc_issued_at_unix_ms claims \<le> now_unix_millis clock
     \<and> now_unix_millis clock < tc_expires_at_unix_ms claims"

section \<open>Characterisations\<close>

lemma token_signature_no_dot: "CHR ''.'' \<notin> set (token_signature key e)"
  using hex_encode_ascii by (auto simp: token_signature_def)

lemma token_decode_signed_Inr_iff:
  "token_decode_signed from_slice raw key = Inr tok \<longleftrightarrow>
    (\<exists>encoded json. raw = encoded @ ''.'' @ token_signature key encoded
      \<and> base64_decode encoded = Inr json \<and> from_slice json = Inr (it_claims tok) \<and> it_raw tok = raw)"
  (is "?L \<longleftrightarrow> ?R")
proof
  assume ?L
  then show ?R
    by (fastforce simp: token_decode_signed_def result_simps rsplit_once_Some_iff constant_time_eq_iff
        split: if_splits)
next
  assume ?R
  then obtain encoded json where *: "raw = encoded @ ''.'' @ token_signature key encoded"
    "base64_decode encoded = Inr json" "from_slice json = Inr (it_claims tok)" "it_raw tok = raw"
    by blast
  then have "rsplit_once CHR ''.'' raw = Some (encoded, token_signature key encoded)"
    by (simp add: rsplit_once_Some_iff token_signature_no_dot)
  with * show ?L
    by (simp add: token_decode_signed_def constant_time_eq_iff)
qed

lemma verify_signed_Inr_iff:
  "verify_signed from_slice raw key clock = Inr tok \<longleftrightarrow>
    token_decode_signed from_slice raw key = Inr tok \<and> in_window (it_claims tok) clock"
  by (cases "token_decode_signed from_slice raw key")
    (auto simp: verify_signed_def in_window_def Let_def split: if_splits)

lemma token_decode_Inr_iff:
  "token_decode from_slice raw = Inr tok \<longleftrightarrow>
    (\<exists>json. base64_decode raw = Inr json \<and> from_slice json = Inr (it_claims tok) \<and> it_raw tok = raw)"
  by (cases tok) (auto simp: token_decode_def result_simps)

lemma verify_Inr_iff:
  "verify from_slice raw clock = Inr tok \<longleftrightarrow>
    token_decode from_slice raw = Inr tok \<and> in_window (it_claims tok) clock"
  by (cases "token_decode from_slice raw")
    (auto simp: verify_def in_window_def Let_def split: if_splits)

text \<open>
  C12: The signed verifier accepts exactly the authentic tokens: it returns a token for a raw string
  if and only if the string is an encoded part, a dot and the hexadecimal HMAC of that encoded part
  under the key, the encoded part decodes and parses to the token's claims, and the clock lies in
  the claims' validity window. Nothing is accepted without the key's MAC over all of the payload.
\<close>

theorem verify_signed_iff_authentic:
  "verify_signed from_slice raw key clock = Inr tok \<longleftrightarrow>
    (\<exists>encoded json. raw = encoded @ ''.'' @ hex_encode (hmac_sha256 key (as_bytes encoded))
      \<and> base64_decode encoded = Inr json \<and> from_slice json = Inr (it_claims tok) \<and> it_raw tok = raw
      \<and> tc_issued_at_unix_ms (it_claims tok) \<le> now_unix_millis clock
      \<and> now_unix_millis clock < tc_expires_at_unix_ms (it_claims tok))"
  unfolding verify_signed_Inr_iff token_decode_signed_Inr_iff in_window_def token_signature_def
  by blast

text \<open>
  C21: Issuing then verifying is the identity, for signed and for plain tokens: when JSON parsing
  inverts serialisation on the claims (documented behaviour of serde) and the clock is in the validity
  window, the verifier returns exactly the issued token, and the subject check accepts it for its own
  subject and rejects every other one with both names in the error.
\<close>

theorem issue_verify_roundtrip:
  assumes serde: "to_vec claims = Inr json" "from_slice json = Inr claims"
    and window: "tc_issued_at_unix_ms claims \<le> now_unix_millis clock"
      "now_unix_millis clock < tc_expires_at_unix_ms claims"
    and signed: "token_issue_signed to_vec claims key = Inr stok"
    and plain: "token_issue to_vec claims = Inr tok"
  shows "verify_signed from_slice (it_raw stok) key clock = Inr stok
    \<and> verify_for from_slice (it_raw tok) (tc_subject claims) clock = Inr tok
    \<and> (other = tc_subject claims \<or> verify_for from_slice (it_raw tok) other clock =
         Inl (SubjectMismatch (workload_display other) (workload_display (tc_subject claims))))"
proof -
  have "in_window claims clock"
    using window by (simp add: in_window_def)
  moreover have "it_claims stok = claims"
    "it_raw stok = base64_encode json @ ''.'' @ token_signature key (base64_encode json)"
    using signed serde(1) by (auto simp: token_issue_signed_def Let_def)
  moreover have tok: "it_claims tok = claims" "it_raw tok = base64_encode json"
    using plain serde(1) by (auto simp: token_issue_def)
  ultimately have "verify_signed from_slice (it_raw stok) key clock = Inr stok"
    and "verify from_slice (it_raw tok) clock = Inr tok"
    using serde(2) base64_roundtrip
    by (auto simp: verify_signed_Inr_iff token_decode_signed_Inr_iff verify_Inr_iff token_decode_Inr_iff)
  then show ?thesis
    using tok by (simp add: verify_for_def Let_def)
qed

definition sample_claims :: token_claims where
  "sample_claims = \<lparr>tc_subject = \<lparr>wid_namespace = ''runtime'', wid_name = ''model-runtime''\<rparr>,
     tc_capabilities = [''network:egress''], tc_issued_at_unix_ms = 1000, tc_expires_at_unix_ms = 2000\<rparr>"

theorem issue_verify_roundtrip_witness:
  "verify_signed (\<lambda>_. Inr sample_claims)
     (base64_encode [123, 125] @ ''.'' @ token_signature [1, 2] (base64_encode [123, 125])) [1, 2] 1500000000
   = Inr \<lparr>it_raw = base64_encode [123, 125] @ ''.'' @ token_signature [1, 2] (base64_encode [123, 125]),
          it_claims = sample_claims\<rparr>"
  using issue_verify_roundtrip [of "\<lambda>_. Inr [123, 125]" sample_claims "[123, 125]"
      "\<lambda>_. Inr sample_claims" 1500000000 "[1, 2]"
      "\<lparr>it_raw = base64_encode [123, 125] @ ''.'' @ token_signature [1, 2] (base64_encode [123, 125]),
         it_claims = sample_claims\<rparr>"
      "\<lparr>it_raw = base64_encode [123, 125], it_claims = sample_claims\<rparr>"]
  by (simp add: token_issue_signed_def token_issue_def sample_claims_def now_unix_millis_def Let_def)

text \<open>
  The signature is checked first: for a string whose last dot is followed by anything but the
  MAC of what precedes it, and for a string without a dot, the answer is a fixed error that does not
  depend on the payload decoder or the JSON parser, so unauthenticated payloads are never parsed.
\<close>

theorem bad_signature_never_parsed:
  assumes "CHR ''.'' \<notin> set signature" and "signature \<noteq> hex_encode (hmac_sha256 key (as_bytes encoded))"
    and "CHR ''.'' \<notin> set undotted"
  shows "verify_signed from_slice (encoded @ ''.'' @ signature) key clock
      = Inl (DecodeFailed ''token signature verification failed'')
    \<and> verify_signed from_slice undotted key clock
      = Inl (DecodeFailed ''token missing signature separator'')"
proof -
  have "rsplit_once CHR ''.'' (encoded @ ''.'' @ signature) = Some (encoded, signature)"
    and "rsplit_once CHR ''.'' undotted = None"
    using assms by (simp_all add: rsplit_once_Some_iff rsplit_once_None_iff)
  with assms(2) show ?thesis
    by (simp add: verify_signed_def token_decode_signed_def constant_time_eq_iff token_signature_def)
qed

theorem bad_signature_never_parsed_witness:
  "verify_signed (\<lambda>_. Inr sample_claims) (''e30='' @ ''.'' @ ''00'') [1, 2] 0
    = Inl (DecodeFailed ''token signature verification failed'')"
proof -
  have "length ''00'' \<noteq> length (hex_encode (hmac_sha256 [1, 2] (as_bytes ''e30='')))"
    by simp
  then have "''00'' \<noteq> hex_encode (hmac_sha256 [1, 2] (as_bytes ''e30=''))"
    by metis
  then show ?thesis
    using bad_signature_never_parsed [of "''00''" "[1, 2]" "''e30=''" "''x''"] by simp
qed

end
