(* ===== verification/Common_Types.thy ===== *)
theory Common_Types
  imports Llmos_Prelude
begin

text \<open>
  \<^verbatim>\<open>crates/common-types/src/lib.rs\<close>: the requests, results, decisions, audit events and errors
  that the services exchange. Constructors that several enums share carry their enum's name.
\<close>

record module_descriptor =
  md_id :: string
  md_version :: string
  md_status :: string

record action_request =
  ar_version :: string
  ar_request_id :: string
  ar_correlation_id :: string
  ar_subject :: string
  ar_action :: string
  ar_resource :: string

datatype action_status = Executed | Denied | Failed

record action_result =
  res_version :: string
  res_status :: action_status
  res_message :: string

datatype policy_effect = PolicyAllow | PolicyDeny

record policy_decision_record =
  pd_version :: string
  pd_effect :: policy_effect
  pd_reason :: string
  pd_rule_id :: "string option"

record audit_event =
  ae_version :: string
  ae_request_id :: string
  ae_correlation_id :: string
  ae_timestamp_unix_ms :: nat
  ae_subject :: string
  ae_action :: string
  ae_resource :: string
  ae_decision :: policy_decision_record
  ae_outcome :: action_status

datatype llmos_error = ModuleNotFound string | ActionDenied string | PolicyUnavailable string

fun llmos_error_display :: "llmos_error \<Rightarrow> string" where
  "llmos_error_display (ModuleNotFound m) = ''module not found: '' @ m"
| "llmos_error_display (ActionDenied m) = ''action denied: '' @ m"
| "llmos_error_display (PolicyUnavailable m) = ''policy unavailable: '' @ m"

end
