(* ===== verification/Histogram.thy ===== *)
theory Histogram
  imports Llmos_Prelude
begin

text \<open>
  The latency histogram that \<^verbatim>\<open>services/policy-engine/src/metrics.rs\<close> and \<^verbatim>\<open>services/llmd/src/lib.rs\<close>
  each keep in an array of 64-bit atomics: the loop that bumps one bucket, the saturating cumulative
  sums of the rendering, and, for any store with that contract, the meaning of the rendered numbers.
\<close>

section \<open>The loops\<close>

text \<open>\<open>for (idx, boundary) in BUCKETS.iter().enumerate()\<close>: the first bucket that holds the value.\<close>

fun bump_bucket :: "nat \<Rightarrow> u64 list \<Rightarrow> u64 \<Rightarrow> u64 list \<Rightarrow> u64 list" where
  "bump_bucket idx [] v counts = counts"
| "bump_bucket idx (boundary # boundaries) v counts =
     (if v \<le> boundary then counts[idx := counts ! idx + 1]
      else bump_bucket (idx + 1) boundaries v counts)"

definition saturating_add :: "u64 \<Rightarrow> u64 \<Rightarrow> u64" where
  "saturating_add a b = (if 2 ^ 64 \<le> unat a + unat b then - 1 else a + b)"

fun cumulative :: "u64 \<Rightarrow> u64 list \<Rightarrow> u64 list" where
  "cumulative acc [] = []"
| "cumulative acc (c # cs) = saturating_add acc c # cumulative (saturating_add acc c) cs"

definition show_u64 :: "u64 \<Rightarrow> string" where
  "show_u64 w = show_nat (unat w)"

text \<open>\<open>Duration\<close> is a number of nanoseconds; \<open>as_micros().min(u64::MAX as u128) as u64\<close>.\<close>

definition clamp_u64 :: "nat \<Rightarrow> u64" where
  "clamp_u64 n = of_nat (min n (2 ^ 64 - 1))"

section \<open>Text and routing\<close>

definition nl :: string where
  "nl = [CHR 0x0A]"

definition bucket_lines :: "string \<Rightarrow> u64 list \<Rightarrow> u64 list \<Rightarrow> string" where
  "bucket_lines name boundaries counts =
     concat (map2 (\<lambda>boundary c. name @ ''_bucket{le='' @ [CHR 0x22] @ show_u64 boundary @ [CHR 0x22] @ ''} '' @ show_u64 c @ nl)
       boundaries (cumulative 0 counts))"

text \<open>The routing of the two metrics servers: status code and body of one request.\<close>

definition metrics_route :: "string \<Rightarrow> string \<Rightarrow> string \<Rightarrow> nat \<times> string" where
  "metrics_route rendered method path =
     (if method = ''GET'' \<and> path = ''/metrics'' then (200, rendered) else (404, ''not found''))"

section \<open>What the loops compute\<close>

lemma length_bump_bucket [simp]: "length (bump_bucket i bs v cs) = length cs"
  by (induction i bs v cs rule: bump_bucket.induct) auto

lemma length_cumulative [simp]: "length (cumulative acc cs) = length cs"
  by (induction acc cs rule: cumulative.induct) auto

lemma bump_bucket_nth:
  assumes "idx + length bs \<le> length cs" and "j < length cs"
  shows "bump_bucket idx bs v cs ! j =
    (if idx \<le> j \<and> j < idx + length bs \<and> v \<le> bs ! (j - idx) \<and> (\<forall>k<j - idx. bs ! k < v)
     then cs ! j + 1 else cs ! j)"
  using assms
proof (induction idx bs v cs arbitrary: j rule: bump_bucket.induct)
  case (1 idx v cs)
  then show ?case by simp
next
  case (2 idx b bs v cs)
  show ?case
  proof (cases "v \<le> b")
    case True
    show ?thesis
    proof (cases "j = idx")
      case True2: True
      with True "2.prems" show ?thesis by simp
    next
      case False
      have "\<not> (idx \<le> j \<and> (\<forall>k<j - idx. (b # bs) ! k < v))"
      proof
        assume *: "idx \<le> j \<and> (\<forall>k<j - idx. (b # bs) ! k < v)"
        with False have "0 < j - idx" by simp
        with * have "b < v" by fastforce
        with True show False by simp
      qed
      with True False "2.prems" show ?thesis by auto
    qed
  next
    case False
    then have IH: "bump_bucket (idx + 1) bs v cs ! j =
      (if idx + 1 \<le> j \<and> j < idx + 1 + length bs \<and> v \<le> bs ! (j - (idx + 1))
          \<and> (\<forall>k<j - (idx + 1). bs ! k < v) then cs ! j + 1 else cs ! j)"
      using "2.IH" "2.prems" by simp
    consider "j < idx" | "j = idx" | m where "j = idx + 1 + m"
      by (metis Suc_eq_plus1 add.assoc add.commute less_imp_Suc_add linorder_neqE_nat plus_1_eq_Suc)
    then show ?thesis
    proof cases
      case 3
      have all: "(\<forall>k<Suc m. (b # bs) ! k < v) \<longleftrightarrow> (\<forall>k<m. bs ! k < v)"
        using False by (auto simp: less_Suc_eq_0_disj not_le)
      show ?thesis
        using False IH 3 all by simp
    qed (use False IH in auto)
  qed
qed

text \<open>The number of observations that fall in bucket \<open>i\<close>, and those at or below its boundary.\<close>

definition in_bucket :: "u64 list \<Rightarrow> nat \<Rightarrow> u64 \<Rightarrow> bool" where
  "in_bucket bs i v \<longleftrightarrow> v \<le> bs ! i \<and> (\<forall>k<i. bs ! k < v)"

definition count_of :: "('a \<Rightarrow> bool) \<Rightarrow> 'a list \<Rightarrow> nat" where
  "count_of P xs = length (filter P xs)"

lemma count_of_simps [simp]:
  "count_of P [] = 0" "count_of P (x # xs) = (if P x then 1 else 0) + count_of P xs"
  "count_of P (xs @ ys) = count_of P xs + count_of P ys"
  by (simp_all add: count_of_def)

lemma count_of_le: "count_of P xs \<le> length xs"
  by (simp add: count_of_def)

lemma count_of_add:
  "(\<And>x. P x \<Longrightarrow> \<not> Q x) \<Longrightarrow> count_of P xs + count_of Q xs = count_of (\<lambda>x. P x \<or> Q x) xs"
  by (induction xs) auto

lemma bump_bucket_counts:
  assumes "length cs = length bs"
    and "\<And>i. i < length bs \<Longrightarrow> cs ! i = of_nat (count_of (in_bucket bs i) vs)"
    and "i < length bs"
  shows "bump_bucket 0 bs v cs ! i = of_nat (count_of (in_bucket bs i) (vs @ [v]))"
  using assms by (simp add: bump_bucket_nth in_bucket_def)

lemma unat_of_nat_u64: "n < 2 ^ 64 \<Longrightarrow> unat (of_nat n :: u64) = n"
  by (simp add: unat_of_nat take_bit_nat_eq_self)

lemma saturating_add_of_nat:
  assumes "m + n < 2 ^ 64"
  shows "saturating_add (of_nat m) (of_nat n) = of_nat (m + n)"
proof -
  from assms have "unat (of_nat m :: u64) = m" and "unat (of_nat n :: u64) = n"
    by (simp_all add: unat_of_nat_u64)
  with assms show ?thesis
    by (simp add: saturating_add_def)
qed

lemma cumulative_nth_of_nat:
  assumes "a + sum_list ns < 2 ^ 64" and "i < length ns"
  shows "cumulative (of_nat a) (map of_nat ns) ! i = of_nat (a + sum_list (take (Suc i) ns))"
  using assms
proof (induction ns arbitrary: a i)
  case (Cons n ns)
  from Cons.prems have s: "saturating_add (of_nat a) (of_nat n) = of_nat (a + n)"
    by (intro saturating_add_of_nat) simp
  show ?case
  proof (cases i)
    case 0
    with s show ?thesis by simp
  next
    case (Suc j)
    have "cumulative (of_nat (a + n)) (map of_nat ns) ! j = of_nat (a + n + sum_list (take (Suc j) ns))"
      using Cons.prems Suc by (intro Cons.IH) auto
    with s Suc show ?thesis by (simp add: add.assoc)
  qed
qed simp

lemma count_le_boundary:
  assumes "sorted_wrt (<) bs" and "i < length bs"
  shows "sum_list (map (\<lambda>j. count_of (in_bucket bs j) vs) [0..<Suc i]) = count_of (\<lambda>v. v \<le> bs ! i) vs"
  using assms(2)
proof (induction i)
  case 0
  then show ?case by (simp add: in_bucket_def)
next
  case (Suc i)
  have mono: "bs ! j \<le> bs ! i" if "j \<le> i" for j
    using that Suc.prems assms(1) by (metis Suc_lessD le_neq_implies_less less_imp_le order_refl sorted_wrt_nth_less)
  have lt: "bs ! i < bs ! Suc i"
    using Suc.prems assms(1) by (simp add: sorted_wrt_nth_less)
  have "in_bucket bs (Suc i) v \<longleftrightarrow> bs ! i < v \<and> v \<le> bs ! Suc i" for v
    unfolding in_bucket_def using mono by (meson le_less_trans less_Suc_eq_le order_refl)
  then have "(v \<le> bs ! i \<or> in_bucket bs (Suc i) v) \<longleftrightarrow> v \<le> bs ! Suc i" for v
    using lt by (meson less_imp_le not_le order.trans)
  moreover have "count_of (\<lambda>v. v \<le> bs ! i) vs + count_of (in_bucket bs (Suc i)) vs
      = count_of (\<lambda>v. v \<le> bs ! i \<or> in_bucket bs (Suc i) v) vs"
    by (rule count_of_add) (auto simp: in_bucket_def not_le)
  ultimately show ?case
    using Suc by simp
qed

lemma take_upt_map: "i < n \<Longrightarrow> take (Suc i) (map f [0..<n]) = map f [0..<Suc i]"
  by (simp add: take_map)

section \<open>The contract of a histogram store\<close>

text \<open>
  A store \<open>'m\<close> changed by operations \<open>'op\<close>; \<open>observed op\<close> is the value an operation records, if
  it records one. Whatever the other operations are, they leave the histogram alone.
\<close>

locale latency_histogram =
  fixes boundaries :: "u64 list"
    and apply_op :: "'op \<Rightarrow> 'm \<Rightarrow> 'm"
    and observed :: "'op \<Rightarrow> u64 option"
    and buckets :: "'m \<Rightarrow> u64 list"
    and total :: "'m \<Rightarrow> u64"
    and fresh :: 'm
  assumes boundaries_sorted: "sorted_wrt (<) boundaries"
    and fresh_buckets: "buckets fresh = replicate (length boundaries) 0"
    and fresh_total: "total fresh = 0"
    and observe_buckets: "observed op = Some v \<Longrightarrow> length (buckets m) = length boundaries \<Longrightarrow>
      buckets (apply_op op m) = bump_bucket 0 boundaries v (buckets m)"
    and observe_total: "observed op = Some v \<Longrightarrow> total (apply_op op m) = total m + 1"
    and other_buckets: "observed op = None \<Longrightarrow> buckets (apply_op op m) = buckets m"
    and other_total: "observed op = None \<Longrightarrow> total (apply_op op m) = total m"
begin

definition run :: "'op list \<Rightarrow> 'm" where
  "run ops = foldl (\<lambda>m op. apply_op op m) fresh ops"

definition recorded :: "'op list \<Rightarrow> u64 list" where
  "recorded ops = List.map_filter observed ops"

lemma run_snoc: "run (ops @ [op]) = apply_op op (run ops)"
  by (simp add: run_def)

lemma recorded_snoc: "recorded (ops @ [op]) = recorded ops @ (case observed op of None \<Rightarrow> [] | Some v \<Rightarrow> [v])"
  by (simp add: recorded_def List.map_filter_def split: option.splits)

lemma length_recorded: "length (recorded ops) \<le> length ops"
  by (simp add: recorded_def List.map_filter_def)

lemma length_buckets_run: "length (buckets (run ops)) = length boundaries"
proof (induction ops rule: rev_induct)
  case Nil
  then show ?case by (simp add: run_def fresh_buckets)
next
  case (snoc op ops)
  then show ?case
    by (cases "observed op") (simp_all add: run_snoc other_buckets observe_buckets)
qed

lemma buckets_run:
  "i < length boundaries \<Longrightarrow>
    buckets (run ops) ! i = of_nat (count_of (in_bucket boundaries i) (recorded ops))"
proof (induction ops arbitrary: i rule: rev_induct)
  case Nil
  then show ?case by (simp add: run_def recorded_def List.map_filter_def fresh_buckets)
next
  case (snoc op ops)
  show ?case
  proof (cases "observed op")
    case None
    with snoc show ?thesis by (simp add: run_snoc recorded_snoc other_buckets)
  next
    case (Some v)
    with snoc show ?thesis
      unfolding run_snoc recorded_snoc
      by (simp add: observe_buckets length_buckets_run del: count_of_simps(3))
        (rule bump_bucket_counts, simp_all add: length_buckets_run)
  qed
qed

lemma total_run: "total (run ops) = of_nat (length (recorded ops))"
proof (induction ops rule: rev_induct)
  case Nil
  then show ?case by (simp add: run_def recorded_def List.map_filter_def fresh_total)
next
  case (snoc op ops)
  then show ?case
    by (cases "observed op") (simp_all add: run_snoc recorded_snoc other_total observe_total)
qed

text \<open>Each cumulative bucket is the exact number of observations at or below its boundary.\<close>

lemma cumulative_exact:
  assumes "length (recorded ops) < 2 ^ 64"
  shows "cumulative 0 (buckets (run ops)) =
    map (\<lambda>b. of_nat (count_of (\<lambda>v. v \<le> b) (recorded ops))) boundaries"
proof (rule nth_equalityI)
  show "length (cumulative 0 (buckets (run ops)))
      = length (map (\<lambda>b. of_nat (count_of (\<lambda>v. v \<le> b) (recorded ops)) :: u64) boundaries)"
    by (simp add: length_buckets_run)
next
  fix i assume "i < length (cumulative 0 (buckets (run ops)))"
  then have i: "i < length boundaries" by (simp add: length_buckets_run)
  define ns where "ns = map (\<lambda>j. count_of (in_bucket boundaries j) (recorded ops)) [0..<length boundaries]"
  have b: "buckets (run ops) = map of_nat ns"
    by (rule nth_equalityI) (simp_all add: ns_def length_buckets_run buckets_run)
  obtain n where n: "length boundaries = Suc n"
    using i by (cases "length boundaries") auto
  have "sum_list ns = count_of (\<lambda>v. v \<le> boundaries ! n) (recorded ops)"
    using count_le_boundary [OF boundaries_sorted, of n] n unfolding ns_def by simp
  then have "sum_list ns < 2 ^ 64"
    using assms le_less_trans [OF count_of_le] by metis
  then have "cumulative (of_nat 0) (map of_nat ns) ! i = of_nat (0 + sum_list (take (Suc i) ns))"
    using i by (intro cumulative_nth_of_nat) (simp_all add: ns_def)
  also have "sum_list (take (Suc i) ns) = count_of (\<lambda>v. v \<le> boundaries ! i) (recorded ops)"
    unfolding ns_def take_upt_map [OF i] by (rule count_le_boundary [OF boundaries_sorted i])
  finally show "cumulative 0 (buckets (run ops)) ! i
      = map (\<lambda>b. of_nat (count_of (\<lambda>v. v \<le> b) (recorded ops))) boundaries ! i"
    using i b by simp
qed

end

end
