(* ===== verification/Runtime_Metrics.thy ===== *)
theory Runtime_Metrics
  imports Histogram
begin

text \<open>
  The metrics of \<^verbatim>\<open>services/llmd/src/lib.rs\<close>: \<open>RuntimeMetrics\<close>, its operations, its Prometheus
  text, the process-wide \<open>OnceLock\<close> and the HTTP endpoint.
\<close>

definition LATENCY_BUCKETS_MS :: "u64 list" where
  "LATENCY_BUCKETS_MS = [5, 10, 25, 50, 100, 250, 500, 1000, 2500, 5000]"

record runtime_metrics =
  policy_requests_total :: u64
  policy_retries_total :: u64
  policy_denies_total :: u64
  policy_allows_total :: u64
  policy_breaker_open_total :: u64
  policy_breaker_open_state :: u64
  policy_latency_sum_ms :: u64
  policy_latency_count :: u64
  policy_latency_bucket_counts :: "u64 list"
  audit_write_failures_total :: u64
  audit_last_write_failed :: u64

definition runtime_metrics_default :: runtime_metrics where
  "runtime_metrics_default = \<lparr>policy_requests_total = 0, policy_retries_total = 0,
     policy_denies_total = 0, policy_allows_total = 0, policy_breaker_open_total = 0,
     policy_breaker_open_state = 0, policy_latency_sum_ms = 0, policy_latency_count = 0,
     policy_latency_bucket_counts = replicate (length LATENCY_BUCKETS_MS) 0,
     audit_write_failures_total = 0, audit_last_write_failed = 0\<rparr>"

definition inc_policy_requests :: "runtime_metrics \<Rightarrow> runtime_metrics" where
  "inc_policy_requests m = m\<lparr>policy_requests_total := policy_requests_total m + 1\<rparr>"

definition inc_policy_retries :: "runtime_metrics \<Rightarrow> runtime_metrics" where
  "inc_policy_retries m = m\<lparr>policy_retries_total := policy_retries_total m + 1\<rparr>"

definition inc_policy_denies :: "runtime_metrics \<Rightarrow> runtime_metrics" where
  "inc_policy_denies m = m\<lparr>policy_denies_total := policy_denies_total m + 1\<rparr>"

definition inc_policy_allows :: "runtime_metrics \<Rightarrow> runtime_metrics" where
  "inc_policy_allows m = m\<lparr>policy_allows_total := policy_allows_total m + 1\<rparr>"

definition observe_policy_latency :: "nat \<Rightarrow> runtime_metrics \<Rightarrow> runtime_metrics" where
  "observe_policy_latency elapsed m =
     (let elapsed_ms = clamp_u64 (elapsed div 1000000)
      in m\<lparr>policy_latency_sum_ms := policy_latency_sum_ms m + elapsed_ms,
           policy_latency_count := policy_latency_count m + 1,
           policy_latency_bucket_counts :=
             bump_bucket 0 LATENCY_BUCKETS_MS elapsed_ms (policy_latency_bucket_counts m)\<rparr>)"

definition set_breaker_open :: "bool \<Rightarrow> runtime_metrics \<Rightarrow> runtime_metrics" where
  "set_breaker_open open m = m\<lparr>policy_breaker_open_state := (if open then 1 else 0)\<rparr>"

definition inc_breaker_open_total :: "runtime_metrics \<Rightarrow> runtime_metrics" where
  "inc_breaker_open_total m = m\<lparr>policy_breaker_open_total := policy_breaker_open_total m + 1\<rparr>"

definition mark_audit_write_failure :: "runtime_metrics \<Rightarrow> runtime_metrics" where
  "mark_audit_write_failure m =
     m\<lparr>audit_write_failures_total := audit_write_failures_total m + 1, audit_last_write_failed := 1\<rparr>"

definition mark_audit_write_success :: "runtime_metrics \<Rightarrow> runtime_metrics" where
  "mark_audit_write_success m = m\<lparr>audit_last_write_failed := 0\<rparr>"

lemmas runtime_metric_defs = inc_policy_requests_def inc_policy_retries_def inc_policy_denies_def
  inc_policy_allows_def observe_policy_latency_def set_breaker_open_def inc_breaker_open_total_def
  mark_audit_write_failure_def mark_audit_write_success_def Let_def

definition runtime_render_prometheus :: "runtime_metrics \<Rightarrow> string" where
  "runtime_render_prometheus m =
     ''# TYPE llmos_policy_requests_total counter'' @ nl
     @ ''llmos_policy_requests_total '' @ show_u64 (policy_requests_total m) @ nl
     @ ''# TYPE llmos_policy_retries_total counter'' @ nl
     @ ''llmos_policy_retries_total '' @ show_u64 (policy_retries_total m) @ nl
     @ ''# TYPE llmos_policy_denies_total counter'' @ nl
     @ ''llmos_policy_denies_total '' @ show_u64 (policy_denies_total m) @ nl
     @ ''# TYPE llmos_policy_allows_total counter'' @ nl
     @ ''llmos_policy_allows_total '' @ show_u64 (policy_allows_total m) @ nl
     @ ''# TYPE llmos_policy_breaker_open_total counter'' @ nl
     @ ''llmos_policy_breaker_open_total '' @ show_u64 (policy_breaker_open_total m) @ nl
     @ ''# TYPE llmos_policy_breaker_open gauge'' @ nl
     @ ''llmos_policy_breaker_open '' @ show_u64 (policy_breaker_open_state m) @ nl
     @ ''# TYPE llmos_audit_queue_depth gauge'' @ nl
     @ ''llmos_audit_queue_depth 0'' @ nl
     @ ''# TYPE llmos_audit_write_failures_total counter'' @ nl
     @ ''llmos_audit_write_failures_total '' @ show_u64 (audit_write_failures_total m) @ nl
     @ ''# TYPE llmos_audit_last_write_failed gauge'' @ nl
     @ ''llmos_audit_last_write_failed '' @ show_u64 (audit_last_write_failed m) @ nl
     @ ''# TYPE llmos_policy_latency_ms histogram'' @ nl
     @ bucket_lines ''llmos_policy_latency_ms'' LATENCY_BUCKETS_MS (policy_latency_bucket_counts m)
     @ ''llmos_policy_latency_ms_bucket{le='' @ [CHR 0x22] @ ''+Inf'' @ [CHR 0x22] @ ''} ''
       @ show_u64 (policy_latency_count m) @ nl
     @ ''llmos_policy_latency_ms_sum '' @ show_u64 (policy_latency_sum_ms m) @ nl
     @ ''llmos_policy_latency_ms_count '' @ show_u64 (policy_latency_count m) @ nl"

definition runtime_metrics_endpoint :: "runtime_metrics \<Rightarrow> string \<Rightarrow> string \<Rightarrow> nat \<times> string" where
  "runtime_metrics_endpoint m method path = metrics_route (runtime_render_prometheus m) method path"

section \<open>The process-wide handle\<close>

type_synonym runtime_metrics_cell = "runtime_metrics option"

definition init_runtime_metrics :: "runtime_metrics \<Rightarrow> runtime_metrics_cell \<Rightarrow> runtime_metrics_cell" where
  "init_runtime_metrics m cell = (case cell of None \<Rightarrow> Some m | Some old \<Rightarrow> Some old)"

definition runtime_metrics_handle :: "runtime_metrics_cell \<Rightarrow> runtime_metrics" where
  "runtime_metrics_handle cell = (case cell of None \<Rightarrow> runtime_metrics_default | Some m \<Rightarrow> m)"

definition with_runtime_metrics ::
  "(runtime_metrics \<Rightarrow> runtime_metrics) \<Rightarrow> runtime_metrics_cell \<Rightarrow> runtime_metrics_cell" where
  "with_runtime_metrics f cell = Some (f (runtime_metrics_handle cell))"

lemma runtime_metrics_handle_with [simp]:
  "runtime_metrics_handle (with_runtime_metrics f cell) = f (runtime_metrics_handle cell)"
  "runtime_metrics_handle (Some m) = m"
  by (simp_all add: with_runtime_metrics_def runtime_metrics_handle_def)

section \<open>Any interleaving of the operations\<close>

datatype runtime_metric_op =
    IncPolicyRequests
  | IncPolicyRetries
  | IncPolicyDenies
  | IncPolicyAllows
  | ObservePolicyLatency nat
  | SetBreakerOpen bool
  | IncBreakerOpenTotal
  | MarkAuditWriteFailure
  | MarkAuditWriteSuccess

fun runtime_metric_step :: "runtime_metric_op \<Rightarrow> runtime_metrics \<Rightarrow> runtime_metrics" where
  "runtime_metric_step IncPolicyRequests m = inc_policy_requests m"
| "runtime_metric_step IncPolicyRetries m = inc_policy_retries m"
| "runtime_metric_step IncPolicyDenies m = inc_policy_denies m"
| "runtime_metric_step IncPolicyAllows m = inc_policy_allows m"
| "runtime_metric_step (ObservePolicyLatency d) m = observe_policy_latency d m"
| "runtime_metric_step (SetBreakerOpen b) m = set_breaker_open b m"
| "runtime_metric_step IncBreakerOpenTotal m = inc_breaker_open_total m"
| "runtime_metric_step MarkAuditWriteFailure m = mark_audit_write_failure m"
| "runtime_metric_step MarkAuditWriteSuccess m = mark_audit_write_success m"

fun runtime_op_latency :: "runtime_metric_op \<Rightarrow> u64 option" where
  "runtime_op_latency (ObservePolicyLatency d) = Some (clamp_u64 (d div 1000000))"
| "runtime_op_latency _ = None"

lemma runtime_op_latency_Some:
  "runtime_op_latency op = Some v \<longleftrightarrow> (\<exists>d. op = ObservePolicyLatency d \<and> v = clamp_u64 (d div 1000000))"
  by (cases op) auto

lemma runtime_op_other:
  "runtime_op_latency op = None \<Longrightarrow>
    policy_latency_bucket_counts (runtime_metric_step op m) = policy_latency_bucket_counts m
    \<and> policy_latency_count (runtime_metric_step op m) = policy_latency_count m"
  by (cases op) (simp_all add: runtime_metric_defs)

interpretation runtime_hist: latency_histogram LATENCY_BUCKETS_MS runtime_metric_step runtime_op_latency
  policy_latency_bucket_counts policy_latency_count runtime_metrics_default
proof unfold_locales
  show "sorted_wrt (<) LATENCY_BUCKETS_MS"
    by (simp add: LATENCY_BUCKETS_MS_def)
qed (auto simp: runtime_metrics_default_def runtime_op_latency_Some runtime_op_other runtime_metric_defs)

definition run_runtime_metrics :: "runtime_metric_op list \<Rightarrow> runtime_metrics" where
  "run_runtime_metrics ops = foldl (\<lambda>m op. runtime_metric_step op m) runtime_metrics_default ops"

text \<open>
  The latency histogram that llmd exports is exact under any interleaving of the metric
  operations: as long as fewer than \<open>2 ^ 64\<close> of them ran, the line of each boundary shows the number
  of recorded latencies at or below it, in decimal, and nothing else.
\<close>

theorem runtime_histogram_text:
  assumes "length ops < 2 ^ 64"
  shows "bucket_lines name LATENCY_BUCKETS_MS (policy_latency_bucket_counts (run_runtime_metrics ops)) =
    concat (map (\<lambda>b. name @ ''_bucket{le='' @ [CHR 0x22] @ show_nat (unat b) @ [CHR 0x22] @ ''} ''
        @ show_nat (count_of (\<lambda>v. v \<le> b) (List.map_filter runtime_op_latency ops)) @ nl)
      LATENCY_BUCKETS_MS)"
proof -
  let ?l = "runtime_hist.recorded ops"
  have run: "run_runtime_metrics ops = runtime_hist.run ops"
    by (simp add: run_runtime_metrics_def runtime_hist.run_def)
  have len: "length ?l < 2 ^ 64"
    using assms runtime_hist.length_recorded [of ops] by linarith
  then have lt: "count_of P ?l < 2 ^ 64" for P
    using le_less_trans [OF count_of_le] by blast
  have "map2 f bs (map g bs) = map (\<lambda>b. f b (g b)) bs" for f :: "u64 \<Rightarrow> u64 \<Rightarrow> string" and g bs
    by (induction bs) simp_all
  then show ?thesis
    using runtime_hist.cumulative_exact [OF len]
    by (simp add: bucket_lines_def run show_u64_def unat_of_nat_u64 [OF lt [unfolded runtime_hist.recorded_def]]
        runtime_hist.recorded_def)
qed

theorem runtime_histogram_text_witness:
  "bucket_lines ''x'' LATENCY_BUCKETS_MS (policy_latency_bucket_counts (run_runtime_metrics
      [ObservePolicyLatency 42000000])) =
    concat (map (\<lambda>b. ''x_bucket{le='' @ [CHR 0x22] @ show_nat (unat b) @ [CHR 0x22] @ ''} ''
        @ show_nat (if 42 \<le> b then 1 else 0) @ nl) LATENCY_BUCKETS_MS)"
  using runtime_histogram_text [of "[ObservePolicyLatency 42000000]" "''x''"]
  by (simp add: List.map_filter_def clamp_u64_def LATENCY_BUCKETS_MS_def)

end
