(* ===== verification/Policy_Engine.thy ===== *)
theory Policy_Engine
  imports Workload "HOL-Library.Multiset"
begin

text \<open>
  \<^verbatim>\<open>services/policy-engine/src/model.rs\<close>, \<^verbatim>\<open>identity.rs\<close> and \<^verbatim>\<open>engine.rs\<close>: policy documents, the matching
  of subjects and patterns, and the evaluation of a request.
\<close>

section \<open>Model\<close>

datatype rule_effect = RuleAllow | RuleDeny

record policy_rule =
  pr_id :: string
  pr_effect :: rule_effect
  pr_subject :: string
  pr_actions :: "string list"
  pr_resources :: "string list"

record policy_document =
  doc_version :: string
  doc_rules :: "policy_rule list"

record policy_request =
  rq_subject :: string
  rq_action :: string
  rq_resource :: string

datatype decision_effect = DecisionAllow | DecisionDeny

datatype decision_reason = MatchedAllow (ma_rule: string) | MatchedDeny (md_rule: string) | NoMatch

record policy_decision =
  dec_effect :: decision_effect
  dec_reason :: decision_reason

text \<open>
  Effects are ordered by what they permit. A document decides by the least effect of its matching rules, which is how
  deny overrides allow.
\<close>

instantiation decision_effect :: linorder
begin

definition less_eq_decision_effect :: "decision_effect \<Rightarrow> decision_effect \<Rightarrow> bool" where
  "less_eq_decision_effect e f \<longleftrightarrow> e = DecisionDeny \<or> f = DecisionAllow"

definition less_decision_effect :: "decision_effect \<Rightarrow> decision_effect \<Rightarrow> bool" where
  "less_decision_effect e f \<longleftrightarrow> e = DecisionDeny \<and> f = DecisionAllow"

instance
proof
  show "e \<le> f \<or> f \<le> e" for e f :: decision_effect
    by (cases e) (simp_all add: less_eq_decision_effect_def)
  show "(e < f) = (e \<le> f \<and> \<not> f \<le> e)" for e f :: decision_effect
    by (cases e; cases f) (simp_all add: less_eq_decision_effect_def less_decision_effect_def)
  show "e = f" if "e \<le> f" "f \<le> e" for e f :: decision_effect
    using that by (auto simp: less_eq_decision_effect_def)
  show "e \<le> e" for e :: decision_effect
    by (cases e) (simp_all add: less_eq_decision_effect_def)
qed (auto simp: less_eq_decision_effect_def)

end

instance decision_effect :: finite
proof
  have "UNIV = {DecisionAllow, DecisionDeny}"
    using decision_effect.exhaust by blast
  then show "finite (UNIV :: decision_effect set)"
    by (metis finite.emptyI finite_insert)
qed

section \<open>Subjects\<close>

definition validate_subject :: "string \<Rightarrow> string + workload_id" where
  "validate_subject subject = map_err workload_id_error_display (workload_parse subject)"

definition subject_matches :: "string \<Rightarrow> string \<Rightarrow> bool" where
  "subject_matches pattern subject =
     (if pattern = ''*'' then True
      else case strip_suffix pattern ''/*'' of
             Some pre \<Rightarrow>
               (case workload_parse subject of
                  Inr wid \<Rightarrow> wid_namespace wid = pre
                | Inl _ \<Rightarrow> starts_with subject (pre @ ''/''))
           | None \<Rightarrow> pattern = subject)"

section \<open>Patterns and evaluation\<close>

definition matches_pattern :: "string \<Rightarrow> string \<Rightarrow> bool" where
  "matches_pattern pattern value =
     (if pattern = ''*'' then True
      else case strip_suffix pattern ''*'' of
             Some pre \<Rightarrow> starts_with value pre
           | None \<Rightarrow> pattern = value)"

definition any_pattern_matches :: "string list \<Rightarrow> string \<Rightarrow> bool" where
  "any_pattern_matches patterns value = list_ex (\<lambda>pattern. matches_pattern pattern value) patterns"

definition matches_request :: "policy_rule \<Rightarrow> policy_request \<Rightarrow> bool" where
  "matches_request rule request =
     (if \<not> subject_matches (pr_subject rule) (rq_subject request) then False
      else any_pattern_matches (pr_actions rule) (rq_action request)
         \<and> any_pattern_matches (pr_resources rule) (rq_resource request))"

text \<open>The loop over the rules with its two accumulators \<open>first_allow\<close> and \<open>first_deny\<close>.\<close>

fun scan_rules :: "policy_request \<Rightarrow> policy_rule list \<Rightarrow> policy_rule option \<Rightarrow> policy_rule option
    \<Rightarrow> policy_rule option \<times> policy_rule option" where
  "scan_rules request [] first_allow first_deny = (first_allow, first_deny)"
| "scan_rules request (rule # rules) first_allow first_deny =
     (if \<not> matches_request rule request then scan_rules request rules first_allow first_deny
      else case pr_effect rule of
             RuleAllow \<Rightarrow>
               scan_rules request rules (if first_allow = None then Some rule else first_allow) first_deny
           | RuleDeny \<Rightarrow>
               scan_rules request rules first_allow (if first_deny = None then Some rule else first_deny))"

definition evaluate_policy :: "policy_document \<Rightarrow> policy_request \<Rightarrow> policy_decision" where
  "evaluate_policy policy request =
     (case scan_rules request (doc_rules policy) None None of (first_allow, first_deny) \<Rightarrow>
       (case first_deny of
          Some rule \<Rightarrow> \<lparr>dec_effect = DecisionDeny, dec_reason = MatchedDeny (pr_id rule)\<rparr>
        | None \<Rightarrow>
            (case first_allow of
               Some rule \<Rightarrow> \<lparr>dec_effect = DecisionAllow, dec_reason = MatchedAllow (pr_id rule)\<rparr>
             | None \<Rightarrow> \<lparr>dec_effect = DecisionDeny, dec_reason = NoMatch\<rparr>)))"

section \<open>Subjects: the identity-aware branch is prefix matching\<close>

lemma strip_star_slash:
  "strip_suffix pattern ''/*'' = Some p \<longleftrightarrow> pattern = p @ ''/*''"
  by (simp add: strip_suffix_Some_iff)

lemma namespace_iff_prefix:
  assumes "workload_parse subject = Inr w"
  shows "wid_namespace w = p \<longleftrightarrow> starts_with subject (p @ ''/'')"
proof
  have s: "subject = wid_namespace w @ ''/'' @ wid_name w"
    and ns: "CHR ''/'' \<notin> set (wid_namespace w)" and nm: "CHR ''/'' \<notin> set (wid_name w)"
    using assms by (auto simp: workload_parse_Inr_iff workload_display_def workload_wf_def
        dest: valid_segment_no_slash)
  show "starts_with subject (p @ ''/'')" if "wid_namespace w = p"
    using that s by (auto simp: starts_with_iff)
  show "wid_namespace w = p" if "starts_with subject (p @ ''/'')"
  proof -
    obtain r where r: "subject = p @ CHR ''/'' # r"
      using \<open>starts_with subject (p @ ''/'')\<close> by (auto simp: starts_with_iff)
    have "count_list subject CHR ''/'' = 1"
      unfolding s using ns nm by (simp add: count_list_0_iff)
    then have "CHR ''/'' \<notin> set p"
      unfolding r by (simp add: count_list_0_iff)
    then have "split_once CHR ''/'' subject = Some (p, r)"
      using r by (simp add: split_once_Some_iff)
    moreover have "split_once CHR ''/'' subject = Some (wid_namespace w, wid_name w)"
      using s ns by (simp add: split_once_Some_iff)
    ultimately show ?thesis
      by simp
  qed
qed

text \<open>
  C29: A rule's subject pattern matches a subject exactly when it is the star, or equals the subject,
  or is \<open>p/*\<close> for a \<open>p\<close> with the subject starting with \<open>p/\<close>: the branch that parses the subject as a
  workload identifier and compares namespaces always agrees with plain prefix matching.
\<close>

theorem subject_matches_iff:
  "subject_matches pattern subject \<longleftrightarrow>
    pattern = ''*'' \<or> pattern = subject \<or> (\<exists>p r. pattern = p @ ''/*'' \<and> subject = p @ ''/'' @ r)"
proof (cases "strip_suffix pattern ''/*''")
  case None
  then have "\<nexists>p. pattern = p @ ''/*''"
    by (auto simp: strip_suffix_None_iff suffix_def)
  with None show ?thesis
    by (auto simp: subject_matches_def)
next
  case (Some p)
  then have pat: "pattern = p @ ''/*''"
    by (simp add: strip_star_slash)
  have "(case workload_parse subject of Inr wid \<Rightarrow> wid_namespace wid = p
      | Inl _ \<Rightarrow> starts_with subject (p @ ''/'')) \<longleftrightarrow> starts_with subject (p @ ''/'')"
    by (simp add: namespace_iff_prefix split: sum.splits)
  then have "subject_matches pattern subject \<longleftrightarrow> pattern = ''*'' \<or> starts_with subject (p @ ''/'')"
    by (simp add: subject_matches_def Some)
  then show ?thesis
    using pat by (auto simp: starts_with_iff)
qed

lemma matches_pattern_iff:
  "matches_pattern pattern value \<longleftrightarrow> pattern = value \<or> (\<exists>p r. pattern = p @ ''*'' \<and> value = p @ r)"
proof (cases "strip_suffix pattern ''*''")
  case None
  then have "\<nexists>p. pattern = p @ ''*''"
    by (auto simp: strip_suffix_None_iff suffix_def)
  with None show ?thesis
    by (auto simp: matches_pattern_def)
next
  case (Some p)
  then have "pattern = p @ ''*''"
    by (simp add: strip_suffix_Some_iff)
  with Some show ?thesis
    by (auto simp: matches_pattern_def starts_with_iff)
qed

section \<open>The evaluation loop\<close>

definition matching :: "rule_effect \<Rightarrow> policy_request \<Rightarrow> policy_rule \<Rightarrow> bool" where
  "matching eff request rule \<longleftrightarrow> matches_request rule request \<and> pr_effect rule = eff"

lemma scan_rules_find:
  "scan_rules request rules fa fd =
    (if fa = None then find (matching RuleAllow request) rules else fa,
     if fd = None then find (matching RuleDeny request) rules else fd)"
  by (induction request rules fa fd rule: scan_rules.induct)
    (auto simp: matching_def split: rule_effect.splits)

lemma evaluate_policy_find:
  "evaluate_policy policy request =
    (case find (matching RuleDeny request) (doc_rules policy) of
       Some rule \<Rightarrow> \<lparr>dec_effect = DecisionDeny, dec_reason = MatchedDeny (pr_id rule)\<rparr>
     | None \<Rightarrow>
         (case find (matching RuleAllow request) (doc_rules policy) of
            Some rule \<Rightarrow> \<lparr>dec_effect = DecisionAllow, dec_reason = MatchedAllow (pr_id rule)\<rparr>
          | None \<Rightarrow> \<lparr>dec_effect = DecisionDeny, dec_reason = NoMatch\<rparr>))"
  by (simp add: evaluate_policy_def scan_rules_find split: option.splits)

lemma find_eq_None_iff: "find P xs = None \<longleftrightarrow> (\<forall>x\<in>set xs. \<not> P x)"
  by (auto simp: find_None_iff)

lemma find_Some_in: "find P xs = Some x \<Longrightarrow> x \<in> set xs \<and> P x"
  by (auto simp: find_Some_iff)

text \<open>
  The abstract specification of a decision: a set of rules authorises a request when some allow
  rule matches it and no deny rule does.
\<close>

definition authorised :: "policy_rule set \<Rightarrow> policy_request \<Rightarrow> bool" where
  "authorised rules request \<longleftrightarrow>
     (\<exists>r\<in>rules. matching RuleAllow request r) \<and> \<not> (\<exists>r\<in>rules. matching RuleDeny request r)"

lemma evaluate_allow_iff:
  "dec_effect (evaluate_policy policy request) = DecisionAllow \<longleftrightarrow> authorised (set (doc_rules policy)) request"
proof (cases "find (matching RuleDeny request) (doc_rules policy)")
  case (Some r)
  then have "\<not> authorised (set (doc_rules policy)) request"
    by (auto simp: authorised_def dest: find_Some_in)
  with Some show ?thesis
    by (simp add: evaluate_policy_find)
next
  case None
  then have deny: "\<not> (\<exists>r\<in>set (doc_rules policy). matching RuleDeny request r)"
    by (simp add: find_eq_None_iff)
  show ?thesis
  proof (cases "find (matching RuleAllow request) (doc_rules policy)")
    case no_allow: None
    then have "\<not> (\<exists>r\<in>set (doc_rules policy). matching RuleAllow request r)"
      by (simp add: find_eq_None_iff)
    with None no_allow show ?thesis
      by (simp add: evaluate_policy_find authorised_def)
  next
    case (Some r)
    with None deny show ?thesis
      by (auto simp: evaluate_policy_find authorised_def dest: find_Some_in)
  qed
qed

text \<open>The decision as the least effect of the matching rules.\<close>

fun decision_of :: "rule_effect \<Rightarrow> decision_effect" where
  "decision_of RuleAllow = DecisionAllow"
| "decision_of RuleDeny = DecisionDeny"

definition matching_effects :: "policy_rule set \<Rightarrow> policy_request \<Rightarrow> decision_effect set" where
  "matching_effects rules request = (decision_of \<circ> pr_effect) ` {r \<in> rules. matches_request r request}"

lemma deny_in_matching_effects:
  "DecisionDeny \<in> matching_effects rules request \<longleftrightarrow> (\<exists>r\<in>rules. matching RuleDeny request r)"
  by (auto simp: matching_effects_def matching_def image_iff elim: decision_of.elims)
    (metis decision_of.elims decision_effect.distinct(1))

lemma allow_in_matching_effects:
  "DecisionAllow \<in> matching_effects rules request \<longleftrightarrow> (\<exists>r\<in>rules. matching RuleAllow request r)"
  by (auto simp: matching_effects_def matching_def image_iff elim: decision_of.elims)
    (metis decision_of.elims decision_effect.distinct(1))

lemma evaluate_effect_least:
  "dec_effect (evaluate_policy policy request) =
    (let effects = matching_effects (set (doc_rules policy)) request in
     if effects = {} then DecisionDeny else Min effects)"
proof -
  let ?E = "matching_effects (set (doc_rules policy)) request"
  have auth: "authorised (set (doc_rules policy)) request \<longleftrightarrow> DecisionAllow \<in> ?E \<and> DecisionDeny \<notin> ?E"
    by (simp add: authorised_def deny_in_matching_effects allow_in_matching_effects)
  show ?thesis
  proof (cases "DecisionDeny \<in> ?E")
    case True
    then have "Min ?E = DecisionDeny"
      by (intro Min_eqI) (auto simp: less_eq_decision_effect_def)
    with True auth show ?thesis
      using evaluate_allow_iff [of policy request] by (auto simp: Let_def intro: decision_effect.exhaust)
  next
    case False
    then have "?E \<subseteq> {DecisionAllow}"
      using decision_effect.exhaust by blast
    then have "?E = {} \<or> ?E = {DecisionAllow}"
      by blast
    with auth show ?thesis
      using evaluate_allow_iff [of policy request] decision_effect.exhaust by (auto simp: Let_def)
  qed
qed

text \<open>
  C5: The evaluation refines the set-based specification: a request is allowed exactly when some
  allow rule matches and no deny rule does (deny overrides, default deny); equivalently, the decision is
  the least effect of the matching rules, or deny when none matches; and the reason names the first matching
  rule of the deciding effect in document order, or no rule when none matches.
\<close>

theorem evaluate_policy_refines:
  "(dec_effect (evaluate_policy policy request) = DecisionAllow
      \<longleftrightarrow> authorised (set (doc_rules policy)) request)
    \<and> dec_effect (evaluate_policy policy request) =
      (let effects = matching_effects (set (doc_rules policy)) request in
       if effects = {} then DecisionDeny else Min effects)
    \<and> dec_reason (evaluate_policy policy request) =
      (case (find (matching RuleDeny request) (doc_rules policy),
             find (matching RuleAllow request) (doc_rules policy)) of
         (Some d, _) \<Rightarrow> MatchedDeny (pr_id d)
       | (None, Some a) \<Rightarrow> MatchedAllow (pr_id a)
       | (None, None) \<Rightarrow> NoMatch)"
proof (intro conjI)
  show "dec_reason (evaluate_policy policy request) =
      (case (find (matching RuleDeny request) (doc_rules policy),
             find (matching RuleAllow request) (doc_rules policy)) of
         (Some d, _) \<Rightarrow> MatchedDeny (pr_id d)
       | (None, Some a) \<Rightarrow> MatchedAllow (pr_id a)
       | (None, None) \<Rightarrow> NoMatch)"
    by (simp add: evaluate_policy_find split: option.splits)
qed (rule evaluate_allow_iff evaluate_effect_least)+

text \<open>
  C40: The decision does not depend on the order or repetition of rules, and adding rules is safe in
  the deny direction: with any deny rules added anywhere, whatever is still allowed was allowed before.
\<close>

theorem evaluate_policy_order_and_deny:
  assumes "set (doc_rules policy') = set (doc_rules policy) \<union> extra"
    and "\<forall>r\<in>extra. pr_effect r = RuleDeny"
  shows "dec_effect (evaluate_policy policy' request) \<le> dec_effect (evaluate_policy policy request)
    \<and> (extra = {} \<longrightarrow> dec_effect (evaluate_policy policy' request) = dec_effect (evaluate_policy policy request))"
proof (intro conjI impI)
  have "authorised (set (doc_rules policy')) request \<Longrightarrow> authorised (set (doc_rules policy)) request"
    using assms by (auto simp: authorised_def matching_def)
  then show "dec_effect (evaluate_policy policy' request) \<le> dec_effect (evaluate_policy policy request)"
    using evaluate_allow_iff decision_effect.exhaust unfolding less_eq_decision_effect_def by metis
  show "dec_effect (evaluate_policy policy' request) = dec_effect (evaluate_policy policy request)" if "extra = {}"
    using assms(1) that by (simp add: evaluate_effect_least)
qed

definition sample_rule :: "string \<Rightarrow> rule_effect \<Rightarrow> policy_rule" where
  "sample_rule i eff = \<lparr>pr_id = i, pr_effect = eff, pr_subject = ''runtime/*'',
     pr_actions = [''network:*''], pr_resources = [''api.*'']\<rparr>"

definition sample_request :: policy_request where
  "sample_request = \<lparr>rq_subject = ''runtime/model-runtime'', rq_action = ''network:connect'',
     rq_resource = ''api.openai.com''\<rparr>"

theorem evaluate_policy_order_and_deny_witness:
  "dec_effect (evaluate_policy \<lparr>doc_version = ''v1'', doc_rules = [sample_rule ''d'' RuleDeny, sample_rule ''a'' RuleAllow]\<rparr> sample_request)
   = dec_effect (evaluate_policy \<lparr>doc_version = ''v1'', doc_rules = [sample_rule ''a'' RuleAllow, sample_rule ''d'' RuleDeny]\<rparr> sample_request)"
  using evaluate_policy_order_and_deny [of
      "\<lparr>doc_version = ''v1'', doc_rules = [sample_rule ''d'' RuleDeny, sample_rule ''a'' RuleAllow]\<rparr>"
      "\<lparr>doc_version = ''v1'', doc_rules = [sample_rule ''a'' RuleAllow, sample_rule ''d'' RuleDeny]\<rparr>" "{}" sample_request]
  by auto

end
