(* ===== verification/Policy_Metrics.thy ===== *)
theory Policy_Metrics
  imports Histogram
begin

text \<open>
  \<^verbatim>\<open>services/policy-engine/src/metrics.rs\<close>: the counters of the policy engine, each a 64-bit atomic
  whose \<open>fetch_add\<close> wraps, their Prometheus text, the process-wide \<open>OnceLock\<close> and the HTTP endpoint.
\<close>

definition LATENCY_BUCKETS_US :: "u64 list" where
  "LATENCY_BUCKETS_US = [100, 250, 500, 1000, 2500, 5000, 10000, 25000, 50000, 100000]"

record policy_engine_metrics =
  evaluate_requests_total :: u64
  evaluate_allow_total :: u64
  evaluate_deny_total :: u64
  health_checks_total :: u64
  rules_loaded :: u64
  evaluate_latency_sum_us :: u64
  evaluate_latency_count :: u64
  evaluate_latency_bucket_counts :: "u64 list"

definition policy_metrics_default :: policy_engine_metrics where
  "policy_metrics_default = \<lparr>evaluate_requests_total = 0, evaluate_allow_total = 0,
     evaluate_deny_total = 0, health_checks_total = 0, rules_loaded = 0, evaluate_latency_sum_us = 0,
     evaluate_latency_count = 0,
     evaluate_latency_bucket_counts = replicate (length LATENCY_BUCKETS_US) 0\<rparr>"

definition set_rules_loaded :: "nat \<Rightarrow> policy_engine_metrics \<Rightarrow> policy_engine_metrics" where
  "set_rules_loaded n m = m\<lparr>rules_loaded := of_nat n\<rparr>"

definition inc_evaluate_requests :: "policy_engine_metrics \<Rightarrow> policy_engine_metrics" where
  "inc_evaluate_requests m = m\<lparr>evaluate_requests_total := evaluate_requests_total m + 1\<rparr>"

definition inc_allow :: "policy_engine_metrics \<Rightarrow> policy_engine_metrics" where
  "inc_allow m = m\<lparr>evaluate_allow_total := evaluate_allow_total m + 1\<rparr>"

definition inc_deny :: "policy_engine_metrics \<Rightarrow> policy_engine_metrics" where
  "inc_deny m = m\<lparr>evaluate_deny_total := evaluate_deny_total m + 1\<rparr>"

definition inc_health_checks :: "policy_engine_metrics \<Rightarrow> policy_engine_metrics" where
  "inc_health_checks m = m\<lparr>health_checks_total := health_checks_total m + 1\<rparr>"

definition observe_evaluate_latency :: "nat \<Rightarrow> policy_engine_metrics \<Rightarrow> policy_engine_metrics" where
  "observe_evaluate_latency elapsed m =
     (let elapsed_us = clamp_u64 (elapsed div 1000)
      in m\<lparr>evaluate_latency_sum_us := evaluate_latency_sum_us m + elapsed_us,
           evaluate_latency_count := evaluate_latency_count m + 1,
           evaluate_latency_bucket_counts :=
             bump_bucket 0 LATENCY_BUCKETS_US elapsed_us (evaluate_latency_bucket_counts m)\<rparr>)"

section \<open>Rendering\<close>

definition policy_render_prometheus :: "policy_engine_metrics \<Rightarrow> string" where
  "policy_render_prometheus m =
     ''# TYPE llmos_policy_engine_evaluate_requests_total counter'' @ nl
     @ ''llmos_policy_engine_evaluate_requests_total '' @ show_u64 (evaluate_requests_total m) @ nl
     @ ''# TYPE llmos_policy_engine_allow_total counter'' @ nl
     @ ''llmos_policy_engine_allow_total '' @ show_u64 (evaluate_allow_total m) @ nl
     @ ''# TYPE llmos_policy_engine_deny_total counter'' @ nl
     @ ''llmos_policy_engine_deny_total '' @ show_u64 (evaluate_deny_total m) @ nl
     @ ''# TYPE llmos_policy_engine_health_checks_total counter'' @ nl
     @ ''llmos_policy_engine_health_checks_total '' @ show_u64 (health_checks_total m) @ nl
     @ ''# TYPE llmos_policy_engine_rules_loaded gauge'' @ nl
     @ ''llmos_policy_engine_rules_loaded '' @ show_u64 (rules_loaded m) @ nl
     @ ''# TYPE llmos_policy_engine_evaluate_latency_us histogram'' @ nl
     @ bucket_lines ''llmos_policy_engine_evaluate_latency_us'' LATENCY_BUCKETS_US
         (evaluate_latency_bucket_counts m)
     @ ''llmos_policy_engine_evaluate_latency_us_bucket{le='' @ [CHR 0x22] @ ''+Inf'' @ [CHR 0x22] @ ''} ''
       @ show_u64 (evaluate_latency_count m) @ nl
     @ ''llmos_policy_engine_evaluate_latency_us_sum '' @ show_u64 (evaluate_latency_sum_us m) @ nl
     @ ''llmos_policy_engine_evaluate_latency_us_count '' @ show_u64 (evaluate_latency_count m) @ nl"

text \<open>The service function of \<open>run_metrics_server\<close>.\<close>

definition policy_metrics_endpoint :: "policy_engine_metrics \<Rightarrow> string \<Rightarrow> string \<Rightarrow> nat \<times> string" where
  "policy_metrics_endpoint m method path = metrics_route (policy_render_prometheus m) method path"

section \<open>The process-wide handle\<close>

text \<open>
  The cell \<open>POLICY_METRICS\<close> is empty or holds the metrics that every later call shares.
\<close>

type_synonym policy_metrics_cell = "policy_engine_metrics option"

definition init_policy_metrics :: "policy_engine_metrics \<Rightarrow> policy_metrics_cell \<Rightarrow> policy_metrics_cell" where
  "init_policy_metrics m cell = (case cell of None \<Rightarrow> Some m | Some old \<Rightarrow> Some old)"

definition policy_metrics_handle :: "policy_metrics_cell \<Rightarrow> policy_engine_metrics" where
  "policy_metrics_handle cell = (case cell of None \<Rightarrow> policy_metrics_default | Some m \<Rightarrow> m)"

definition with_policy_metrics ::
  "(policy_engine_metrics \<Rightarrow> policy_engine_metrics) \<Rightarrow> policy_metrics_cell \<Rightarrow> policy_metrics_cell" where
  "with_policy_metrics f cell = Some (f (policy_metrics_handle cell))"

definition try_with_policy_metrics ::
  "(policy_engine_metrics \<Rightarrow> policy_engine_metrics) \<Rightarrow> policy_metrics_cell \<Rightarrow> policy_metrics_cell" where
  "try_with_policy_metrics f cell = map_option f cell"

section \<open>Any interleaving of the operations\<close>

datatype policy_metric_op =
    SetRulesLoaded nat
  | IncEvaluateRequests
  | IncAllow
  | IncDeny
  | IncHealthChecks
  | ObserveEvaluateLatency nat

fun policy_metric_step :: "policy_metric_op \<Rightarrow> policy_engine_metrics \<Rightarrow> policy_engine_metrics" where
  "policy_metric_step (SetRulesLoaded n) m = set_rules_loaded n m"
| "policy_metric_step IncEvaluateRequests m = inc_evaluate_requests m"
| "policy_metric_step IncAllow m = inc_allow m"
| "policy_metric_step IncDeny m = inc_deny m"
| "policy_metric_step IncHealthChecks m = inc_health_checks m"
| "policy_metric_step (ObserveEvaluateLatency d) m = observe_evaluate_latency d m"

fun policy_op_latency :: "policy_metric_op \<Rightarrow> u64 option" where
  "policy_op_latency (ObserveEvaluateLatency d) = Some (clamp_u64 (d div 1000))"
| "policy_op_latency _ = None"

lemmas policy_metric_defs = set_rules_loaded_def inc_evaluate_requests_def inc_allow_def inc_deny_def
  inc_health_checks_def observe_evaluate_latency_def Let_def

lemma policy_op_latency_Some:
  "policy_op_latency op = Some v \<longleftrightarrow> (\<exists>d. op = ObserveEvaluateLatency d \<and> v = clamp_u64 (d div 1000))"
  by (cases op) auto

lemma policy_op_other:
  "policy_op_latency op = None \<Longrightarrow>
    evaluate_latency_bucket_counts (policy_metric_step op m) = evaluate_latency_bucket_counts m
    \<and> evaluate_latency_count (policy_metric_step op m) = evaluate_latency_count m"
  by (cases op) (simp_all add: policy_metric_defs)

interpretation policy_hist: latency_histogram LATENCY_BUCKETS_US policy_metric_step policy_op_latency
  evaluate_latency_bucket_counts evaluate_latency_count policy_metrics_default
proof unfold_locales
  show "sorted_wrt (<) LATENCY_BUCKETS_US"
    by (simp add: LATENCY_BUCKETS_US_def)
qed (auto simp: policy_metrics_default_def policy_op_latency_Some policy_op_other policy_metric_defs)

definition run_policy_metrics :: "policy_metric_op list \<Rightarrow> policy_engine_metrics" where
  "run_policy_metrics ops = foldl (\<lambda>m op. policy_metric_step op m) policy_metrics_default ops"

lemma run_policy_metrics_hist: "run_policy_metrics ops = policy_hist.run ops"
  by (simp add: run_policy_metrics_def policy_hist.run_def)

lemma run_policy_metrics_snoc:
  "run_policy_metrics (ops @ [op]) = policy_metric_step op (run_policy_metrics ops)"
  by (simp add: run_policy_metrics_def)

lemma policy_counters:
  "evaluate_requests_total (run_policy_metrics ops) = of_nat (count_of (\<lambda>x. x = IncEvaluateRequests) ops)
   \<and> evaluate_allow_total (run_policy_metrics ops) = of_nat (count_of (\<lambda>x. x = IncAllow) ops)
   \<and> evaluate_deny_total (run_policy_metrics ops) = of_nat (count_of (\<lambda>x. x = IncDeny) ops)
   \<and> health_checks_total (run_policy_metrics ops) = of_nat (count_of (\<lambda>x. x = IncHealthChecks) ops)"
proof (induction ops rule: rev_induct)
  case Nil
  show ?case by (simp add: run_policy_metrics_def policy_metrics_default_def)
next
  case (snoc op ops)
  then show ?case
    by (cases op) (simp_all add: run_policy_metrics_snoc policy_metric_defs)
qed

lemma policy_latency_sum:
  "evaluate_latency_sum_us (run_policy_metrics ops) = sum_list (List.map_filter policy_op_latency ops)"
proof (induction ops rule: rev_induct)
  case Nil
  then show ?case
    by (simp add: run_policy_metrics_def policy_metrics_default_def List.map_filter_def)
next
  case (snoc op ops)
  then show ?case
    by (cases op) (simp_all add: run_policy_metrics_def policy_metric_defs List.map_filter_def)
qed

text \<open>
  C20: Whatever order the counter operations of the policy engine run in, the exported numbers are
  right as long as fewer than \<open>2 ^ 64\<close> operations ran: each counter is the number of its increments,
  the \<open>le\<close> bucket of each boundary is the number of recorded latencies at or below it, and the
  \<open>+Inf\<close> bucket and the count are the number of recorded latencies.
\<close>

theorem policy_metrics_exact:
  assumes "length ops < 2 ^ 64"
  shows "let m = run_policy_metrics ops; latencies = List.map_filter policy_op_latency ops in
    unat (evaluate_requests_total m) = count_of (\<lambda>x. x = IncEvaluateRequests) ops
    \<and> unat (evaluate_allow_total m) = count_of (\<lambda>x. x = IncAllow) ops
    \<and> unat (evaluate_deny_total m) = count_of (\<lambda>x. x = IncDeny) ops
    \<and> unat (health_checks_total m) = count_of (\<lambda>x. x = IncHealthChecks) ops
    \<and> unat (evaluate_latency_count m) = length latencies
    \<and> map unat (cumulative 0 (evaluate_latency_bucket_counts m))
      = map (\<lambda>b. count_of (\<lambda>v. v \<le> b) latencies) LATENCY_BUCKETS_US"
proof -
  let ?l = "policy_hist.recorded ops"
  have rec: "List.map_filter policy_op_latency ops = ?l"
    by (simp add: policy_hist.recorded_def)
  have lt: "count_of P ops < 2 ^ 64" for P
    using assms le_less_trans [OF count_of_le] by blast
  have len: "length ?l < 2 ^ 64"
    using assms policy_hist.length_recorded [of ops] by linarith
  then have lt2: "count_of P ?l < 2 ^ 64" for P
    using le_less_trans [OF count_of_le] by blast
  have "map unat (cumulative 0 (evaluate_latency_bucket_counts (run_policy_metrics ops)))
      = map (\<lambda>b. count_of (\<lambda>v. v \<le> b) ?l) LATENCY_BUCKETS_US"
    using policy_hist.cumulative_exact [OF len]
    by (simp only: run_policy_metrics_hist list.map_comp comp_def unat_of_nat_u64 [OF lt2])
  moreover have "unat (evaluate_latency_count (run_policy_metrics ops)) = length ?l"
    by (simp only: run_policy_metrics_hist policy_hist.total_run unat_of_nat_u64 [OF len])
  ultimately show ?thesis
    by (simp only: Let_def rec policy_counters unat_of_nat_u64 [OF lt] simp_thms)
qed

theorem policy_metrics_exact_witness:
  "map unat (cumulative 0 (evaluate_latency_bucket_counts (run_policy_metrics
      [IncAllow, ObserveEvaluateLatency 1200000, ObserveEvaluateLatency 99000])))
    = [1, 1, 1, 1, 2, 2, 2, 2, 2, 2]"
  using policy_metrics_exact [of "[IncAllow, ObserveEvaluateLatency 1200000, ObserveEvaluateLatency 99000]"]
  by (simp add: List.map_filter_def LATENCY_BUCKETS_US_def clamp_u64_def Let_def)

end
