(* ===== verification/Policy_Service.thy ===== *)
theory Policy_Service
  imports Policy_Engine Policy_Metrics
begin

text \<open>
  The policy engine as a service: \<^verbatim>\<open>services/policy-engine/src/loader.rs\<close>, \<^verbatim>\<open>reload.rs\<close> (the shared
  policy and the polling task), \<^verbatim>\<open>grpc.rs\<close> (the evaluation and health handlers) and the start of
  \<^verbatim>\<open>main.rs\<close>. The YAML parser, the header decoding of tonic and the parser of socket addresses are
  parameters; a file system is a map from paths to files with their modification time.
\<close>

section \<open>Loading\<close>

record file_view =
  fv_modified :: "nat option"
  fv_content :: string

type_synonym file_system = "string \<Rightarrow> file_view option"

definition load_policy_document ::
  "(string \<Rightarrow> 'y + policy_document) \<Rightarrow> file_system \<Rightarrow> string \<Rightarrow> string + policy_document" where
  "load_policy_document from_yaml fs path =
     and_then (map_err (\<lambda>_. ''failed to read policy file at '' @ path) (ok_or () (map_option fv_content (fs path))))
       (\<lambda>content. map_err (\<lambda>_. ''failed to parse policy YAML at '' @ path) (from_yaml content))"

definition file_modified_time :: "file_system \<Rightarrow> string \<Rightarrow> nat option" where
  "file_modified_time fs path = Option.bind (fs path) fv_modified"

section \<open>The state of the service\<close>

datatype policy_log =
    PolicyRequestEvaluated string string string string string string string
  | SubjectNotWorkloadId string string
  | HealthCheckResponded string string string
  | PolicyFileChanged string
  | PolicyReloaded string nat
  | PolicyReloadFailed string

record policy_service =
  svc_shared :: policy_document
  svc_metrics :: policy_metrics_cell
  svc_log :: "policy_log list"

definition policy_current :: "policy_service \<Rightarrow> policy_document" where
  "policy_current svc = svc_shared svc"

definition policy_swap :: "policy_document \<Rightarrow> policy_service \<Rightarrow> policy_service" where
  "policy_swap policy svc = svc\<lparr>svc_shared := policy\<rparr>"

definition svc_note :: "policy_log \<Rightarrow> policy_service \<Rightarrow> policy_service" where
  "svc_note l svc = svc\<lparr>svc_log := svc_log svc @ [l]\<rparr>"

definition svc_metric ::
  "(policy_engine_metrics \<Rightarrow> policy_engine_metrics) \<Rightarrow> policy_service \<Rightarrow> policy_service" where
  "svc_metric f svc = svc\<lparr>svc_metrics := with_policy_metrics f (svc_metrics svc)\<rparr>"

section \<open>Polling\<close>

text \<open>
  One iteration of the loop of \<open>poll_and_reload\<close>. The modification time and the content are read by
  separate calls, so the two file systems they see are separate arguments.
\<close>

definition poll_step ::
  "(string \<Rightarrow> 'y + policy_document) \<Rightarrow> string \<Rightarrow> file_system \<Rightarrow> file_system
     \<Rightarrow> nat option \<times> policy_service \<Rightarrow> nat option \<times> policy_service" where
  "poll_step from_yaml path fs_meta fs_read st =
     (case st of (last_modified, svc) \<Rightarrow>
       let current_modified = file_modified_time fs_meta path in
       if current_modified = last_modified then (last_modified, svc)
       else
         let svc1 = svc_note (PolicyFileChanged path) svc in
         (case load_policy_document from_yaml fs_read path of
            Inr policy \<Rightarrow>
              let rules = length (doc_rules policy);
                  svc2 = policy_swap policy svc1;
                  svc3 = svc2\<lparr>svc_metrics := try_with_policy_metrics (set_rules_loaded rules) (svc_metrics svc2)\<rparr>
              in (current_modified, svc_note (PolicyReloaded (doc_version policy) rules) svc3)
          | Inl err \<Rightarrow> (last_modified, svc_note (PolicyReloadFailed err) svc1)))"

text \<open>
  The first \<open>n\<close> iterations over a sequence of samples of the file system: sample 0 is read before the
  loop, iteration \<open>i\<close> reads samples \<open>2 * i + 1\<close> and \<open>2 * i + 2\<close>.
\<close>

fun poll_and_reload ::
  "(string \<Rightarrow> 'y + policy_document) \<Rightarrow> string \<Rightarrow> (nat \<Rightarrow> file_system) \<Rightarrow> policy_service \<Rightarrow> nat
     \<Rightarrow> nat option \<times> policy_service" where
  "poll_and_reload from_yaml path fs svc 0 = (file_modified_time (fs 0) path, svc)"
| "poll_and_reload from_yaml path fs svc (Suc i) =
     poll_step from_yaml path (fs (2 * i + 1)) (fs (2 * i + 2)) (poll_and_reload from_yaml path fs svc i)"

section \<open>The gRPC handlers\<close>

record grpc_evaluate_request =
  geq_metadata :: "string \<Rightarrow> string option"
  geq_subject :: string
  geq_action :: string
  geq_resource :: string

record grpc_evaluate_response =
  ger_effect :: string
  ger_reason :: string
  ger_rule_id :: string

record grpc_health_request =
  ghq_metadata :: "string \<Rightarrow> string option"
  ghq_service :: string

record grpc_health_response =
  ghr_status :: string
  ghr_detail :: string

definition metadata_value ::
  "(string \<Rightarrow> string option) \<Rightarrow> (string \<Rightarrow> string option) \<Rightarrow> string \<Rightarrow> string option" where
  "metadata_value to_str metadata key = Option.bind (metadata key) to_str"

definition unwrap_or :: "'a \<Rightarrow> 'a option \<Rightarrow> 'a" where
  "unwrap_or d opt = (case opt of None \<Rightarrow> d | Some x \<Rightarrow> x)"

fun effect_text :: "decision_effect \<Rightarrow> string" where
  "effect_text DecisionAllow = ''allow''"
| "effect_text DecisionDeny = ''deny''"

definition map_decision_fields :: "policy_decision \<Rightarrow> string \<times> string \<times> string" where
  "map_decision_fields decision =
     (let effect = effect_text (dec_effect decision) in
      case dec_reason decision of
        MatchedAllow rule_id \<Rightarrow> (effect, ''allowed by matching rule'', rule_id)
      | MatchedDeny rule_id \<Rightarrow> (effect, ''denied by matching rule'', rule_id)
      | NoMatch \<Rightarrow> (effect, ''denied by default because no matching rule was found'', []))"

definition grpc_evaluate ::
  "(string \<Rightarrow> string option) \<Rightarrow> nat \<Rightarrow> grpc_evaluate_request \<Rightarrow> policy_service
     \<Rightarrow> grpc_evaluate_response \<times> policy_service" where
  "grpc_evaluate to_str elapsed request svc =
     (let svc1 = svc_metric inc_evaluate_requests svc;
          request_id = metadata_value to_str (geq_metadata request) ''x-request-id'';
          correlation_id = metadata_value to_str (geq_metadata request) ''x-correlation-id'';
          input = \<lparr>rq_subject = geq_subject request, rq_action = geq_action request,
                   rq_resource = geq_resource request\<rparr>;
          svc2 = (case validate_subject (rq_subject input) of
                    Inl reason \<Rightarrow> svc_note (SubjectNotWorkloadId (rq_subject input) reason) svc1
                  | Inr _ \<Rightarrow> svc1);
          decision = evaluate_policy (policy_current svc2) input
      in case map_decision_fields decision of (effect, reason, rule_id) \<Rightarrow>
        let svc3 = (if effect = ''allow'' then svc_metric inc_allow svc2 else svc_metric inc_deny svc2);
            svc4 = svc_metric (observe_evaluate_latency elapsed) svc3
        in (\<lparr>ger_effect = effect, ger_reason = reason, ger_rule_id = rule_id\<rparr>,
            svc_note (PolicyRequestEvaluated (unwrap_or ''missing'' request_id)
                (unwrap_or ''missing'' correlation_id) (rq_subject input) (rq_action input)
                (rq_resource input) effect rule_id) svc4))"

definition grpc_check ::
  "(string \<Rightarrow> string option) \<Rightarrow> grpc_health_request \<Rightarrow> policy_service
     \<Rightarrow> grpc_health_response \<times> policy_service" where
  "grpc_check to_str request svc =
     (let svc1 = svc_metric inc_health_checks svc;
          request_id = metadata_value to_str (ghq_metadata request) ''x-request-id'';
          correlation_id = metadata_value to_str (ghq_metadata request) ''x-correlation-id'';
          service = (if ghq_service request = [] then ''policy-engine'' else ghq_service request)
      in (\<lparr>ghr_status = ''SERVING'', ghr_detail = service @ '' ready''\<rparr>,
          svc_note (HealthCheckResponded (unwrap_or ''missing'' request_id)
              (unwrap_or ''missing'' correlation_id) service) svc1))"

section \<open>Start-up\<close>

record 'addr policy_config =
  pc_policy_path :: string
  pc_listen_addr :: 'addr
  pc_metrics_listen_addr :: 'addr
  pc_reload_interval_secs :: nat

definition policy_reload_interval :: "(string \<Rightarrow> string option) \<Rightarrow> nat" where
  "policy_reload_interval env =
     unwrap_or 5 (Option.bind (env ''LLMOS_POLICY_RELOAD_INTERVAL_SECS'') parse_u64)"

text \<open>
  \<open>main\<close> up to the point where the servers run: the policy is loaded first, and the service is built
  on it; \<open>?\<close> on a failing step ends the process with the error.
\<close>

definition policy_engine_main ::
  "(string \<Rightarrow> 'y + policy_document) \<Rightarrow> (string \<Rightarrow> string + 'addr) \<Rightarrow> (string \<Rightarrow> string option)
     \<Rightarrow> file_system \<Rightarrow> string + 'addr policy_config \<times> policy_service" where
  "policy_engine_main from_yaml parse_addr env fs =
     (let policy_path = unwrap_or ''config/policy.example.yaml'' (env ''LLMOS_POLICY_PATH'') in
      and_then (load_policy_document from_yaml fs policy_path) (\<lambda>policy.
      and_then (parse_addr (unwrap_or ''127.0.0.1:50051'' (env ''LLMOS_POLICY_LISTEN''))) (\<lambda>listen.
      and_then (parse_addr (unwrap_or ''127.0.0.1:9091'' (env ''LLMOS_POLICY_METRICS_LISTEN''))) (\<lambda>metrics_listen.
        Inr (\<lparr>pc_policy_path = policy_path, pc_listen_addr = listen,
              pc_metrics_listen_addr = metrics_listen,
              pc_reload_interval_secs = policy_reload_interval env\<rparr>,
             \<lparr>svc_shared = policy,
              svc_metrics = init_policy_metrics
                (set_rules_loaded (length (doc_rules policy)) policy_metrics_default) None,
              svc_log = []\<rparr>)))))"

lemmas svc_defs = policy_current_def policy_swap_def svc_note_def svc_metric_def
  with_policy_metrics_def try_with_policy_metrics_def policy_metrics_handle_def

section \<open>Reloading\<close>

lemma poll_step_shared:
  "svc_shared (snd (poll_step from_yaml path fs_meta fs_read (lm, svc))) =
     (if file_modified_time fs_meta path = lm then svc_shared svc
      else case load_policy_document from_yaml fs_read path of Inr p \<Rightarrow> p | Inl _ \<Rightarrow> svc_shared svc)"
  by (simp add: poll_step_def svc_defs Let_def split: sum.splits)

lemma poll_step_modified:
  "fst (poll_step from_yaml path fs_meta fs_read (lm, svc)) =
     (if file_modified_time fs_meta path = lm then lm
      else case load_policy_document from_yaml fs_read path of
        Inr p \<Rightarrow> file_modified_time fs_meta path | Inl _ \<Rightarrow> lm)"
  by (simp add: poll_step_def svc_defs Let_def split: sum.splits)

lemma poll_step_metrics:
  assumes "load_policy_document from_yaml fs_read path = Inl err"
  shows "svc_metrics (snd (poll_step from_yaml path fs_meta fs_read (lm, svc))) = svc_metrics svc"
  using assms by (simp add: poll_step_def svc_note_def Let_def)

text \<open>
  Polling never installs anything but a policy that loaded: after any iteration the shared policy
  is the old one or the document just loaded, and when the load fails the old policy, the recorded
  modification time and the metrics all stay, so that the next iteration retries.
\<close>

theorem poll_step_keeps_or_installs:
  "(case load_policy_document from_yaml fs_read path of
      Inl err \<Rightarrow>
        fst (poll_step from_yaml path fs_meta fs_read (lm, svc)) = lm
        \<and> svc_shared (snd (poll_step from_yaml path fs_meta fs_read (lm, svc))) = svc_shared svc
        \<and> svc_metrics (snd (poll_step from_yaml path fs_meta fs_read (lm, svc))) = svc_metrics svc
    | Inr policy \<Rightarrow>
        svc_shared (snd (poll_step from_yaml path fs_meta fs_read (lm, svc)))
          = (if file_modified_time fs_meta path = lm then svc_shared svc else policy)
        \<and> fst (poll_step from_yaml path fs_meta fs_read (lm, svc)) = file_modified_time fs_meta path)"
proof (cases "load_policy_document from_yaml fs_read path")
  case (Inl err)
  then show ?thesis
    by (simp add: poll_step_shared poll_step_modified poll_step_metrics)
next
  case (Inr policy)
  then show ?thesis
    by (simp add: poll_step_shared poll_step_modified)
qed

text \<open>
  What the polling task relies on: modification times never go back, two samples with the same time
  hold the same content, and a file that is there has a time.
\<close>

definition mtime_tracks_content :: "string \<Rightarrow> (nat \<Rightarrow> file_system) \<Rightarrow> bool" where
  "mtime_tracks_content path fs \<longleftrightarrow>
     (\<forall>a b v w s t. a \<le> b \<longrightarrow> fs a path = Some v \<longrightarrow> fs b path = Some w \<longrightarrow>
        fv_modified v = Some s \<longrightarrow> fv_modified w = Some t \<longrightarrow> s \<le> t \<and> (s = t \<longrightarrow> fv_content v = fv_content w))
     \<and> (\<forall>a v. fs a path = Some v \<longrightarrow> fv_modified v \<noteq> None)"

lemma mtime_tracks_contentD:
  assumes "mtime_tracks_content path fs" "a \<le> b" "fs a path = Some v" "fs b path = Some w"
    and "fv_modified v = Some s" "fv_modified w = Some t"
  shows "s \<le> t" and "s = t \<Longrightarrow> fv_content v = fv_content w"
  using assms(1) [unfolded mtime_tracks_content_def, THEN conjunct1, rule_format, OF assms(2-6)]
  by auto

lemma mtime_present:
  assumes "mtime_tracks_content path fs" "fs a path = Some v"
  obtains s where "fv_modified v = Some s"
  using assms(1) [unfolded mtime_tracks_content_def, THEN conjunct2, rule_format, OF assms(2)] by auto

lemma mtime_between:
  assumes track: "mtime_tracks_content path fs" and le: "a \<le> b" "b \<le> c"
    and eq: "file_modified_time (fs a) path = file_modified_time (fs c) path"
    and v: "fs b path = Some v" and w: "fs c path = Some w"
  shows "fv_content v = fv_content w"
proof -
  obtain s where s: "fv_modified v = Some s"
    by (rule mtime_present [OF track v])
  obtain t where t: "fv_modified w = Some t"
    by (rule mtime_present [OF track w])
  have "file_modified_time (fs a) path = Some t"
    using eq w t by (simp add: file_modified_time_def)
  then obtain u where u: "fs a path = Some u" "fv_modified u = Some t"
    by (auto simp: file_modified_time_def bind_eq_Some_conv)
  have "t \<le> s"
    by (rule mtime_tracks_contentD(1) [OF track le(1) u(1) v u(2) s])
  moreover have "s \<le> t"
    by (rule mtime_tracks_contentD(1) [OF track le(2) v w s t])
  ultimately show ?thesis
    by (intro mtime_tracks_contentD(2) [OF track le(2) v w s t]) simp
qed

lemma load_Inr_present:
  "load_policy_document from_yaml fs path = Inr p \<Longrightarrow>
    \<exists>v. fs path = Some v \<and> map_err (\<lambda>_. ''failed to parse policy YAML at '' @ path) (from_yaml (fv_content v)) = Inr p"
  by (auto simp: load_policy_document_def result_simps)

text \<open>
  The invariant of the loop: the recorded time was read no later than the content of the shared
  policy.
\<close>

lemma poll_invariant:
  assumes "load_policy_document from_yaml (fs 0) path = Inr (svc_shared svc)"
  shows "\<exists>j k. j \<le> k \<and> k \<le> 2 * i
    \<and> fst (poll_and_reload from_yaml path fs svc i) = file_modified_time (fs j) path
    \<and> load_policy_document from_yaml (fs k) path = Inr (svc_shared (snd (poll_and_reload from_yaml path fs svc i)))"
proof (induction i)
  case 0
  with assms show ?case by auto
next
  case (Suc i)
  obtain lm svc' where st: "poll_and_reload from_yaml path fs svc i = (lm, svc')"
    by (meson surj_pair)
  from Suc.IH obtain j k where jk: "j \<le> k" "k \<le> 2 * i" "lm = file_modified_time (fs j) path"
    "load_policy_document from_yaml (fs k) path = Inr (svc_shared svc')"
    by (auto simp: st)
  let ?new = "poll_step from_yaml path (fs (2 * i + 1)) (fs (2 * i + 2)) (lm, svc')"
  show ?case
  proof (cases "file_modified_time (fs (2 * i + 1)) path \<noteq> lm
      \<and> is_ok (load_policy_document from_yaml (fs (2 * i + 2)) path)")
    case True
    then obtain p where "load_policy_document from_yaml (fs (2 * i + 2)) path = Inr p"
      by (auto simp: is_ok_iff)
    with True have "fst ?new = file_modified_time (fs (2 * i + 1)) path"
      and "load_policy_document from_yaml (fs (2 * i + 2)) path = Inr (svc_shared (snd ?new))"
      by (simp_all add: poll_step_modified poll_step_shared)
    then show ?thesis
      by (intro exI [of _ "2 * i + 1"] exI [of _ "2 * i + 2"]) (simp add: st)
  next
    case False
    then have "fst ?new = lm" and "svc_shared (snd ?new) = svc_shared svc'"
      by (auto simp: poll_step_modified poll_step_shared split: sum.splits)
    with jk show ?thesis
      by (intro exI [of _ j] exI [of _ k]) (simp add: st)
  qed
qed

text \<open>
  C14: The reload task converges, races between reading the time and reading the content included:
  when modification times track the content, the policy at start is the one of the sample whose time
  the task records first, and the file holds a loadable document from some sample on, every iteration
  after that sample leaves exactly that document as the shared policy.
\<close>

theorem poll_and_reload_converges:
  assumes "mtime_tracks_content path fs"
    and "load_policy_document from_yaml (fs 0) path = Inr (svc_shared svc)"
    and "\<forall>n\<ge>N. fs n path = Some v"
    and "from_yaml (fv_content v) = Inr policy"
    and "N \<le> 2 * i + 1"
  shows "svc_shared (snd (poll_and_reload from_yaml path fs svc (Suc i))) = policy"
proof -
  obtain lm svc' where st: "poll_and_reload from_yaml path fs svc i = (lm, svc')"
    by (meson surj_pair)
  obtain j k where jk: "j \<le> k" "k \<le> 2 * i" "lm = file_modified_time (fs j) path"
    and ld: "load_policy_document from_yaml (fs k) path = Inr (svc_shared svc')"
    using poll_invariant [where fs = fs, OF assms(2), of i] by (auto simp: st)
  have v: "fs (2 * i + 1) path = Some v" "fs (2 * i + 2) path = Some v"
    using assms(3,5) by auto
  have new: "load_policy_document from_yaml (fs n) path = Inr policy" if "fs n path = Some v" for n
    using that assms(4) by (simp add: load_policy_document_def)
  show ?thesis
  proof (cases "file_modified_time (fs (2 * i + 1)) path = lm")
    case False
    then show ?thesis
      using new [OF v(2)] by (simp add: st poll_step_shared)
  next
    case True
    obtain w where w: "fs k path = Some w"
      using load_Inr_present [OF ld] by blast
    have "fv_content w = fv_content v"
      using mtime_between [OF assms(1) jk(1) _ _ w v(1)] jk(2,3) True by simp
    then have "load_policy_document from_yaml (fs k) path = Inr policy"
      using w assms(4) by (simp add: load_policy_document_def)
    with ld True show ?thesis
      by (simp add: st poll_step_shared)
  qed
qed

definition sample_yaml :: "string \<Rightarrow> unit + policy_document" where
  "sample_yaml s = (if s = ''old'' \<or> s = ''new'' then Inr \<lparr>doc_version = s, doc_rules = []\<rparr> else Inl ())"

definition sample_service :: "string \<Rightarrow> policy_service" where
  "sample_service v = \<lparr>svc_shared = \<lparr>doc_version = v, doc_rules = []\<rparr>, svc_metrics = None, svc_log = []\<rparr>"

definition sample_fs :: "nat \<Rightarrow> file_system" where
  "sample_fs n p = (if p = ''p'' then
     Some (if n < 2 then \<lparr>fv_modified = Some 1, fv_content = ''old''\<rparr>
           else \<lparr>fv_modified = Some 2, fv_content = ''new''\<rparr>) else None)"

theorem poll_and_reload_converges_witness:
  "doc_version (svc_shared (snd (poll_and_reload sample_yaml ''p'' sample_fs (sample_service ''old'') 2))) = ''new''"
proof -
  have "mtime_tracks_content ''p'' sample_fs"
    by (auto simp: mtime_tracks_content_def sample_fs_def split: if_splits)
  moreover have "load_policy_document sample_yaml (sample_fs 0) ''p'' = Inr (svc_shared (sample_service ''old''))"
    by code_simp
  moreover have "\<forall>n\<ge>2. sample_fs n ''p'' = Some \<lparr>fv_modified = Some 2, fv_content = ''new''\<rparr>"
    by (simp add: sample_fs_def)
  moreover have "sample_yaml ''new'' = Inr \<lparr>doc_version = ''new'', doc_rules = []\<rparr>"
    by (simp add: sample_yaml_def)
  ultimately have "svc_shared (snd (poll_and_reload sample_yaml ''p'' sample_fs (sample_service ''old'') (Suc 1)))
      = \<lparr>doc_version = ''new'', doc_rules = []\<rparr>"
    by (intro poll_and_reload_converges [where N = 2 and v = "\<lparr>fv_modified = Some 2, fv_content = ''new''\<rparr>"])
      simp_all
  then show ?thesis
    by (simp add: numeral_2_eq_2)
qed

text \<open>
  The policy that \<open>main\<close> serves can be stale for ever: \<open>main\<close> loads the document before the task
  records its first modification time, and when the file changes in between (here from an old to a
  new document), no iteration ever installs the new one although the file holds it throughout.
\<close>

theorem startup_race_serves_stale_policy:
  "\<exists>fs0 fs cfg svc.
     policy_engine_main sample_yaml (\<lambda>a. Inr a) (\<lambda>_. None) fs0 = Inr (cfg, svc)
     \<and> (\<forall>n. load_policy_document sample_yaml (fs n) (pc_policy_path cfg) = Inr \<lparr>doc_version = ''new'', doc_rules = []\<rparr>)
     \<and> (\<forall>i. doc_version (svc_shared (snd (poll_and_reload sample_yaml (pc_policy_path cfg) fs svc i))) = ''old'')"
proof -
  define fs0 :: file_system where "fs0 = (\<lambda>_. Some \<lparr>fv_modified = Some 1, fv_content = ''old''\<rparr>)"
  define fs :: "nat \<Rightarrow> file_system" where "fs = (\<lambda>_ _. Some \<lparr>fv_modified = Some 2, fv_content = ''new''\<rparr>)"
  obtain cfg svc where main: "policy_engine_main sample_yaml (\<lambda>a. Inr a) (\<lambda>_. None) fs0 = Inr (cfg, svc)"
    and old: "doc_version (svc_shared svc) = ''old''"
    by (simp add: policy_engine_main_def load_policy_document_def fs0_def sample_yaml_def Let_def)
  have "poll_and_reload sample_yaml (pc_policy_path cfg) fs svc i = (Some 2, svc)" for i
    by (induction i) (simp_all add: poll_step_def file_modified_time_def fs_def)
  then have "\<forall>i. doc_version (svc_shared (snd (poll_and_reload sample_yaml (pc_policy_path cfg) fs svc i))) = ''old''"
    using old by simp
  moreover have "\<forall>n. load_policy_document sample_yaml (fs n) (pc_policy_path cfg)
      = Inr \<lparr>doc_version = ''new'', doc_rules = []\<rparr>"
    by (simp add: load_policy_document_def fs_def sample_yaml_def)
  ultimately show ?thesis
    using main by blast
qed

section \<open>The handlers\<close>

lemma map_decision_fields_effect:
  "fst (map_decision_fields d) = effect_text (dec_effect d)"
  by (simp add: map_decision_fields_def Let_def split: decision_reason.splits)

lemma effect_text_allow: "effect_text e = ''allow'' \<longleftrightarrow> e = DecisionAllow"
  by (cases e) simp_all

lemma grpc_evaluate_response:
  "fst (grpc_evaluate to_str elapsed request svc) =
     (case map_decision_fields (evaluate_policy (svc_shared svc)
        \<lparr>rq_subject = geq_subject request, rq_action = geq_action request, rq_resource = geq_resource request\<rparr>) of
        (effect, reason, rule_id) \<Rightarrow> \<lparr>ger_effect = effect, ger_reason = reason, ger_rule_id = rule_id\<rparr>)"
  by (simp add: grpc_evaluate_def svc_defs Let_def split: prod.splits sum.splits)

lemma grpc_evaluate_shared: "svc_shared (snd (grpc_evaluate to_str elapsed request svc)) = svc_shared svc"
  by (simp add: grpc_evaluate_def svc_defs Let_def split: prod.splits sum.splits)

lemma grpc_evaluate_metrics:
  "svc_metrics (snd (grpc_evaluate to_str elapsed request svc)) =
     Some (observe_evaluate_latency elapsed
       ((if ger_effect (fst (grpc_evaluate to_str elapsed request svc)) = ''allow'' then inc_allow else inc_deny)
         (inc_evaluate_requests (policy_metrics_handle (svc_metrics svc)))))"
  by (simp add: grpc_evaluate_def svc_defs Let_def split: prod.splits sum.splits)

text \<open>The events of the service: the handlers and the iterations of the reload task.\<close>

inductive svc_step :: "(nat option \<times> policy_service) \<Rightarrow> (nat option \<times> policy_service) \<Rightarrow> bool" where
  step_evaluate: "svc_step (lm, svc) (lm, snd (grpc_evaluate to_str elapsed request svc))"
| step_check: "svc_step (lm, svc) (lm, snd (grpc_check to_str request svc))"
| step_poll: "svc_step st (poll_step (from_yaml :: string \<Rightarrow> string + policy_document) path fs_meta fs_read st)"

definition metrics_balanced :: "policy_metrics_cell \<Rightarrow> bool" where
  "metrics_balanced cell \<longleftrightarrow>
     (let m = policy_metrics_handle cell in
       evaluate_allow_total m + evaluate_deny_total m = evaluate_requests_total m
       \<and> evaluate_latency_count m = evaluate_requests_total m)"

lemma svc_step_balanced:
  assumes "svc_step st st'" "metrics_balanced (svc_metrics (snd st))"
  shows "metrics_balanced (svc_metrics (snd st'))"
  using assms
proof (induction rule: svc_step.induct)
  case (step_evaluate lm svc to_str elapsed request)
  then show ?case
    by (simp add: metrics_balanced_def grpc_evaluate_metrics policy_metrics_handle_def policy_metric_defs
        algebra_simps split: option.splits)
next
  case (step_check lm svc to_str request)
  then show ?case
    by (simp add: metrics_balanced_def grpc_check_def svc_defs policy_metric_defs split: option.splits)
next
  case (step_poll st from_yaml path fs_meta fs_read)
  then show ?case
    by (cases st) (auto simp: metrics_balanced_def poll_step_def svc_defs policy_metric_defs
        split: option.splits sum.splits)
qed

text \<open>
  In every state the service reaches from the start of \<open>main\<close>, through any sequence of evaluation
  requests, health checks and reload iterations, the allow and deny counters add up to the request
  counter (modulo \<open>2 ^ 64\<close>) and every request has been observed once by the latency histogram.
\<close>

theorem service_metrics_balanced:
  assumes "policy_engine_main from_yaml parse_addr env fs = Inr (cfg, svc)"
    and "svc_step\<^sup>*\<^sup>* (lm, svc) st"
  shows "metrics_balanced (svc_metrics (snd st))"
proof -
  have "metrics_balanced (svc_metrics svc)"
    using assms(1)
    by (auto simp: policy_engine_main_def result_simps metrics_balanced_def init_policy_metrics_def
        policy_metrics_handle_def policy_metrics_default_def set_rules_loaded_def Let_def)
  with assms(2) show ?thesis
    by (induction rule: rtranclp_induct) (auto intro: svc_step_balanced)
qed

theorem service_metrics_balanced_witness:
  "metrics_balanced (svc_metrics (snd (grpc_evaluate Some 7
     \<lparr>geq_metadata = (\<lambda>_. None), geq_subject = ''a/b'', geq_action = ''x'', geq_resource = ''y''\<rparr>
     \<lparr>svc_shared = \<lparr>doc_version = ''old'', doc_rules = []\<rparr>,
      svc_metrics = Some (set_rules_loaded 0 policy_metrics_default), svc_log = []\<rparr>)))"
proof -
  let ?svc = "\<lparr>svc_shared = \<lparr>doc_version = ''old'', doc_rules = []\<rparr>,
      svc_metrics = Some (set_rules_loaded 0 policy_metrics_default), svc_log = []\<rparr>"
  let ?q = "\<lparr>geq_metadata = (\<lambda>_. None), geq_subject = ''a/b'', geq_action = ''x'', geq_resource = ''y''\<rparr>"
  have main: "policy_engine_main sample_yaml (\<lambda>a. Inr a :: string + string) (\<lambda>_. None)
      (\<lambda>_. Some \<lparr>fv_modified = None, fv_content = ''old''\<rparr>)
    = Inr (\<lparr>pc_policy_path = ''config/policy.example.yaml'', pc_listen_addr = ''127.0.0.1:50051'',
        pc_metrics_listen_addr = ''127.0.0.1:9091'', pc_reload_interval_secs = 5\<rparr>, ?svc)"
    by (simp add: policy_engine_main_def load_policy_document_def sample_yaml_def unwrap_or_def
        policy_reload_interval_def init_policy_metrics_def Let_def)
  have "svc_step\<^sup>*\<^sup>* (None, ?svc) (None, snd (grpc_evaluate Some 7 ?q ?svc))"
    by (intro r_into_rtranclp step_evaluate)
  from service_metrics_balanced [OF main this] show ?thesis
    by simp
qed


end
