(* ===== verification/Policy_Client.thy ===== *)
theory Policy_Client
  imports Common_Types Runtime_Metrics Policy_Service
begin

text \<open>
  \<open>GrpcPolicyDecisionClient\<close> of \<^verbatim>\<open>services/llmd/src/lib.rs\<close>: the policy client with its retries, its
  exponential back-off and its circuit breaker. The world outside the client is a \<open>client_io\<close>: the
  clock (the value of each reading, in nanoseconds), the answer to each remote call, and what tonic
  decides of header values and status texts. A \<open>Duration\<close> is a number of nanoseconds.
\<close>

section \<open>The client and its world\<close>

record grpc_policy_client =
  timeout_per_attempt :: nat
  max_attempts :: nat
  initial_backoff :: nat
  max_backoff :: nat
  circuit_breaker_threshold :: u32
  circuit_breaker_cooldown :: nat
  consecutive_failures :: u32
  circuit_open_until :: "nat option"

record grpc_policy_client_config =
  cfg_timeout_per_attempt :: nat
  cfg_max_attempts :: nat
  cfg_initial_backoff :: nat
  cfg_max_backoff :: nat
  cfg_circuit_breaker_threshold :: u32
  cfg_circuit_breaker_cooldown :: nat

definition from_secs :: "nat \<Rightarrow> nat" where
  "from_secs s = s * 10 ^ 9"

definition from_millis :: "nat \<Rightarrow> nat" where
  "from_millis ms = ms * 10 ^ 6"

definition as_millis :: "nat \<Rightarrow> nat" where
  "as_millis d = d div 10 ^ 6"

definition grpc_policy_client_config_default :: grpc_policy_client_config where
  "grpc_policy_client_config_default = \<lparr>cfg_timeout_per_attempt = from_secs 2, cfg_max_attempts = 3,
     cfg_initial_backoff = from_millis 100, cfg_max_backoff = from_secs 1,
     cfg_circuit_breaker_threshold = 3, cfg_circuit_breaker_cooldown = from_secs 5\<rparr>"

text \<open>\<open>connect_with_config\<close> once the channel is connected.\<close>

definition connect_with_config :: "grpc_policy_client_config \<Rightarrow> grpc_policy_client" where
  "connect_with_config config =
     \<lparr>timeout_per_attempt = cfg_timeout_per_attempt config,
      max_attempts = max (cfg_max_attempts config) 1,
      initial_backoff = cfg_initial_backoff config,
      max_backoff = cfg_max_backoff config,
      circuit_breaker_threshold = max (cfg_circuit_breaker_threshold config) 1,
      circuit_breaker_cooldown = cfg_circuit_breaker_cooldown config,
      consecutive_failures = 0,
      circuit_open_until = None\<rparr>"

definition client_connect :: "nat \<Rightarrow> grpc_policy_client" where
  "client_connect timeout = connect_with_config (grpc_policy_client_config_default\<lparr>cfg_timeout_per_attempt := timeout\<rparr>)"

text \<open>
  A status code of gRPC is its number, 4 for \<open>DeadlineExceeded\<close> and 14 for \<open>Unavailable\<close>.
  \<open>RpcElapsed\<close> is the \<open>Err\<close> of \<open>tokio::time::timeout\<close>.
\<close>

datatype rpc_result = RpcResponse grpc_evaluate_response | RpcStatus nat string | RpcElapsed

datatype client_event = RpcSent nat grpc_evaluate_request | Slept nat

record client_io =
  io_clock :: "nat \<Rightarrow> nat"
  io_rpc :: "nat \<Rightarrow> grpc_evaluate_request \<Rightarrow> rpc_result"
  io_metadata_ok :: "string \<Rightarrow> bool"
  io_code_text :: "nat \<Rightarrow> string"

record client_world =
  cw_client :: grpc_policy_client
  cw_metrics :: runtime_metrics_cell
  cw_reads :: nat
  cw_trace :: "client_event list"

definition client_metric :: "(runtime_metrics \<Rightarrow> runtime_metrics) \<Rightarrow> client_world \<Rightarrow> client_world" where
  "client_metric f w = w\<lparr>cw_metrics := with_runtime_metrics f (cw_metrics w)\<rparr>"

definition instant_now :: "client_io \<Rightarrow> client_world \<Rightarrow> nat \<times> client_world" where
  "instant_now io w = (io_clock io (cw_reads w), w\<lparr>cw_reads := cw_reads w + 1\<rparr>)"

definition rpcs_sent :: "client_event list \<Rightarrow> nat" where
  "rpcs_sent tr = count_of (\<lambda>e. case e of RpcSent _ _ \<Rightarrow> True | Slept _ \<Rightarrow> False) tr"

section \<open>Requests and decisions on the wire\<close>

definition build_grpc_request :: "client_io \<Rightarrow> action_request \<Rightarrow> llmos_error + grpc_evaluate_request" where
  "build_grpc_request io request =
     (if \<not> io_metadata_ok io (ar_request_id request)
      then Inl (PolicyUnavailable ''request_id contains invalid metadata characters'')
      else if \<not> io_metadata_ok io (ar_correlation_id request)
      then Inl (PolicyUnavailable ''correlation_id contains invalid metadata characters'')
      else Inr \<lparr>geq_metadata = [''x-request-id'' \<mapsto> ar_request_id request,
                                ''x-correlation-id'' \<mapsto> ar_correlation_id request],
                geq_subject = ar_subject request, geq_action = ar_action request,
                geq_resource = ar_resource request\<rparr>)"

definition map_grpc_decision :: "action_request \<Rightarrow> grpc_evaluate_response \<Rightarrow> policy_decision_record" where
  "map_grpc_decision request response =
     \<lparr>pd_version = ar_version request,
      pd_effect = (if ger_effect response = ''allow'' then PolicyAllow else PolicyDeny),
      pd_reason = ger_reason response,
      pd_rule_id = (if ger_rule_id response = [] then None else Some (ger_rule_id response))\<rparr>"

definition is_retryable_status :: "nat \<Rightarrow> bool" where
  "is_retryable_status code \<longleftrightarrow> code = 14 \<or> code = 4"

text \<open>\<open>1u32.checked_shl(n)\<close> is \<open>None\<close> from \<open>n = 32\<close> on; the \<open>u128\<close> product saturates; \<open>as u64\<close> truncates.\<close>

definition checked_shl_1 :: "nat \<Rightarrow> u32 option" where
  "checked_shl_1 n = (if n < 32 then Some (push_bit n 1) else None)"

definition backoff_for_attempt :: "nat \<Rightarrow> nat \<Rightarrow> nat \<Rightarrow> nat" where
  "backoff_for_attempt attempt initial max_d =
     (let multiplier = unat (unwrap_or (- 1) (checked_shl_1 (min (attempt - 1) 30)));
          raw_ms = min (min (as_millis initial * multiplier) (2 ^ 128 - 1)) (as_millis max_d)
      in from_millis (raw_ms mod 2 ^ 64))"

section \<open>The circuit breaker\<close>

text \<open>\<open>Instant\<close> plus \<open>Duration\<close> panics when the seconds leave 63 bits.\<close>

definition INSTANT_LIMIT :: nat where
  "INSTANT_LIMIT = 2 ^ 63 * 10 ^ 9"

definition fail_if_circuit_open :: "client_io \<Rightarrow> client_world \<Rightarrow> (llmos_error + unit) \<times> client_world" where
  "fail_if_circuit_open io w0 =
     (let w = client_metric (\<lambda>m. m) w0 in
      case circuit_open_until (cw_client w) of
        None \<Rightarrow> (Inr (), w)
      | Some until \<Rightarrow>
          (case instant_now io w of (now, w1) \<Rightarrow>
             if now < until
             then (Inl (PolicyUnavailable ''policy circuit breaker open; failing closed''),
                   client_metric (set_breaker_open True) w1)
             else (Inr (), client_metric (set_breaker_open False)
                     (w1\<lparr>cw_client := (cw_client w1)\<lparr>circuit_open_until := None\<rparr>\<rparr>))))"

definition mark_success :: "client_world \<Rightarrow> client_world" where
  "mark_success w = client_metric (set_breaker_open False)
     (w\<lparr>cw_client := (cw_client w)\<lparr>consecutive_failures := 0, circuit_open_until := None\<rparr>\<rparr>)"

definition saturating_inc :: "u32 \<Rightarrow> u32" where
  "saturating_inc n = (if n = - 1 then n else n + 1)"

definition mark_failure :: "client_io \<Rightarrow> client_world \<Rightarrow> unit outcome \<times> client_world" where
  "mark_failure io w =
     (let w1 = w\<lparr>cw_client := (cw_client w)\<lparr>consecutive_failures := saturating_inc (consecutive_failures (cw_client w))\<rparr>\<rparr>
      in if circuit_breaker_threshold (cw_client w1) \<le> consecutive_failures (cw_client w1)
         then (case instant_now io w1 of (now, w2) \<Rightarrow>
             let until = now + circuit_breaker_cooldown (cw_client w2) in
             if INSTANT_LIMIT \<le> until then (Panic, w2)
             else (Done (), client_metric inc_breaker_open_total (client_metric (set_breaker_open True)
                     (w2\<lparr>cw_client := (cw_client w2)\<lparr>circuit_open_until := Some until\<rparr>\<rparr>))))
         else (Done (), w1))"

section \<open>Evaluation\<close>

type_synonym evaluation = "(llmos_error + policy_decision_record) outcome"

definition observe_elapsed :: "client_io \<Rightarrow> nat \<Rightarrow> client_world \<Rightarrow> client_world" where
  "observe_elapsed io started w =
     (case instant_now io w of (now, w1) \<Rightarrow> client_metric (observe_policy_latency (now - started)) w1)"

definition settle_failure :: "client_io \<Rightarrow> nat \<Rightarrow> string \<Rightarrow> client_world \<Rightarrow> evaluation \<times> client_world" where
  "settle_failure io started message w =
     (case mark_failure io w of
        (Panic, w1) \<Rightarrow> (Panic, w1)
      | (Done _, w1) \<Rightarrow> (Done (Inl (PolicyUnavailable message)), observe_elapsed io started w1))"

text \<open>The end of a call whose last attempt had the given result.\<close>

definition settle ::
  "client_io \<Rightarrow> action_request \<Rightarrow> nat \<Rightarrow> rpc_result \<Rightarrow> client_world \<Rightarrow> evaluation \<times> client_world" where
  "settle io request started result w =
     (case result of
        RpcResponse response \<Rightarrow>
          (Done (Inr (map_grpc_decision request response)), observe_elapsed io started (mark_success w))
      | RpcStatus code message \<Rightarrow>
          settle_failure io started
            (''policy service returned '' @ io_code_text io code @ '': '' @ message) w
      | RpcElapsed \<Rightarrow>
          settle_failure io started ''policy evaluation timed out; denying request by default'' w)"

definition send_rpc :: "grpc_evaluate_request \<Rightarrow> client_world \<Rightarrow> client_world" where
  "send_rpc q w = w\<lparr>cw_trace := cw_trace w @ [RpcSent (timeout_per_attempt (cw_client w)) q]\<rparr>"

definition sleep_backoff :: "nat \<Rightarrow> client_world \<Rightarrow> client_world" where
  "sleep_backoff attempt w =
     w\<lparr>cw_trace := cw_trace w @
        [Slept (backoff_for_attempt attempt (initial_backoff (cw_client w)) (max_backoff (cw_client w)))]\<rparr>"

text \<open>The loop \<open>for attempt in 1..=self.max_attempts\<close> over the list of the attempts left.\<close>

fun evaluate_attempts ::
  "client_io \<Rightarrow> action_request \<Rightarrow> nat \<Rightarrow> nat list \<Rightarrow> client_world \<Rightarrow> evaluation \<times> client_world" where
  "evaluate_attempts io request started [] w =
     settle_failure io started ''policy service failed after retries'' w"
| "evaluate_attempts io request started (attempt # attempts) w =
     (case build_grpc_request io request of
        Inl err \<Rightarrow> (Done (Inl err), w)
      | Inr q \<Rightarrow>
          let result = io_rpc io (rpcs_sent (cw_trace w)) q;
              w1 = send_rpc q w;
              retry = (case result of
                         RpcResponse _ \<Rightarrow> False
                       | RpcStatus code _ \<Rightarrow> is_retryable_status code \<and> attempt < max_attempts (cw_client w1)
                       | RpcElapsed \<Rightarrow> attempt < max_attempts (cw_client w1))
          in if retry
             then evaluate_attempts io request started attempts
                    (sleep_backoff attempt (client_metric inc_policy_retries w1))
             else settle io request started result w1)"

definition client_evaluate :: "client_io \<Rightarrow> action_request \<Rightarrow> client_world \<Rightarrow> evaluation \<times> client_world" where
  "client_evaluate io request w =
     (case instant_now io (client_metric inc_policy_requests w) of (started, w1) \<Rightarrow>
        case fail_if_circuit_open io w1 of
          (Inl err, w2) \<Rightarrow> (Done (Inl err), w2)
        | (Inr _, w2) \<Rightarrow>
            evaluate_attempts io request started [1..<max_attempts (cw_client w2) + 1] w2)"

section \<open>Back-off\<close>

lemma unat_2p_u32: "n < 32 \<Longrightarrow> unat ((2 :: u32) ^ n) = 2 ^ n"
proof -
  assume "n < 32"
  then have "(2 :: nat) ^ n < 2 ^ 32" by (intro power_strict_increasing) simp_all
  moreover have "(2 :: u32) ^ n = of_nat (2 ^ n)" by simp
  ultimately show ?thesis
    by (simp only: unat_of_nat) (simp add: take_bit_nat_eq_self)
qed

lemma checked_shl_1_unat: "n < 32 \<Longrightarrow> unat (unwrap_or (- 1) (checked_shl_1 n)) = 2 ^ n"
  by (simp add: checked_shl_1_def unwrap_or_def unat_2p_u32)

lemma backoff_for_attempt_eq:
  assumes "as_millis max_d < 2 ^ 64" "as_millis initial < 2 ^ 64"
  shows "backoff_for_attempt attempt initial max_d
    = from_millis (min (as_millis initial * 2 ^ min (attempt - 1) 30) (as_millis max_d))"
proof -
  have "as_millis initial * 2 ^ min (attempt - 1) 30 \<le> 2 ^ 64 * 2 ^ 30"
    using assms(2) by (intro mult_mono power_increasing) simp_all
  also have "\<dots> \<le> (2 :: nat) ^ 128 - 1"
    by simp
  finally have "min (as_millis initial * 2 ^ min (attempt - 1) 30) (2 ^ 128 - 1)
      = as_millis initial * 2 ^ min (attempt - 1) 30"
    by (rule min_absorb1)
  moreover have "min (as_millis initial * 2 ^ min (attempt - 1) 30) (as_millis max_d) mod 2 ^ 64
      = min (as_millis initial * 2 ^ min (attempt - 1) 30) (as_millis max_d)"
    using assms(1) by (intro mod_less) (simp add: min_less_iff_disj)
  moreover have "unat (unwrap_or (- 1) (checked_shl_1 (min (attempt - 1) 30))) = 2 ^ min (attempt - 1) 30"
    by (rule checked_shl_1_unat) simp
  ultimately show ?thesis
    unfolding backoff_for_attempt_def Let_def by (simp only:)
qed

text \<open>
  C36: The back-off of attempt \<open>n\<close> is the initial back-off doubled \<open>n - 1\<close> times, capped by the
  maximum, in whole milliseconds: it never exceeds the maximum and never shrinks from one attempt to
  the next, for all durations that fit 64 bits of milliseconds.
\<close>

theorem backoff_exponential_and_capped:
  assumes "as_millis initial < 2 ^ 64" "as_millis max_d < 2 ^ 64"
  shows "backoff_for_attempt attempt initial max_d \<le> max_d
    \<and> backoff_for_attempt attempt initial max_d \<le> backoff_for_attempt (attempt + 1) initial max_d
    \<and> (attempt \<in> {1..31} \<longrightarrow> backoff_for_attempt attempt initial max_d
        = from_millis (min (as_millis initial * 2 ^ (attempt - 1)) (as_millis max_d)))"
proof (intro conjI impI)
  note eq = backoff_for_attempt_eq [OF assms(2,1)]
  have "from_millis (as_millis max_d) \<le> max_d"
    by (simp add: from_millis_def as_millis_def)
  moreover have "from_millis (min a (as_millis max_d)) \<le> from_millis (as_millis max_d)" for a
    by (simp add: from_millis_def)
  ultimately show "backoff_for_attempt attempt initial max_d \<le> max_d"
    unfolding eq using le_trans by blast
  have "as_millis initial * 2 ^ min (attempt - 1) 30 \<le> as_millis initial * 2 ^ min (attempt + 1 - 1) 30"
    by (intro mult_le_mono2 power_increasing) simp_all
  then show "backoff_for_attempt attempt initial max_d \<le> backoff_for_attempt (attempt + 1) initial max_d"
    unfolding eq from_millis_def by (intro mult_le_mono1 min.mono) simp_all
  assume "attempt \<in> {1..31}"
  then have "min (attempt - 1) 30 = attempt - 1"
    by (intro min_absorb1) auto
  then show "backoff_for_attempt attempt initial max_d
      = from_millis (min (as_millis initial * 2 ^ (attempt - 1)) (as_millis max_d))"
    unfolding eq by simp
qed

theorem backoff_exponential_and_capped_witness:
  "backoff_for_attempt 3 (from_millis 100) (from_secs 1) = from_millis 400
   \<and> backoff_for_attempt 5 (from_millis 100) (from_secs 1) \<le> from_secs 1"
  using backoff_exponential_and_capped [of "from_millis 100" "from_secs 1" 3]
    backoff_exponential_and_capped [of "from_millis 100" "from_secs 1" 5]
  by (simp add: as_millis_def from_millis_def from_secs_def)

section \<open>The retry loop\<close>

lemma client_metric_simps [simp]:
  "cw_client (client_metric f w) = cw_client w" "cw_reads (client_metric f w) = cw_reads w"
  "cw_trace (client_metric f w) = cw_trace w"
  "runtime_metrics_handle (cw_metrics (client_metric f w)) = f (runtime_metrics_handle (cw_metrics w))"
  by (simp_all add: client_metric_def)

lemma send_rpc_simps [simp]:
  "cw_client (send_rpc q w) = cw_client w" "cw_reads (send_rpc q w) = cw_reads w"
  "cw_metrics (send_rpc q w) = cw_metrics w"
  "cw_trace (send_rpc q w) = cw_trace w @ [RpcSent (timeout_per_attempt (cw_client w)) q]"
  by (simp_all add: send_rpc_def)

lemma sleep_backoff_simps [simp]:
  "cw_client (sleep_backoff a w) = cw_client w" "cw_reads (sleep_backoff a w) = cw_reads w"
  "cw_metrics (sleep_backoff a w) = cw_metrics w"
  "cw_trace (sleep_backoff a w) = cw_trace w @
     [Slept (backoff_for_attempt a (initial_backoff (cw_client w)) (max_backoff (cw_client w)))]"
  by (simp_all add: sleep_backoff_def)

lemma rpcs_sent_simps [simp]:
  "rpcs_sent [] = 0" "rpcs_sent (xs @ ys) = rpcs_sent xs + rpcs_sent ys"
  "rpcs_sent (RpcSent t q # xs) = Suc (rpcs_sent xs)" "rpcs_sent (Slept d # xs) = rpcs_sent xs"
  by (simp_all add: rpcs_sent_def)

text \<open>The answers after which the loop ends at an attempt.\<close>

definition final_answer :: "nat \<Rightarrow> nat \<Rightarrow> rpc_result \<Rightarrow> bool" where
  "final_answer max_a attempt result \<longleftrightarrow>
     (case result of
        RpcResponse _ \<Rightarrow> True
      | RpcStatus code _ \<Rightarrow> \<not> (is_retryable_status code \<and> attempt < max_a)
      | RpcElapsed \<Rightarrow> \<not> attempt < max_a)"

text \<open>The world after the given attempts were all retried.\<close>

fun retried :: "grpc_evaluate_request \<Rightarrow> nat list \<Rightarrow> client_world \<Rightarrow> client_world" where
  "retried q [] w = w"
| "retried q (a # as) w = retried q as (sleep_backoff a (client_metric inc_policy_retries (send_rpc q w)))"

definition attempt_events :: "grpc_policy_client \<Rightarrow> grpc_evaluate_request \<Rightarrow> nat list \<Rightarrow> client_event list" where
  "attempt_events c q as = concat (map (\<lambda>a. [RpcSent (timeout_per_attempt c) q,
     Slept (backoff_for_attempt a (initial_backoff c) (max_backoff c))]) as)"

lemma retried_simps [simp]:
  "cw_client (retried q as w) = cw_client w" "cw_reads (retried q as w) = cw_reads w"
  "cw_trace (retried q as w) = cw_trace w @ attempt_events (cw_client w) q as"
  by (induction as arbitrary: w) (simp_all add: attempt_events_def)

lemma retried_metrics:
  "policy_breaker_open_state (runtime_metrics_handle (cw_metrics (retried q as w)))
     = policy_breaker_open_state (runtime_metrics_handle (cw_metrics w))
   \<and> policy_requests_total (runtime_metrics_handle (cw_metrics (retried q as w)))
     = policy_requests_total (runtime_metrics_handle (cw_metrics w))
   \<and> policy_retries_total (runtime_metrics_handle (cw_metrics (retried q as w)))
     = policy_retries_total (runtime_metrics_handle (cw_metrics w)) + of_nat (length as)"
  by (induction as arbitrary: w) (simp_all add: runtime_metric_defs)

lemma evaluate_attempts_settles:
  assumes "build_grpc_request io request = Inr q"
    and "a \<le> max_attempts (cw_client w)"
  shows "\<exists>k. a \<le> k \<and> k \<le> max_attempts (cw_client w)
    \<and> (\<forall>j. a \<le> j \<and> j < k \<longrightarrow> \<not> final_answer (max_attempts (cw_client w)) j
          (io_rpc io (rpcs_sent (cw_trace w) + (j - a)) q))
    \<and> final_answer (max_attempts (cw_client w)) k (io_rpc io (rpcs_sent (cw_trace w) + (k - a)) q)
    \<and> evaluate_attempts io request started [a..<max_attempts (cw_client w) + 1] w
      = settle io request started (io_rpc io (rpcs_sent (cw_trace w) + (k - a)) q)
          (send_rpc q (retried q [a..<k] w))"
  using assms(2)
proof (induction "max_attempts (cw_client w) - a" arbitrary: a w)
  case 0
  then have a: "a = max_attempts (cw_client w)" by simp
  then have "final_answer (max_attempts (cw_client w)) a (io_rpc io (rpcs_sent (cw_trace w)) q)"
    by (simp add: final_answer_def split: rpc_result.splits)
  with a assms(1) show ?case
    by (intro exI [of _ a]) (auto simp: Let_def split: rpc_result.splits)
next
  case (Suc d)
  let ?m = "max_attempts (cw_client w)" and ?n = "rpcs_sent (cw_trace w)"
  from Suc.hyps(2) have lt: "a < ?m" by simp
  have cons: "[a..<?m + 1] = a # [Suc a..<?m + 1]"
    using lt by (simp add: upt_conv_Cons)
  show ?case
  proof (cases "final_answer ?m a (io_rpc io ?n q)")
    case True
    with lt have "evaluate_attempts io request started [a..<?m + 1] w
        = settle io request started (io_rpc io ?n q) (send_rpc q w)"
      unfolding cons using assms(1)
      by (auto simp: final_answer_def Let_def split: rpc_result.splits)
    with True lt show ?thesis
      by (intro exI [of _ a]) auto
  next
    case False
    let ?w = "sleep_backoff a (client_metric inc_policy_retries (send_rpc q w))"
    have step: "evaluate_attempts io request started [a..<?m + 1] w
        = evaluate_attempts io request started [Suc a..<?m + 1] ?w"
      unfolding cons using assms(1) False lt
      by (auto simp: final_answer_def Let_def split: rpc_result.splits)
    have "\<exists>k. Suc a \<le> k \<and> k \<le> ?m
      \<and> (\<forall>j. Suc a \<le> j \<and> j < k \<longrightarrow> \<not> final_answer ?m j (io_rpc io (Suc ?n + (j - Suc a)) q))
      \<and> final_answer ?m k (io_rpc io (Suc ?n + (k - Suc a)) q)
      \<and> evaluate_attempts io request started [Suc a..<?m + 1] ?w
        = settle io request started (io_rpc io (Suc ?n + (k - Suc a)) q)
            (send_rpc q (retried q [Suc a..<k] ?w))"
      using Suc.hyps(1) [of ?w "Suc a"] Suc.hyps(2) lt by simp
    then obtain k where k: "Suc a \<le> k" "k \<le> ?m"
      and before: "\<And>j. Suc a \<le> j \<Longrightarrow> j < k \<Longrightarrow> \<not> final_answer ?m j (io_rpc io (Suc ?n + (j - Suc a)) q)"
      and fin: "final_answer ?m k (io_rpc io (Suc ?n + (k - Suc a)) q)"
      and res: "evaluate_attempts io request started [Suc a..<?m + 1] ?w
        = settle io request started (io_rpc io (Suc ?n + (k - Suc a)) q)
            (send_rpc q (retried q [Suc a..<k] ?w))"
      by blast
    have idx: "Suc ?n + (j - Suc a) = ?n + (j - a)" if "Suc a \<le> j" for j
      using that by simp
    have "\<not> final_answer ?m j (io_rpc io (?n + (j - a)) q)" if "a \<le> j" "j < k" for j
    proof (cases "j = a")
      case True
      with False show ?thesis by simp
    next
      case False
      with before [of j] idx [of j] that show ?thesis by simp
    qed
    moreover have "retried q [a..<k] w = retried q [Suc a..<k] ?w"
      using k by (simp add: upt_conv_Cons)
    ultimately show ?thesis
      using k fin res step idx [OF k(1)] by (intro exI [of _ k]) auto
  qed
qed

section \<open>One call\<close>

lemma mark_failure_simps [simp]:
  "cw_trace (snd (mark_failure io w)) = cw_trace w"
  "policy_requests_total (runtime_metrics_handle (cw_metrics (snd (mark_failure io w))))
    = policy_requests_total (runtime_metrics_handle (cw_metrics w))"
  by (simp_all add: mark_failure_def instant_now_def Let_def runtime_metric_defs)

lemma mark_failure_cases:
  obtains (below) "mark_failure io w = (Done (), w\<lparr>cw_client := (cw_client w)\<lparr>consecutive_failures :=
        saturating_inc (consecutive_failures (cw_client w))\<rparr>\<rparr>)"
      "\<not> circuit_breaker_threshold (cw_client w) \<le> saturating_inc (consecutive_failures (cw_client w))"
  | (panics) "fst (mark_failure io w) = Panic"
      "INSTANT_LIMIT \<le> io_clock io (cw_reads w) + circuit_breaker_cooldown (cw_client w)"
  | (opens) "fst (mark_failure io w) = Done ()"
      "circuit_breaker_threshold (cw_client w) \<le> saturating_inc (consecutive_failures (cw_client w))"
      "cw_client (snd (mark_failure io w)) = (cw_client w)\<lparr>consecutive_failures :=
         saturating_inc (consecutive_failures (cw_client w)),
         circuit_open_until := Some (io_clock io (cw_reads w) + circuit_breaker_cooldown (cw_client w))\<rparr>"
      "policy_breaker_open_state (runtime_metrics_handle (cw_metrics (snd (mark_failure io w)))) = 1"
proof -
  have open_state: "policy_breaker_open_state (inc_breaker_open_total (set_breaker_open True m)) = 1" for m
    by (simp add: runtime_metric_defs)
  consider "\<not> circuit_breaker_threshold (cw_client w) \<le> saturating_inc (consecutive_failures (cw_client w))"
    | "circuit_breaker_threshold (cw_client w) \<le> saturating_inc (consecutive_failures (cw_client w))"
      "INSTANT_LIMIT \<le> io_clock io (cw_reads w) + circuit_breaker_cooldown (cw_client w)"
    | "circuit_breaker_threshold (cw_client w) \<le> saturating_inc (consecutive_failures (cw_client w))"
      "\<not> INSTANT_LIMIT \<le> io_clock io (cw_reads w) + circuit_breaker_cooldown (cw_client w)"
    by blast
  then show thesis
  proof cases
    case 1
    then show thesis by (intro below) (simp_all add: mark_failure_def Let_def)
  next
    case 2
    then show thesis by (intro panics) (simp_all add: mark_failure_def Let_def instant_now_def)
  next
    case 3
    then show thesis
      by (intro opens) (simp_all add: mark_failure_def Let_def instant_now_def open_state)
  qed
qed

lemma observe_elapsed_simps [simp]:
  "cw_client (observe_elapsed io started w) = cw_client w"
  "cw_trace (observe_elapsed io started w) = cw_trace w"
  "policy_breaker_open_state (runtime_metrics_handle (cw_metrics (observe_elapsed io started w)))
    = policy_breaker_open_state (runtime_metrics_handle (cw_metrics w))"
  "policy_requests_total (runtime_metrics_handle (cw_metrics (observe_elapsed io started w)))
    = policy_requests_total (runtime_metrics_handle (cw_metrics w))"
  by (simp_all add: observe_elapsed_def instant_now_def runtime_metric_defs)

lemma mark_success_simps [simp]:
  "cw_client (mark_success w) = (cw_client w)\<lparr>consecutive_failures := 0, circuit_open_until := None\<rparr>"
  "cw_trace (mark_success w) = cw_trace w"
  "policy_breaker_open_state (runtime_metrics_handle (cw_metrics (mark_success w))) = 0"
  "policy_requests_total (runtime_metrics_handle (cw_metrics (mark_success w)))
    = policy_requests_total (runtime_metrics_handle (cw_metrics w))"
  by (simp_all add: mark_success_def runtime_metric_defs)

lemma settle_trace [simp]: "cw_trace (snd (settle io request started result w)) = cw_trace w"
  using mark_failure_simps(1) [of io w]
  by (auto simp: settle_def settle_failure_def simp del: mark_failure_simps
      split: rpc_result.splits prod.splits outcome.splits)

text \<open>How a settled call leaves the breaker, by the kind of its last answer.\<close>

definition failed_breaker :: "nat \<Rightarrow> grpc_policy_client \<Rightarrow> grpc_policy_client" where
  "failed_breaker now c = c\<lparr>consecutive_failures := saturating_inc (consecutive_failures c),
     circuit_open_until :=
       (if circuit_breaker_threshold c \<le> saturating_inc (consecutive_failures c)
        then Some (now + circuit_breaker_cooldown c) else None)\<rparr>"

lemma settle_failure_client:
  assumes "settle_failure io started message w = (Done r, w')" "circuit_open_until (cw_client w) = None"
  shows "r = Inl (PolicyUnavailable message)
    \<and> cw_client w' = failed_breaker (io_clock io (cw_reads w)) (cw_client w)
    \<and> policy_breaker_open_state (runtime_metrics_handle (cw_metrics w'))
      = (if circuit_open_until (cw_client w') = None
         then policy_breaker_open_state (runtime_metrics_handle (cw_metrics w)) else 1)"
proof (cases rule: mark_failure_cases [of io w])
  case below
  with assms show ?thesis
    by (auto simp: settle_failure_def failed_breaker_def)
next
  case panics
  with assms show ?thesis
    by (auto simp: settle_failure_def split: prod.splits)
next
  case opens
  with assms show ?thesis
    by (auto simp: settle_failure_def failed_breaker_def split: prod.splits)
qed

lemma settle_no_response:
  assumes "\<nexists>response. result = RpcResponse response"
  obtains message where "settle io request started result w = settle_failure io started message w"
  using assms by (cases result) (auto simp: settle_def)

lemma settle_client:
  assumes "settle io request started result w = (Done r, w')" "circuit_open_until (cw_client w) = None"
  shows "(case result of
      RpcResponse response \<Rightarrow>
        r = Inr (map_grpc_decision request response)
        \<and> cw_client w' = (cw_client w)\<lparr>consecutive_failures := 0, circuit_open_until := None\<rparr>
        \<and> policy_breaker_open_state (runtime_metrics_handle (cw_metrics w')) = 0
    | _ \<Rightarrow> (\<exists>message. r = Inl (PolicyUnavailable message))
        \<and> cw_client w' = failed_breaker (io_clock io (cw_reads w)) (cw_client w)
        \<and> policy_breaker_open_state (runtime_metrics_handle (cw_metrics w'))
          = (if circuit_open_until (cw_client w') = None
             then policy_breaker_open_state (runtime_metrics_handle (cw_metrics w)) else 1))"
  using assms
  by (cases result) (auto simp: settle_def dest!: settle_failure_client)

lemma settle_reads: "settle io request started result w = (Done r, w') \<Longrightarrow> cw_reads w < cw_reads w'"
  by (auto simp: settle_def settle_failure_def observe_elapsed_def mark_failure_def mark_success_def instant_now_def
      Let_def split: rpc_result.splits if_splits)

text \<open>When the breaker lets a call pass, and the world in which its first attempt starts.\<close>

definition breaker_permits :: "client_io \<Rightarrow> client_world \<Rightarrow> bool" where
  "breaker_permits io w \<longleftrightarrow>
     (case circuit_open_until (cw_client w) of
        None \<Rightarrow> True
      | Some until \<Rightarrow> until \<le> io_clock io (cw_reads w + 1))"

definition admitted :: "client_io \<Rightarrow> client_world \<Rightarrow> client_world" where
  "admitted io w = snd (fail_if_circuit_open io (snd (instant_now io (client_metric inc_policy_requests w))))"

lemma admitted_simps [simp]:
  assumes "breaker_permits io w"
  shows "cw_trace (admitted io w) = cw_trace w"
    and "cw_client (admitted io w) = (cw_client w)\<lparr>circuit_open_until := None\<rparr>"
    and "policy_requests_total (runtime_metrics_handle (cw_metrics (admitted io w)))
      = policy_requests_total (runtime_metrics_handle (cw_metrics w)) + 1"
    and "policy_breaker_open_state (runtime_metrics_handle (cw_metrics (admitted io w)))
      = (if circuit_open_until (cw_client w) = None
         then policy_breaker_open_state (runtime_metrics_handle (cw_metrics w)) else 0)"
  using assms
  by (auto simp: admitted_def fail_if_circuit_open_def instant_now_def breaker_permits_def
      runtime_metric_defs Let_def split: option.splits)

lemma admitted_reads: "cw_reads w < cw_reads (admitted io w)"
  by (auto simp: admitted_def fail_if_circuit_open_def instant_now_def Let_def split: option.splits)

lemma client_evaluate_permitted:
  assumes "breaker_permits io w"
  shows "client_evaluate io request w =
    evaluate_attempts io request (io_clock io (cw_reads w)) [1..<max_attempts (cw_client w) + 1] (admitted io w)"
  using assms
  by (simp add: client_evaluate_def admitted_def fail_if_circuit_open_def instant_now_def
      breaker_permits_def Let_def split: option.splits)

lemma client_evaluate_unbuildable:
  assumes "breaker_permits io w" "build_grpc_request io request = Inl err" "0 < max_attempts (cw_client w)"
  shows "client_evaluate io request w = (Done (Inl err), admitted io w)"
proof -
  have "[1..<max_attempts (cw_client w) + 1] = 1 # [2..<max_attempts (cw_client w) + 1]"
    using assms(3) by (simp add: upt_conv_Cons numeral_2_eq_2)
  then show ?thesis
    unfolding client_evaluate_permitted [OF assms(1)] using assms(2) by simp
qed

lemma client_evaluate_settles:
  assumes "breaker_permits io w" "build_grpc_request io request = Inr q" "0 < max_attempts (cw_client w)"
  obtains k where "1 \<le> k" "k \<le> max_attempts (cw_client w)"
    "\<forall>j. 1 \<le> j \<and> j < k \<longrightarrow> \<not> final_answer (max_attempts (cw_client w)) j
        (io_rpc io (rpcs_sent (cw_trace w) + (j - 1)) q)"
    "final_answer (max_attempts (cw_client w)) k (io_rpc io (rpcs_sent (cw_trace w) + (k - 1)) q)"
    "client_evaluate io request w =
      settle io request (io_clock io (cw_reads w)) (io_rpc io (rpcs_sent (cw_trace w) + (k - 1)) q)
        (send_rpc q (retried q [1..<k] (admitted io w)))"
proof -
  have m: "max_attempts (cw_client (admitted io w)) = max_attempts (cw_client w)"
    by (simp add: assms(1))
  have "1 \<le> max_attempts (cw_client (admitted io w))"
    using assms(3) m by simp
  from evaluate_attempts_settles [OF assms(2) this, of "io_clock io (cw_reads w)"]
  show thesis
    unfolding m admitted_simps(1) [OF assms(1)] client_evaluate_permitted [OF assms(1), symmetric]
    using that by blast
qed

text \<open>The four courses of a call. The second cannot be taken by a connected client, which has at least one attempt.\<close>

lemma client_evaluate_cases:
  obtains (refused) "\<not> breaker_permits io w"
  | (no_attempts) "breaker_permits io w" "max_attempts (cw_client w) = 0" "client_evaluate io request w =
      settle_failure io (io_clock io (cw_reads w)) ''policy service failed after retries'' (admitted io w)"
  | (unbuildable) err where "breaker_permits io w" "build_grpc_request io request = Inl err"
      "client_evaluate io request w = (Done (Inl err), admitted io w)"
  | (settled) q k w1 where "breaker_permits io w" "build_grpc_request io request = Inr q"
      "1 \<le> k" "k \<le> max_attempts (cw_client w)"
      "w1 = send_rpc q (retried q [1..<k] (admitted io w))"
      "client_evaluate io request w =
         settle io request (io_clock io (cw_reads w)) (io_rpc io (rpcs_sent (cw_trace w) + (k - 1)) q) w1"
proof (cases "breaker_permits io w")
  case permits: True
  show thesis
  proof (cases "max_attempts (cw_client w) = 0")
    case True
    then show thesis
      using permits by (intro no_attempts) (simp_all add: client_evaluate_permitted)
  next
    case False
    then have pos: "0 < max_attempts (cw_client w)" by simp
    show thesis
    proof (cases "build_grpc_request io request")
      case (Inl err)
      show thesis
        by (rule unbuildable [OF permits Inl client_evaluate_unbuildable [OF permits Inl pos]])
    next
      case (Inr q)
      show thesis
        by (rule client_evaluate_settles [OF permits Inr pos]) (rule settled [OF permits Inr _ _ refl])
    qed
  qed
qed (rule refused)

text \<open>
  While the circuit breaker is open no call reaches the network: the call is refused with
  \<open>PolicyUnavailable\<close>, nothing is sent and nobody sleeps, the client keeps its failures and its
  deadline, the breaker gauge shows 1, and only the request counter has moved.
\<close>

theorem open_breaker_fails_closed:
  assumes "circuit_open_until (cw_client w) = Some until"
    and "io_clock io (cw_reads w + 1) < until"
  shows "fst (client_evaluate io request w)
      = Done (Inl (PolicyUnavailable ''policy circuit breaker open; failing closed''))
    \<and> cw_trace (snd (client_evaluate io request w)) = cw_trace w
    \<and> cw_client (snd (client_evaluate io request w)) = cw_client w
    \<and> runtime_metrics_handle (cw_metrics (snd (client_evaluate io request w)))
      = set_breaker_open True (inc_policy_requests (runtime_metrics_handle (cw_metrics w)))"
  using assms by (simp add: client_evaluate_def fail_if_circuit_open_def instant_now_def Let_def)

definition sample_io :: "rpc_result \<Rightarrow> client_io" where
  "sample_io r = \<lparr>io_clock = (\<lambda>n. n), io_rpc = (\<lambda>n q. r), io_metadata_ok = (\<lambda>s. True),
     io_code_text = (\<lambda>c. show_nat c)\<rparr>"

definition sample_world :: client_world where
  "sample_world = \<lparr>cw_client = connect_with_config grpc_policy_client_config_default,
     cw_metrics = init_runtime_metrics runtime_metrics_default None, cw_reads = 0, cw_trace = []\<rparr>"

definition sample_action :: action_request where
  "sample_action = \<lparr>ar_version = ''v1'', ar_request_id = ''req-1'', ar_correlation_id = ''corr-1'',
     ar_subject = ''runtime/model-runtime'', ar_action = ''network:connect'', ar_resource = ''api.openai.com''\<rparr>"

theorem open_breaker_fails_closed_witness:
  "cw_trace (snd (client_evaluate (sample_io RpcElapsed) sample_action
     (sample_world\<lparr>cw_client := (cw_client sample_world)\<lparr>circuit_open_until := Some 2\<rparr>\<rparr>))) = []"
  using open_breaker_fails_closed [of "sample_world\<lparr>cw_client := (cw_client sample_world)\<lparr>circuit_open_until := Some 2\<rparr>\<rparr>"
      2 "sample_io RpcElapsed" sample_action]
  by (simp add: sample_world_def sample_io_def)

text \<open>
  C8: The retry loop: a call that the breaker lets pass makes \<open>k\<close> attempts with \<open>1 \<le> k \<le> max_attempts\<close>,
  one remote call each, with the back-off of the attempt between two of them; every attempt before
  the last ended in a timeout or a retryable status, the last one is an answer, a status that is not
  retryable or the last one allowed, and the call returns what that last answer says. The fall-through
  after the loop is never reached.
\<close>

theorem evaluate_retry_protocol:
  assumes "breaker_permits io w" "build_grpc_request io request = Inr q" "0 < max_attempts (cw_client w)"
  shows "\<exists>k. 1 \<le> k \<and> k \<le> max_attempts (cw_client w)
    \<and> cw_trace (snd (client_evaluate io request w)) = cw_trace w
        @ attempt_events (cw_client w) q [1..<k] @ [RpcSent (timeout_per_attempt (cw_client w)) q]
    \<and> (\<forall>j. 1 \<le> j \<and> j < k \<longrightarrow> \<not> final_answer (max_attempts (cw_client w)) j
        (io_rpc io (rpcs_sent (cw_trace w) + (j - 1)) q))
    \<and> final_answer (max_attempts (cw_client w)) k (io_rpc io (rpcs_sent (cw_trace w) + (k - 1)) q)
    \<and> (case io_rpc io (rpcs_sent (cw_trace w) + (k - 1)) q of
         RpcResponse response \<Rightarrow>
           fst (client_evaluate io request w) = Done (Inr (map_grpc_decision request response))
       | RpcStatus code message \<Rightarrow>
           fst (client_evaluate io request w) \<in> {Panic, Done (Inl (PolicyUnavailable
             (''policy service returned '' @ io_code_text io code @ '': '' @ message)))}
       | RpcElapsed \<Rightarrow>
           fst (client_evaluate io request w) \<in> {Panic, Done (Inl (PolicyUnavailable
             ''policy evaluation timed out; denying request by default''))})"
proof -
  obtain k where k: "1 \<le> k" "k \<le> max_attempts (cw_client w)"
    "\<forall>j. 1 \<le> j \<and> j < k \<longrightarrow> \<not> final_answer (max_attempts (cw_client w)) j
        (io_rpc io (rpcs_sent (cw_trace w) + (j - 1)) q)"
    "final_answer (max_attempts (cw_client w)) k (io_rpc io (rpcs_sent (cw_trace w) + (k - 1)) q)"
    and eq: "client_evaluate io request w =
      settle io request (io_clock io (cw_reads w)) (io_rpc io (rpcs_sent (cw_trace w) + (k - 1)) q)
        (send_rpc q (retried q [1..<k] (admitted io w)))"
    using client_evaluate_settles [OF assms] .
  have "fst (settle_failure io s message v) \<in> {Panic, Done (Inl (PolicyUnavailable message))}" for s message v
    by (simp add: settle_failure_def split: prod.splits outcome.splits)
  then have "case io_rpc io (rpcs_sent (cw_trace w) + (k - 1)) q of
         RpcResponse response \<Rightarrow>
           fst (client_evaluate io request w) = Done (Inr (map_grpc_decision request response))
       | RpcStatus code message \<Rightarrow>
           fst (client_evaluate io request w) \<in> {Panic, Done (Inl (PolicyUnavailable
             (''policy service returned '' @ io_code_text io code @ '': '' @ message)))}
       | RpcElapsed \<Rightarrow>
           fst (client_evaluate io request w) \<in> {Panic, Done (Inl (PolicyUnavailable
             ''policy evaluation timed out; denying request by default''))}"
    unfolding eq by (cases "io_rpc io (rpcs_sent (cw_trace w) + (k - 1)) q") (simp_all add: settle_def)
  moreover have "cw_trace (snd (client_evaluate io request w)) = cw_trace w
        @ attempt_events (cw_client w) q [1..<k] @ [RpcSent (timeout_per_attempt (cw_client w)) q]"
    unfolding eq using assms(1) by (simp add: attempt_events_def)
  ultimately show ?thesis
    using k by blast
qed

theorem evaluate_retry_protocol_witness:
  "breaker_permits (sample_io RpcElapsed) sample_world
   \<and> (\<exists>q k. 1 \<le> k \<and> k \<le> 3 \<and> cw_trace (snd (client_evaluate (sample_io RpcElapsed) sample_action sample_world))
      = attempt_events (cw_client sample_world) q [1..<k] @ [RpcSent (from_secs 2) q])"
proof -
  have p: "breaker_permits (sample_io RpcElapsed) sample_world"
    by (simp add: breaker_permits_def sample_world_def connect_with_config_def)
  obtain q where "build_grpc_request (sample_io RpcElapsed) sample_action = Inr q"
    by (simp add: build_grpc_request_def sample_io_def)
  from evaluate_retry_protocol [OF p this] p show ?thesis
    by (auto simp: sample_world_def connect_with_config_def grpc_policy_client_config_default_def)
qed

lemma client_evaluate_refused:
  assumes "\<not> breaker_permits io w"
  shows "fst (client_evaluate io request w)
      = Done (Inl (PolicyUnavailable ''policy circuit breaker open; failing closed''))
    \<and> cw_client (snd (client_evaluate io request w)) = cw_client w
    \<and> cw_trace (snd (client_evaluate io request w)) = cw_trace w
    \<and> policy_breaker_open_state (runtime_metrics_handle (cw_metrics (snd (client_evaluate io request w)))) = 1"
  using assms
  by (auto simp: breaker_permits_def client_evaluate_def fail_if_circuit_open_def instant_now_def Let_def
      runtime_metric_defs split: option.splits)

lemma build_grpc_request_Inl: "build_grpc_request io request = Inl err \<Longrightarrow> \<exists>m. err = PolicyUnavailable m"
  by (auto simp: build_grpc_request_def split: if_splits)

lemma settle_failure_fails_closed:
  "case fst (settle_failure io started message w) of
      Panic \<Rightarrow> \<exists>n. INSTANT_LIMIT \<le> io_clock io n + circuit_breaker_cooldown (cw_client w)
    | Done (Inl err) \<Rightarrow> err = PolicyUnavailable message
    | Done (Inr d) \<Rightarrow> False"
  by (cases rule: mark_failure_cases [of io w]) (auto simp: settle_failure_def split: prod.splits)

lemma attempt_events_rpcs: "rpcs_sent (attempt_events c q as) = length as"
  by (induction as) (simp_all add: attempt_events_def)

lemma client_evaluate_contract:
  "(case fst (client_evaluate io request w) of
      Panic \<Rightarrow> \<exists>n. INSTANT_LIMIT \<le> io_clock io n + circuit_breaker_cooldown (cw_client w)
    | Done (Inl err) \<Rightarrow> \<exists>message. err = PolicyUnavailable message
    | Done (Inr d) \<Rightarrow> pd_effect d = PolicyAllow \<longrightarrow>
        (\<exists>q i response. build_grpc_request io request = Inr q
          \<and> rpcs_sent (cw_trace w) \<le> i \<and> i < rpcs_sent (cw_trace (snd (client_evaluate io request w)))
          \<and> io_rpc io i q = RpcResponse response \<and> ger_effect response = ''allow''
          \<and> d = map_grpc_decision request response))"
proof (cases rule: client_evaluate_cases [where io = io and w = w and request = request])
  case refused
  then show ?thesis by (simp add: client_evaluate_refused)
next
  case no_attempts
  have "circuit_breaker_cooldown (cw_client (admitted io w)) = circuit_breaker_cooldown (cw_client w)"
    using no_attempts(1) by simp
  with settle_failure_fails_closed [where io = io and w = "admitted io w" and started = "io_clock io (cw_reads w)"
      and message = "''policy service failed after retries''"]
  show ?thesis
    unfolding no_attempts(3) by (auto split: outcome.splits sum.splits)
next
  case (unbuildable err)
  then show ?thesis by (auto dest: build_grpc_request_Inl)
next
  case (settled q k w1)
  let ?i = "rpcs_sent (cw_trace w) + (k - 1)"
  have cool: "circuit_breaker_cooldown (cw_client w1) = circuit_breaker_cooldown (cw_client w)"
    using settled(1) by (simp add: settled(5))
  have i: "?i < rpcs_sent (cw_trace (snd (client_evaluate io request w)))"
    unfolding settled(6) using settled(1,3) by (simp add: settled(5) attempt_events_rpcs)
  show ?thesis
  proof (cases "\<exists>response. io_rpc io ?i q = RpcResponse response")
    case True
    then obtain response where resp: "io_rpc io ?i q = RpcResponse response" ..
    with settled(6) have "fst (client_evaluate io request w) = Done (Inr (map_grpc_decision request response))"
      by (simp add: settle_def)
    moreover have "pd_effect (map_grpc_decision request response) = PolicyAllow \<longrightarrow> ger_effect response = ''allow''"
      by (simp add: map_grpc_decision_def)
    ultimately show ?thesis
      using settled(2) i resp by (auto intro!: exI [of _ ?i] exI [of _ response])
  next
    case False
    then obtain message where "client_evaluate io request w = settle_failure io (io_clock io (cw_reads w)) message w1"
      unfolding settled(6) by (rule settle_no_response)
    with settle_failure_fails_closed [where io = io and w = w1 and started = "io_clock io (cw_reads w)" and message = message] show ?thesis
      by (auto simp: cool split: outcome.splits sum.splits)
  qed
qed

text \<open>
  C6: Fail closed: a call never panics unless the cool-down overflows the clock, all its errors are
  \<open>PolicyUnavailable\<close>, and a decision that allows the action is always the answer with effect
  \<open>allow\<close> to a remote call that this very call sent for this very request.
\<close>

theorem evaluate_fails_closed:
  "(case fst (client_evaluate io request w) of
      Panic \<Rightarrow> \<exists>n. INSTANT_LIMIT \<le> io_clock io n + circuit_breaker_cooldown (cw_client w)
    | Done (Inl err) \<Rightarrow> \<exists>message. err = PolicyUnavailable message
    | Done (Inr d) \<Rightarrow> pd_effect d = PolicyAllow \<longrightarrow>
        (\<exists>q i response. build_grpc_request io request = Inr q
          \<and> rpcs_sent (cw_trace w) \<le> i \<and> i < rpcs_sent (cw_trace (snd (client_evaluate io request w)))
          \<and> io_rpc io i q = RpcResponse response \<and> ger_effect response = ''allow''
          \<and> d = map_grpc_decision request response))"
  by (rule client_evaluate_contract)

definition sample_answer :: rpc_result where
  "sample_answer = RpcResponse \<lparr>ger_effect = ''allow'', ger_reason = ''r'', ger_rule_id = ''a''\<rparr>"

lemma sample_call:
  "\<exists>d. fst (client_evaluate (sample_io sample_answer) sample_action sample_world) = Done (Inr d)
    \<and> pd_effect d = PolicyAllow"
  by (simp add: client_evaluate_def sample_world_def connect_with_config_def instant_now_def
      grpc_policy_client_config_default_def fail_if_circuit_open_def client_metric_def upt_rec
      build_grpc_request_def sample_io_def sample_answer_def settle_def map_grpc_decision_def Let_def)

theorem evaluate_fails_closed_witness:
  "\<exists>d. fst (client_evaluate (sample_io sample_answer) sample_action sample_world) = Done (Inr d)
    \<and> (\<exists>response. ger_effect response = ''allow'' \<and> d = map_grpc_decision sample_action response)"
proof -
  from evaluate_fails_closed [where io = "sample_io sample_answer" and request = sample_action and w = sample_world] sample_call
  show ?thesis
    by auto
qed

section \<open>The breaker as a state machine\<close>

text \<open>
  The abstract breaker: refused and unsendable calls, answered calls and failed calls, the last with
  the time at which the failure was recorded.
\<close>

datatype call_end = CallRefused | CallNotSent | CallAnswered | CallFailed nat

fun breaker_next :: "grpc_policy_client \<Rightarrow> call_end \<Rightarrow> grpc_policy_client" where
  "breaker_next c CallRefused = c"
| "breaker_next c CallNotSent = c\<lparr>circuit_open_until := None\<rparr>"
| "breaker_next c CallAnswered = c\<lparr>consecutive_failures := 0, circuit_open_until := None\<rparr>"
| "breaker_next c (CallFailed now) = failed_breaker now c"

lemma client_evaluate_breaker:
  assumes "client_evaluate io request w = (Done r, w')" "0 < max_attempts (cw_client w)"
  shows "\<exists>e. cw_client w' = breaker_next (cw_client w) e
    \<and> (e = CallRefused \<longleftrightarrow> \<not> breaker_permits io w)
    \<and> (e = CallNotSent \<longleftrightarrow> breaker_permits io w \<and> (\<exists>err. build_grpc_request io request = Inl err))
    \<and> (e = CallAnswered \<longleftrightarrow> (\<exists>d. r = Inr d))
    \<and> (\<forall>now. e = CallFailed now \<longrightarrow> rpcs_sent (cw_trace w) < rpcs_sent (cw_trace w')
         \<and> (\<exists>n. cw_reads w < n \<and> n < cw_reads w' \<and> now = io_clock io n))
    \<and> policy_breaker_open_state (runtime_metrics_handle (cw_metrics w')) =
        (if e = CallRefused \<or> circuit_open_until (cw_client w') \<noteq> None then 1
         else if e = CallAnswered \<or> circuit_open_until (cw_client w) \<noteq> None then 0
         else policy_breaker_open_state (runtime_metrics_handle (cw_metrics w)))"
proof (cases rule: client_evaluate_cases [where io = io and w = w and request = request])
  case refused
  with assms show ?thesis
    using client_evaluate_refused [OF refused, of request] by (intro exI [of _ CallRefused]) auto
next
  case no_attempts
  with assms(2) show ?thesis by simp
next
  case (unbuildable err)
  with assms show ?thesis
    by (intro exI [of _ CallNotSent]) auto
next
  case (settled q k w1)
  have s: "settle io request (io_clock io (cw_reads w)) (io_rpc io (rpcs_sent (cw_trace w) + (k - 1)) q) w1 = (Done r, w')"
    using settled(6) assms(1) by simp
  have none: "circuit_open_until (cw_client w1) = None"
    and client: "cw_client w1 = (cw_client w)\<lparr>circuit_open_until := None\<rparr>"
    using settled(1) by (simp_all add: settled(5))
  have gauge: "policy_breaker_open_state (runtime_metrics_handle (cw_metrics w1))
      = (if circuit_open_until (cw_client w) = None
         then policy_breaker_open_state (runtime_metrics_handle (cw_metrics w)) else 0)"
    using settled(1) retried_metrics [of q "[1..<k]" "admitted io w"] by (simp add: settled(5))
  have fb: "failed_breaker t (cw_client w1) = failed_breaker t (cw_client w)" for t
    unfolding client failed_breaker_def by simp
  have reads: "cw_reads w < cw_reads w1" "cw_reads w1 < cw_reads w'"
    using settle_reads [OF s] admitted_reads [of w io] by (simp_all add: settled(5))
  have sent: "rpcs_sent (cw_trace w) < rpcs_sent (cw_trace w')"
    using settle_trace [of io request "io_clock io (cw_reads w)" "io_rpc io (rpcs_sent (cw_trace w) + (k - 1)) q" w1] settled(1)
    unfolding s by (simp add: settled(5) attempt_events_rpcs)
  note sc = settle_client [OF s none]
  show ?thesis
  proof (cases "\<exists>response. io_rpc io (rpcs_sent (cw_trace w) + (k - 1)) q = RpcResponse response")
    case True
    with sc settled(1,2) show ?thesis
      by (intro exI [of _ CallAnswered]) (auto simp: client)
  next
    case False
    with sc settled(1,2) reads sent show ?thesis
      unfolding fb gauge
      by (intro exI [of _ "CallFailed (io_clock io (cw_reads w1))"]) (auto split: rpc_result.splits)
  qed
qed

text \<open>
  The states of a connected client: it starts from \<open>connect_with_config\<close> in a process whose metrics
  are fresh and makes calls one after the other, each in a world that may have moved on.
\<close>

definition connected_world :: "grpc_policy_client_config \<Rightarrow> nat \<Rightarrow> client_world" where
  "connected_world config n = \<lparr>cw_client = connect_with_config config,
     cw_metrics = init_runtime_metrics runtime_metrics_default None, cw_reads = n, cw_trace = []\<rparr>"

inductive client_reachable :: "client_world \<Rightarrow> bool" where
  reach_connect: "client_reachable (connected_world config n)"
| reach_call: "client_reachable w \<Longrightarrow> client_evaluate io request w = (Done r, w') \<Longrightarrow> client_reachable w'"

definition breaker_inv :: "client_world \<Rightarrow> bool" where
  "breaker_inv w \<longleftrightarrow> 0 < max_attempts (cw_client w) \<and> 1 \<le> circuit_breaker_threshold (cw_client w)
     \<and> (circuit_open_until (cw_client w) \<noteq> None \<longrightarrow>
          circuit_breaker_threshold (cw_client w) \<le> consecutive_failures (cw_client w))
     \<and> policy_breaker_open_state (runtime_metrics_handle (cw_metrics w))
        = (if circuit_open_until (cw_client w) = None then 0 else 1)"

lemma breaker_inv_step:
  assumes "breaker_inv w" "client_evaluate io request w = (Done r, w')"
  shows "breaker_inv w'"
proof -
  have m: "0 < max_attempts (cw_client w)"
    using assms(1) by (simp add: breaker_inv_def)
  obtain e where e: "cw_client w' = breaker_next (cw_client w) e"
    and refused: "e = CallRefused \<longleftrightarrow> \<not> breaker_permits io w"
    and gauge: "policy_breaker_open_state (runtime_metrics_handle (cw_metrics w')) =
        (if e = CallRefused \<or> circuit_open_until (cw_client w') \<noteq> None then 1
         else if e = CallAnswered \<or> circuit_open_until (cw_client w) \<noteq> None then 0
         else policy_breaker_open_state (runtime_metrics_handle (cw_metrics w)))"
    using client_evaluate_breaker [OF assms(2) m] by blast
  have "e = CallRefused \<Longrightarrow> circuit_open_until (cw_client w) \<noteq> None"
    using refused by (auto simp: breaker_permits_def split: option.splits)
  with assms(1) e gauge show ?thesis
    by (cases e) (auto simp: breaker_inv_def failed_breaker_def)
qed

text \<open>
  In every state a connected client reaches, the breaker gauge is 1 exactly when the breaker has
  a deadline, it has one only after at least the threshold of consecutive failed calls, and both the
  threshold and the number of attempts are positive whatever the configuration says.
\<close>

theorem client_breaker_invariant:
  assumes "client_reachable w"
  shows "breaker_inv w"
  using assms
proof (induction rule: client_reachable.induct)
  case (reach_connect config n)
  then show ?case
    by (simp add: breaker_inv_def connected_world_def connect_with_config_def init_runtime_metrics_def runtime_metrics_default_def)
next
  case (reach_call w io request r w')
  then show ?case by (blast intro: breaker_inv_step)
qed

theorem client_breaker_invariant_witness:
  "breaker_inv (snd (client_evaluate (sample_io sample_answer) sample_action sample_world))"
proof -
  obtain d where "fst (client_evaluate (sample_io sample_answer) sample_action sample_world) = Done (Inr d)"
    using sample_call by blast
  then have "client_evaluate (sample_io sample_answer) sample_action sample_world =
      (Done (Inr d), snd (client_evaluate (sample_io sample_answer) sample_action sample_world))"
    by (metis prod.collapse)
  moreover have "client_reachable sample_world"
    unfolding sample_world_def connected_world_def [symmetric] by (rule reach_connect)
  ultimately have "client_reachable (snd (client_evaluate (sample_io sample_answer) sample_action sample_world))"
    by (blast intro: reach_call)
  then show ?thesis by (rule client_breaker_invariant)
qed

section \<open>A dead policy service\<close>

fun client_evaluate_all :: "client_io \<Rightarrow> action_request list \<Rightarrow> client_world \<Rightarrow> evaluation list \<times> client_world" where
  "client_evaluate_all io [] w = ([], w)"
| "client_evaluate_all io (r # rs) w =
     (case client_evaluate io r w of (e, w1) \<Rightarrow>
        case client_evaluate_all io rs w1 of (es, w2) \<Rightarrow> (e # es, w2))"

text \<open>No call is answered, header values are accepted and the clock never gets near its limit.\<close>

definition dead_service :: "client_io \<Rightarrow> nat \<Rightarrow> bool" where
  "dead_service io cooldown \<longleftrightarrow> (\<forall>n q response. io_rpc io n q \<noteq> RpcResponse response)
     \<and> (\<forall>s. io_metadata_ok io s) \<and> (\<forall>n. io_clock io n + cooldown < INSTANT_LIMIT)"

lemma saturating_inc_below:
  assumes "f < t"
  shows "saturating_inc f = f + 1" and "unat (f + 1) = unat f + 1"
proof -
  have lt: "unat f < unat t"
    using assms by (simp add: word_less_nat_alt)
  have "unat t < 2 ^ 32"
    using unsigned_less [of t] by simp
  with lt have small: "unat f + 1 < 2 ^ 32"
    by simp
  have "unat (f + 1) = (unat f + 1) mod 2 ^ 32"
    by (simp add: unat_word_ariths)
  with small show "unat (f + 1) = unat f + 1"
    by (simp only: mod_less)
  have "f \<noteq> - 1"
    using assms by (metis not_less word_n1_ge)
  then show "saturating_inc f = f + 1"
    by (simp add: saturating_inc_def)
qed

lemma dead_service_call:
  assumes "dead_service io (circuit_breaker_cooldown (cw_client w))" "breaker_inv w"
    and "circuit_open_until (cw_client w) = None"
  shows "\<exists>message w' now. client_evaluate io request w = (Done (Inl (PolicyUnavailable message)), w')
    \<and> cw_client w' = failed_breaker now (cw_client w) \<and> breaker_inv w'"
proof -
  have m: "0 < max_attempts (cw_client w)"
    using assms(2) by (simp add: breaker_inv_def)
  obtain q where q: "build_grpc_request io request = Inr q"
    using assms(1) by (simp add: build_grpc_request_def dead_service_def)
  have p: "breaker_permits io w"
    using assms(3) by (simp add: breaker_permits_def)
  obtain k where eq: "client_evaluate io request w =
      settle io request (io_clock io (cw_reads w)) (io_rpc io (rpcs_sent (cw_trace w) + (k - 1)) q)
        (send_rpc q (retried q [1..<k] (admitted io w)))"
    using client_evaluate_settles [OF p q m] by metis
  define w1 where "w1 = send_rpc q (retried q [1..<k] (admitted io w))"
  have client: "cw_client w1 = cw_client w"
    using p assms(3) by (simp add: w1_def)
  have "\<nexists>response. io_rpc io n q = RpcResponse response" for n
    using assms(1) by (simp add: dead_service_def)
  then obtain message where fail: "client_evaluate io request w
      = settle_failure io (io_clock io (cw_reads w)) message w1"
    unfolding eq w1_def [symmetric] by (rule settle_no_response)
  have "\<not> INSTANT_LIMIT \<le> io_clock io (cw_reads w1) + circuit_breaker_cooldown (cw_client w1)"
    using assms(1) by (simp add: dead_service_def client not_le)
  then have "fst (mark_failure io w1) \<noteq> Panic"
    by (cases rule: mark_failure_cases [of io w1]) auto
  then obtain r w' where r: "client_evaluate io request w = (Done r, w')"
    unfolding fail settle_failure_def
    by (cases "mark_failure io w1"; cases "fst (mark_failure io w1)") auto
  with settle_failure_client [of io _ message w1 r w'] fail assms(3) client
  have "r = Inl (PolicyUnavailable message)" "cw_client w' = failed_breaker (io_clock io (cw_reads w1)) (cw_client w)"
    by auto
  with r breaker_inv_step [OF assms(2) r] show ?thesis
    by blast
qed

lemma dead_service_calls:
  assumes "dead_service io cooldown" "circuit_breaker_cooldown (cw_client w) = cooldown" "breaker_inv w"
    and "circuit_open_until (cw_client w) = None" "consecutive_failures (cw_client w) < circuit_breaker_threshold (cw_client w)"
    and "unat (consecutive_failures (cw_client w)) + length rs \<le> unat (circuit_breaker_threshold (cw_client w))"
  shows "(\<forall>e\<in>set (fst (client_evaluate_all io rs w)). \<exists>message. e = Done (Inl (PolicyUnavailable message)))
    \<and> unat (consecutive_failures (cw_client (snd (client_evaluate_all io rs w))))
      = unat (consecutive_failures (cw_client w)) + length rs
    \<and> (circuit_open_until (cw_client (snd (client_evaluate_all io rs w))) \<noteq> None
      \<longleftrightarrow> unat (consecutive_failures (cw_client w)) + length rs = unat (circuit_breaker_threshold (cw_client w)))"
  using assms(2-)
proof (induction rs arbitrary: w)
  case Nil
  then show ?case by (simp add: word_less_nat_alt)
next
  case (Cons r rs)
  let ?c = "cw_client w"
  obtain message w' now where call: "client_evaluate io r w = (Done (Inl (PolicyUnavailable message)), w')"
    and c': "cw_client w' = failed_breaker now ?c" and inv: "breaker_inv w'"
    using dead_service_call [of io w r] assms(1) Cons.prems by auto
  note inc = saturating_inc_below [OF Cons.prems(4)]
  have le_iff: "circuit_breaker_threshold ?c \<le> x \<longleftrightarrow> \<not> x < circuit_breaker_threshold ?c" for x
    by (simp add: linorder_not_less)
  have f': "unat (consecutive_failures (cw_client w')) = unat (consecutive_failures ?c) + 1"
    and t': "circuit_breaker_threshold (cw_client w') = circuit_breaker_threshold ?c"
    and o': "circuit_open_until (cw_client w') = None \<longleftrightarrow> consecutive_failures ?c + 1 < circuit_breaker_threshold ?c"
    and cool: "circuit_breaker_cooldown (cw_client w') = cooldown"
    and s': "consecutive_failures (cw_client w') = consecutive_failures ?c + 1"
    using inc Cons.prems(1) by (simp_all add: c' failed_breaker_def le_iff)
  show ?case
  proof (cases "consecutive_failures ?c + 1 < circuit_breaker_threshold ?c")
    case True
    with Cons.IH [of w'] Cons.prems f' t' o' cool s' inv call show ?thesis
      by (cases "client_evaluate_all io rs w'") simp
  next
    case False
    then have le: "unat (circuit_breaker_threshold ?c) \<le> unat (consecutive_failures ?c) + 1"
      using inc(2) by (metis not_less word_le_nat_alt)
    have len: "unat (consecutive_failures ?c) + (1 + length rs) \<le> unat (circuit_breaker_threshold ?c)"
      using Cons.prems(5) by simp
    from le len have "length rs = 0" and "unat (consecutive_failures ?c) + 1 = unat (circuit_breaker_threshold ?c)"
      by linarith+
    then have "rs = []" and "unat (consecutive_failures ?c) + 1 = unat (circuit_breaker_threshold ?c)"
      by simp_all
    with False call f' o' show ?thesis
      by simp
  qed
qed

text \<open>
  C10: A policy service that never answers opens the breaker of a freshly connected client after
  exactly the configured number of calls (at least one), never earlier; every one of those calls fails
  with \<open>PolicyUnavailable\<close>, and the failure count is the number of calls.
\<close>

theorem dead_service_opens_breaker:
  assumes "dead_service io (cfg_circuit_breaker_cooldown config)"
    and "length requests \<le> unat (max (cfg_circuit_breaker_threshold config) 1)"
    and "w = connected_world config n"
  shows "(\<forall>e\<in>set (fst (client_evaluate_all io requests w)). \<exists>message. e = Done (Inl (PolicyUnavailable message)))
    \<and> unat (consecutive_failures (cw_client (snd (client_evaluate_all io requests w)))) = length requests
    \<and> (circuit_open_until (cw_client (snd (client_evaluate_all io requests w))) \<noteq> None
      \<longleftrightarrow> length requests = unat (max (cfg_circuit_breaker_threshold config) 1))"
proof -
  have "breaker_inv w"
    unfolding assms(3) connected_world_def breaker_inv_def connect_with_config_def init_runtime_metrics_def runtime_metrics_default_def
    by simp
  moreover have "(0 :: u32) < max (cfg_circuit_breaker_threshold config) 1"
    by (rule less_le_trans [of _ 1]) simp_all
  ultimately show ?thesis
    using dead_service_calls [of io "cfg_circuit_breaker_cooldown config" w requests] assms(1,2)
    by (simp add: assms(3) connected_world_def connect_with_config_def)
qed

theorem dead_service_opens_breaker_witness:
  "circuit_open_until (cw_client (snd (client_evaluate_all ((sample_io RpcElapsed)\<lparr>io_clock := (\<lambda>_. 0)\<rparr>)
     [sample_action, sample_action, sample_action] sample_world))) \<noteq> None"
proof -
  have "dead_service ((sample_io RpcElapsed)\<lparr>io_clock := (\<lambda>_. 0)\<rparr>)
      (cfg_circuit_breaker_cooldown grpc_policy_client_config_default)"
    by (simp add: dead_service_def sample_io_def grpc_policy_client_config_default_def from_secs_def INSTANT_LIMIT_def)
  from dead_service_opens_breaker [OF this, of "[sample_action, sample_action, sample_action]" sample_world 0]
  show ?thesis
    by (simp add: sample_world_def connected_world_def grpc_policy_client_config_default_def)
qed

end
