(* ===== verification/Circuit_Breaker.thy ===== *)
theory Circuit_Breaker
  imports Policy_Client
begin

text \<open>
  The circuit breaker of the policy client as the textbook machine. \<open>Policy_Client\<close> has the breaker as the code keeps it,
  a saturating 32-bit counter and an optional deadline in an atomic and behind a lock; here the machine with the
  states closed, half open and open, and the proof that whole histories of the client are runs of the machine.
\<close>

section \<open>The machine\<close>

text \<open>
  Closed after some failures in a row, open until a deadline, or half open: the deadline is gone and the next
  call that is answered or fails decides.
\<close>

datatype circuit = Closed nat | HalfOpen | Open nat

fun circuit_admits :: "circuit \<Rightarrow> nat \<Rightarrow> bool" where
  "circuit_admits (Closed n) now \<longleftrightarrow> True"
| "circuit_admits HalfOpen now \<longleftrightarrow> True"
| "circuit_admits (Open until) now \<longleftrightarrow> until \<le> now"

fun circuit_next :: "nat \<Rightarrow> nat \<Rightarrow> circuit \<Rightarrow> call_end \<Rightarrow> circuit" where
  "circuit_next threshold cooldown s CallRefused = s"
| "circuit_next threshold cooldown s CallAnswered = Closed 0"
| "circuit_next threshold cooldown (Closed n) CallNotSent = Closed n"
| "circuit_next threshold cooldown HalfOpen CallNotSent = HalfOpen"
| "circuit_next threshold cooldown (Open until) CallNotSent = HalfOpen"
| "circuit_next threshold cooldown (Closed n) (CallFailed now) =
     (if n + 1 < threshold then Closed (n + 1) else Open (now + cooldown))"
| "circuit_next threshold cooldown HalfOpen (CallFailed now) = Open (now + cooldown)"
| "circuit_next threshold cooldown (Open until) (CallFailed now) = Open (now + cooldown)"

section \<open>Calls\<close>

text \<open>One call of the client as an observer sees it: the request, the result, and the worlds before and after it.\<close>

record client_call =
  cc_io :: client_io
  cc_request :: action_request
  cc_result :: "llmos_error + policy_decision_record"
  cc_before :: client_world
  cc_after :: client_world

text \<open>A call asks the breaker at its second reading of the clock.\<close>

definition call_time :: "client_call \<Rightarrow> nat" where
  "call_time c = io_clock (cc_io c) (cw_reads (cc_before c) + 1)"

text \<open>What each end of a call looks like from outside.\<close>

fun call_observed :: "client_call \<Rightarrow> call_end \<Rightarrow> bool" where
  "call_observed c CallRefused \<longleftrightarrow> cw_trace (cc_after c) = cw_trace (cc_before c)
     \<and> cc_result c = Inl (PolicyUnavailable ''policy circuit breaker open; failing closed'')"
| "call_observed c CallNotSent \<longleftrightarrow> cw_trace (cc_after c) = cw_trace (cc_before c)
     \<and> build_grpc_request (cc_io c) (cc_request c) = Inl (projl (cc_result c)) \<and> isl (cc_result c)"
| "call_observed c CallAnswered \<longleftrightarrow> \<not> isl (cc_result c)"
| "call_observed c (CallFailed now) \<longleftrightarrow> isl (cc_result c)
     \<and> rpcs_sent (cw_trace (cc_before c)) < rpcs_sent (cw_trace (cc_after c))
     \<and> (\<exists>n. cw_reads (cc_before c) < n \<and> n < cw_reads (cc_after c) \<and> now = io_clock (cc_io c) n)"

text \<open>A history of a client that connects and makes calls one after the other.\<close>

inductive client_history :: "grpc_policy_client_config \<Rightarrow> client_call list \<Rightarrow> client_world \<Rightarrow> bool"
  for config :: grpc_policy_client_config where
  history_connect: "client_history config [] (connected_world config n)"
| history_call: "client_history config cs w \<Longrightarrow> client_evaluate io request w = (Done r, w') \<Longrightarrow>
    client_history config
      (cs @ [\<lparr>cc_io = io, cc_request = request, cc_result = r, cc_before = w, cc_after = w'\<rparr>]) w'"

text \<open>
  A run of the machine over a history: a call is refused exactly when the machine does not admit it, every other call ends
  as it is seen to end, and the machine moves on.
\<close>

inductive circuit_run :: "nat \<Rightarrow> nat \<Rightarrow> client_call list \<Rightarrow> circuit \<Rightarrow> bool"
  for threshold :: nat and cooldown :: nat where
  circuit_start: "circuit_run threshold cooldown [] (Closed 0)"
| circuit_call: "circuit_run threshold cooldown cs s \<Longrightarrow> call_observed c e \<Longrightarrow>
    (e = CallRefused \<longleftrightarrow> \<not> circuit_admits s (call_time c)) \<Longrightarrow>
    circuit_run threshold cooldown (cs @ [c]) (circuit_next threshold cooldown s e)"

section \<open>Refinement\<close>

text \<open>The machine's state in the fields of the client.\<close>

definition circuit_of :: "grpc_policy_client \<Rightarrow> circuit" where
  "circuit_of c = (case circuit_open_until c of
     Some until \<Rightarrow> Open until
   | None \<Rightarrow> if consecutive_failures c < circuit_breaker_threshold c then Closed (unat (consecutive_failures c)) else HalfOpen)"

lemma breaker_permits_admits:
  "breaker_permits io w \<longleftrightarrow> circuit_admits (circuit_of (cw_client w)) (io_clock io (cw_reads w + 1))"
  by (auto simp: breaker_permits_def circuit_of_def split: option.splits)

text \<open>The counter saturates above the threshold only, so that the machine never sees it wrap.\<close>

lemma saturating_inc_above:
  assumes "t \<le> n"
  shows "t \<le> saturating_inc n"
proof (cases "n = - 1")
  case False
  then have "n < - 1"
    using word_n1_ge [of n] by (simp add: order_less_le)
  note saturating_inc_below [OF this]
  with assms show ?thesis
    by (simp add: word_le_nat_alt)
qed (simp add: saturating_inc_def)

lemma circuit_next_of:
  assumes "1 \<le> circuit_breaker_threshold c"
    and "circuit_open_until c \<noteq> None \<longrightarrow> circuit_breaker_threshold c \<le> consecutive_failures c"
  shows "circuit_of (breaker_next c e)
    = circuit_next (unat (circuit_breaker_threshold c)) (circuit_breaker_cooldown c) (circuit_of c) e"
proof (cases e)
  case (CallFailed now)
  show ?thesis
  proof (cases "consecutive_failures c < circuit_breaker_threshold c")
    case True
    then show ?thesis
      using assms(2) saturating_inc_below [OF True]
      by (auto simp: CallFailed circuit_of_def failed_breaker_def word_le_nat_alt word_less_nat_alt)
  next
    case False
    then have "circuit_breaker_threshold c \<le> saturating_inc (consecutive_failures c)"
      by (intro saturating_inc_above) simp
    with False show ?thesis
      by (simp add: CallFailed circuit_of_def failed_breaker_def split: option.splits)
  qed
qed (use assms in \<open>auto simp: circuit_of_def word_less_nat_alt word_le_nat_alt split: option.splits\<close>)

text \<open>The settings of the breaker do not change.\<close>

lemma breaker_next_settings:
  "circuit_breaker_threshold (breaker_next c e) = circuit_breaker_threshold c"
  "circuit_breaker_cooldown (breaker_next c e) = circuit_breaker_cooldown c"
  by (cases e; simp add: failed_breaker_def)+

lemma call_observed_step:
  assumes "client_evaluate io request w = (Done r, w')" "0 < max_attempts (cw_client w)"
    and "c = \<lparr>cc_io = io, cc_request = request, cc_result = r, cc_before = w, cc_after = w'\<rparr>"
  obtains e where "cw_client w' = breaker_next (cw_client w) e" "call_observed c e"
    "e = CallRefused \<longleftrightarrow> \<not> circuit_admits (circuit_of (cw_client w)) (call_time c)"
proof -
  obtain e where e: "cw_client w' = breaker_next (cw_client w) e"
    and refused: "e = CallRefused \<longleftrightarrow> \<not> breaker_permits io w"
    and not_sent: "e = CallNotSent \<longleftrightarrow> breaker_permits io w \<and> (\<exists>err. build_grpc_request io request = Inl err)"
    and answered: "e = CallAnswered \<longleftrightarrow> (\<exists>d. r = Inr d)"
    and failed: "\<forall>now. e = CallFailed now \<longrightarrow> rpcs_sent (cw_trace w) < rpcs_sent (cw_trace w')
         \<and> (\<exists>n. cw_reads w < n \<and> n < cw_reads w' \<and> now = io_clock io n)"
    using client_evaluate_breaker [OF assms(1,2)] by blast
  have "call_observed c e"
  proof (cases e)
    case CallRefused
    then show ?thesis
      using refused client_evaluate_refused [of io w request] assms(1,3) by simp
  next
    case CallNotSent
    then show ?thesis
      using not_sent client_evaluate_unbuildable [OF _ _ assms(2)] assms(1,3) by auto
  next
    case CallAnswered
    then show ?thesis
      using answered assms(3) by auto
  next
    case (CallFailed now)
    then show ?thesis
      using failed answered assms(3) by (cases r) auto
  qed
  with e refused show ?thesis
    by (intro that) (simp_all add: breaker_permits_admits call_time_def assms(3))
qed

lemma client_history_reachable: "client_history config cs w \<Longrightarrow> breaker_inv w"
proof (induction rule: client_history.induct)
  case (history_connect n)
  show ?case
    by (simp add: breaker_inv_def connected_world_def connect_with_config_def init_runtime_metrics_def runtime_metrics_default_def)
next
  case (history_call cs w io request r w')
  then show ?case
    by (blast intro: breaker_inv_step)
qed

text \<open>
  C9: The circuit breaker is the textbook machine. Every history of a connected client is a run of the machine with
  states closed, half open and open, threshold at least one and the configured cool-down: the client refuses a call, sending
  nothing, exactly when the machine is open and its deadline is ahead; a failed call counts and at the threshold opens the machine
  until the cool-down after a clock reading of that very call; the first failure after the deadline opens it again at once and an answer
  closes it; and the gauge shows 1 exactly when the machine is open.
\<close>

theorem client_is_circuit_breaker:
  assumes "client_history config cs w"
  shows "circuit_run (unat (max (cfg_circuit_breaker_threshold config) 1)) (cfg_circuit_breaker_cooldown config) cs
      (circuit_of (cw_client w))
    \<and> policy_breaker_open_state (runtime_metrics_handle (cw_metrics w))
      = (case circuit_of (cw_client w) of Open until \<Rightarrow> 1 | _ \<Rightarrow> 0)"
proof -
  have "circuit_run (unat (max (cfg_circuit_breaker_threshold config) 1)) (cfg_circuit_breaker_cooldown config) cs
      (circuit_of (cw_client w))
    \<and> circuit_breaker_threshold (cw_client w) = max (cfg_circuit_breaker_threshold config) 1
    \<and> circuit_breaker_cooldown (cw_client w) = cfg_circuit_breaker_cooldown config"
    using assms
  proof (induction rule: client_history.induct)
    case (history_connect n)
    have "(0 :: u32) < max (cfg_circuit_breaker_threshold config) 1"
      by (rule less_le_trans [of _ 1]) simp_all
    then show ?case
      by (simp add: connected_world_def connect_with_config_def circuit_of_def circuit_start)
  next
    case (history_call cs w io request r w')
    then have inv: "breaker_inv w"
      by (blast dest: client_history_reachable)
    then have "0 < max_attempts (cw_client w)"
      by (simp add: breaker_inv_def)
    then obtain e where "cw_client w' = breaker_next (cw_client w) e"
      "call_observed \<lparr>cc_io = io, cc_request = request, cc_result = r, cc_before = w, cc_after = w'\<rparr> e"
      "e = CallRefused \<longleftrightarrow> \<not> circuit_admits (circuit_of (cw_client w))
         (call_time \<lparr>cc_io = io, cc_request = request, cc_result = r, cc_before = w, cc_after = w'\<rparr>)"
      by (rule call_observed_step [OF history_call.hyps(2) _ refl])
    moreover from this(1) inv have "circuit_of (cw_client w') = circuit_next (unat (circuit_breaker_threshold (cw_client w)))
        (circuit_breaker_cooldown (cw_client w)) (circuit_of (cw_client w)) e"
      by (simp add: circuit_next_of breaker_inv_def)
    ultimately show ?case
      using history_call.IH by (auto simp: breaker_next_settings intro: circuit_call)
  qed
  with client_history_reachable [OF assms] show ?thesis
    by (auto simp: breaker_inv_def circuit_of_def split: option.splits)
qed

text \<open>With threshold one a single call that is not answered opens the machine.\<close>

definition impatient_config :: grpc_policy_client_config where
  "impatient_config = grpc_policy_client_config_default\<lparr>cfg_circuit_breaker_threshold := 1\<rparr>"

theorem client_is_circuit_breaker_witness:
  "\<exists>c w until. client_history impatient_config [c] w \<and> circuit_run 1 (from_secs 5) [c] (Open until)
    \<and> policy_breaker_open_state (runtime_metrics_handle (cw_metrics w)) = 1"
proof -
  let ?io = "(sample_io RpcElapsed)\<lparr>io_clock := (\<lambda>_. 0)\<rparr>" and ?w = "connected_world impatient_config 0"
  have cooldown: "cfg_circuit_breaker_cooldown impatient_config = from_secs 5" "cfg_circuit_breaker_threshold impatient_config = 1"
    by (simp_all add: impatient_config_def grpc_policy_client_config_default_def)
  have threshold: "circuit_breaker_threshold (cw_client ?w) = 1" "consecutive_failures (cw_client ?w) = 0"
    by (simp_all add: connected_world_def connect_with_config_def impatient_config_def)
  have "dead_service ?io (circuit_breaker_cooldown (cw_client ?w))"
    by (simp add: dead_service_def sample_io_def connected_world_def connect_with_config_def cooldown from_secs_def INSTANT_LIMIT_def)
  moreover have history: "client_history impatient_config [] ?w"
    by (rule history_connect)
  moreover from history have "breaker_inv ?w"
    by (rule client_history_reachable)
  moreover have "circuit_open_until (cw_client ?w) = None"
    by (simp add: connected_world_def connect_with_config_def)
  ultimately obtain message w' now where
    call: "client_evaluate ?io sample_action ?w = (Done (Inl (PolicyUnavailable message)), w')"
    and w': "cw_client w' = failed_breaker now (cw_client ?w)"
    using dead_service_call by blast
  have "circuit_of (cw_client w') = Open (now + circuit_breaker_cooldown (cw_client ?w))"
    unfolding w' by (simp add: circuit_of_def failed_breaker_def threshold saturating_inc_def)
  with client_is_circuit_breaker [OF history_call [OF history call]] history_call [OF history call] show ?thesis
    by (auto simp: cooldown)
qed

end
