(* ===== verification/Policy_Concurrent.thy ===== *)
theory Policy_Concurrent
  imports Policy_Service
begin

text \<open>
  The policy engine with concurrent calls. \<open>Policy_Service\<close> runs a handler as one step; here a handler
  of \<^verbatim>\<open>services/policy-engine/src/grpc.rs\<close> and an iteration of \<^verbatim>\<open>reload.rs\<close> are the sequences of their accesses to
  shared state (the \<open>RwLock\<close> around the policy and the atomics of the metrics), any number of handlers run at
  once, and the steps of all of them interleave in any order. A step makes at most one such access.
\<close>

section \<open>A handler, step by step\<close>

text \<open>
  The program counter of \<open>evaluate\<close> with the local variable \<open>decision\<close>: after the request was counted,
  after the evaluation on a snapshot of the policy, after its effect was counted, after each of the three
  updates of the latency histogram, and after the answer.
\<close>

datatype handler_pc =
  Entered
| Decided policy_decision
| Counted policy_decision
| LatencySummed policy_decision
| LatencyCounted policy_decision
| LatencyBucketed policy_decision
| Answered grpc_evaluate_response

definition handler_input :: "grpc_evaluate_request \<Rightarrow> policy_request" where
  "handler_input q = \<lparr>rq_subject = geq_subject q, rq_action = geq_action q, rq_resource = geq_resource q\<rparr>"

definition observe_sum :: "nat \<Rightarrow> policy_engine_metrics \<Rightarrow> policy_engine_metrics" where
  "observe_sum elapsed m =
     m\<lparr>evaluate_latency_sum_us := evaluate_latency_sum_us m + clamp_u64 (elapsed div 1000)\<rparr>"

definition observe_count :: "policy_engine_metrics \<Rightarrow> policy_engine_metrics" where
  "observe_count m = m\<lparr>evaluate_latency_count := evaluate_latency_count m + 1\<rparr>"

definition observe_bucket :: "nat \<Rightarrow> policy_engine_metrics \<Rightarrow> policy_engine_metrics" where
  "observe_bucket elapsed m = m\<lparr>evaluate_latency_bucket_counts :=
     bump_bucket 0 LATENCY_BUCKETS_US (clamp_u64 (elapsed div 1000)) (evaluate_latency_bucket_counts m)\<rparr>"

definition decision_response :: "policy_decision \<Rightarrow> grpc_evaluate_response" where
  "decision_response decision =
     (case map_decision_fields decision of (effect, reason, rule_id) \<Rightarrow>
        \<lparr>ger_effect = effect, ger_reason = reason, ger_rule_id = rule_id\<rparr>)"

definition handler_enter :: "policy_service \<Rightarrow> policy_service" where
  "handler_enter svc = svc_metric inc_evaluate_requests svc"

fun handler_step ::
  "(string \<Rightarrow> string option) \<Rightarrow> grpc_evaluate_request \<Rightarrow> nat \<Rightarrow> handler_pc \<Rightarrow> policy_service
     \<Rightarrow> handler_pc \<times> policy_service" where
  "handler_step to_str q elapsed Entered svc =
     (let svc1 = (case validate_subject (geq_subject q) of
                    Inl reason \<Rightarrow> svc_note (SubjectNotWorkloadId (geq_subject q) reason) svc
                  | Inr _ \<Rightarrow> svc)
      in (Decided (evaluate_policy (policy_current svc1) (handler_input q)), svc1))"
| "handler_step to_str q elapsed (Decided decision) svc =
     (Counted decision,
      if ger_effect (decision_response decision) = ''allow'' then svc_metric inc_allow svc
      else svc_metric inc_deny svc)"
| "handler_step to_str q elapsed (Counted decision) svc =
     (LatencySummed decision, svc_metric (observe_sum elapsed) svc)"
| "handler_step to_str q elapsed (LatencySummed decision) svc =
     (LatencyCounted decision, svc_metric observe_count svc)"
| "handler_step to_str q elapsed (LatencyCounted decision) svc =
     (LatencyBucketed decision, svc_metric (observe_bucket elapsed) svc)"
| "handler_step to_str q elapsed (LatencyBucketed decision) svc =
     (let request_id = metadata_value to_str (geq_metadata q) ''x-request-id'';
          correlation_id = metadata_value to_str (geq_metadata q) ''x-correlation-id'';
          response = decision_response decision
      in (Answered response,
          svc_note (PolicyRequestEvaluated (unwrap_or ''missing'' request_id) (unwrap_or ''missing'' correlation_id)
            (geq_subject q) (geq_action q) (geq_resource q) (ger_effect response) (ger_rule_id response)) svc))"
| "handler_step to_str q elapsed (Answered response) svc = (Answered response, svc)"

fun answered :: "handler_pc \<Rightarrow> bool" where
  "answered (Answered response) = True"
| "answered pc = False"

text \<open>\<open>n\<close> steps of one handler with nothing in between.\<close>

fun run_handler ::
  "nat \<Rightarrow> (string \<Rightarrow> string option) \<Rightarrow> grpc_evaluate_request \<Rightarrow> nat \<Rightarrow> handler_pc \<times> policy_service
     \<Rightarrow> handler_pc \<times> policy_service" where
  "run_handler 0 to_str q elapsed st = st"
| "run_handler (Suc n) to_str q elapsed (pc, svc) = run_handler n to_str q elapsed (handler_step to_str q elapsed pc svc)"

section \<open>The reload task, step by step\<close>

datatype poll_pc = PollIdle "nat option" | PollSwapped "nat option" policy_document

definition poll_check ::
  "(string \<Rightarrow> 'y + policy_document) \<Rightarrow> string \<Rightarrow> file_system \<Rightarrow> file_system \<Rightarrow> nat option \<Rightarrow> policy_service
     \<Rightarrow> poll_pc \<times> policy_service" where
  "poll_check from_yaml path fs_meta fs_read last_modified svc =
     (let current_modified = file_modified_time fs_meta path in
      if current_modified = last_modified then (PollIdle last_modified, svc)
      else
        let svc1 = svc_note (PolicyFileChanged path) svc in
        (case load_policy_document from_yaml fs_read path of
           Inr policy \<Rightarrow> (PollSwapped current_modified policy, policy_swap policy svc1)
         | Inl err \<Rightarrow> (PollIdle last_modified, svc_note (PolicyReloadFailed err) svc1)))"

definition poll_finish :: "nat option \<Rightarrow> policy_document \<Rightarrow> policy_service \<Rightarrow> poll_pc \<times> policy_service" where
  "poll_finish current_modified policy svc =
     (PollIdle current_modified,
      svc_note (PolicyReloaded (doc_version policy) (length (doc_rules policy)))
        (svc\<lparr>svc_metrics := try_with_policy_metrics (set_rules_loaded (length (doc_rules policy))) (svc_metrics svc)\<rparr>))"

section \<open>The running engine\<close>

text \<open>
  A call has its request, the duration its clock will show and its program counter. The ghosts \<open>hc_since\<close> and
  \<open>hc_until\<close> are the numbers of the policies in force at its first and its latest step.
\<close>

record handler_call =
  hc_request :: grpc_evaluate_request
  hc_elapsed :: nat
  hc_pc :: handler_pc
  hc_since :: nat
  hc_until :: nat

text \<open>\<open>en_policies\<close> is a ghost: the policies that were in force so far, the current one last.\<close>

record engine =
  en_service :: policy_service
  en_policies :: "policy_document list"
  en_calls :: "handler_call list"
  en_poll :: poll_pc

definition begin_call :: "grpc_evaluate_request \<Rightarrow> nat \<Rightarrow> engine \<Rightarrow> engine" where
  "begin_call q elapsed e =
     (let now = length (en_policies e) - 1 in
      e\<lparr>en_service := handler_enter (en_service e),
        en_calls := en_calls e @ [\<lparr>hc_request = q, hc_elapsed = elapsed, hc_pc = Entered,
                                   hc_since = now, hc_until = now\<rparr>]\<rparr>)"

definition proceed_call :: "(string \<Rightarrow> string option) \<Rightarrow> nat \<Rightarrow> engine \<Rightarrow> engine" where
  "proceed_call to_str i e =
     (let c = en_calls e ! i in
      case handler_step to_str (hc_request c) (hc_elapsed c) (hc_pc c) (en_service e) of (pc, svc) \<Rightarrow>
        e\<lparr>en_service := svc,
          en_calls := (en_calls e)[i := c\<lparr>hc_pc := pc, hc_until := length (en_policies e) - 1\<rparr>]\<rparr>)"

fun note_swap :: "poll_pc \<Rightarrow> policy_document list \<Rightarrow> policy_document list" where
  "note_swap (PollIdle lm) policies = policies"
| "note_swap (PollSwapped lm policy) policies = policies @ [policy]"

fun proceed_poll ::
  "(string \<Rightarrow> 'y + policy_document) \<Rightarrow> string \<Rightarrow> file_system \<Rightarrow> file_system \<Rightarrow> poll_pc \<Rightarrow> engine \<Rightarrow> engine" where
  "proceed_poll from_yaml path fs_meta fs_read (PollIdle lm) e =
     (case poll_check from_yaml path fs_meta fs_read lm (en_service e) of (pc, svc) \<Rightarrow>
        e\<lparr>en_service := svc, en_poll := pc, en_policies := note_swap pc (en_policies e)\<rparr>)"
| "proceed_poll from_yaml path fs_meta fs_read (PollSwapped lm policy) e =
     (case poll_finish lm policy (en_service e) of (pc, svc) \<Rightarrow> e\<lparr>en_service := svc, en_poll := pc\<rparr>)"

text \<open>The file system may be in any of the given states whenever the reload task looks at it.\<close>

inductive engine_step ::
  "(string \<Rightarrow> string option) \<Rightarrow> (string \<Rightarrow> 'y + policy_document) \<Rightarrow> string \<Rightarrow> file_system set \<Rightarrow> engine \<Rightarrow> engine \<Rightarrow> bool"
  for to_str :: "string \<Rightarrow> string option" and from_yaml :: "string \<Rightarrow> 'y + policy_document"
    and path :: string and disks :: "file_system set" where
  call_begins: "engine_step to_str from_yaml path disks e (begin_call q elapsed e)"
| call_proceeds: "i < length (en_calls e) \<Longrightarrow> \<not> answered (hc_pc (en_calls e ! i)) \<Longrightarrow>
    engine_step to_str from_yaml path disks e (proceed_call to_str i e)"
| health_checked: "engine_step to_str from_yaml path disks e
    (e\<lparr>en_service := snd (grpc_check to_str h (en_service e))\<rparr>)"
| poll_proceeds: "fs_meta \<in> disks \<Longrightarrow> fs_read \<in> disks \<Longrightarrow>
    engine_step to_str from_yaml path disks e (proceed_poll from_yaml path fs_meta fs_read (en_poll e) e)"

definition engine_started :: "policy_service \<Rightarrow> nat option \<Rightarrow> engine" where
  "engine_started svc last_modified = \<lparr>en_service = svc, en_policies = [svc_shared svc], en_calls = [],
     en_poll = PollIdle last_modified\<rparr>"

section \<open>One handler alone is the atomic handler\<close>

lemma observe_in_three_steps:
  "observe_evaluate_latency elapsed m = observe_bucket elapsed (observe_count (observe_sum elapsed m))"
  by (simp add: observe_evaluate_latency_def observe_bucket_def observe_count_def observe_sum_def Let_def)

lemma decision_response_grpc:
  "decision_response (evaluate_policy (svc_shared svc) (handler_input q)) = fst (grpc_evaluate to_str elapsed q svc)"
  by (simp add: decision_response_def handler_input_def grpc_evaluate_response)

lemma handler_run:
  "run_handler 6 to_str q elapsed (Entered, handler_enter svc)
    = (Answered (fst (grpc_evaluate to_str elapsed q svc)), snd (grpc_evaluate to_str elapsed q svc))"
proof -
  obtain eff reason rule where m: "map_decision_fields (evaluate_policy (svc_shared svc)
      \<lparr>rq_subject = geq_subject q, rq_action = geq_action q, rq_resource = geq_resource q\<rparr>) = (eff, reason, rule)"
    by (cases "map_decision_fields (evaluate_policy (svc_shared svc)
      \<lparr>rq_subject = geq_subject q, rq_action = geq_action q, rq_resource = geq_resource q\<rparr>)")
  have six: "(6 :: nat) = Suc (Suc (Suc (Suc (Suc (Suc 0)))))" by simp
  show ?thesis
    by (cases "validate_subject (geq_subject q)"; cases "eff = ''allow''")
      (simp_all add: six handler_enter_def handler_input_def decision_response_def m grpc_evaluate_def Let_def
        svc_defs observe_in_three_steps)
qed

text \<open>
  The fine-grained handler refines to the atomic one: when no other handler and no reload comes between its
  steps, the six steps after the entry compute exactly the answer and the state of \<open>grpc_evaluate\<close>.
\<close>

theorem handler_alone_is_atomic:
  "run_handler 6 to_str q elapsed (Entered, handler_enter svc)
    = (Answered (fst (grpc_evaluate to_str elapsed q svc)), snd (grpc_evaluate to_str elapsed q svc))"
  by (rule handler_run)

lemma handler_run_policy:
  "fst (run_handler 6 to_str q elapsed (Entered, svc))
    = Answered (decision_response (evaluate_policy (svc_shared svc) (handler_input q)))"
  by (simp add: numeral_eq_Suc svc_defs Let_def split: sum.splits)

lemma poll_alone_is_atomic:
  "poll_step from_yaml path fs_meta fs_read (lm, svc) =
    (case poll_check from_yaml path fs_meta fs_read lm svc of
       (PollIdle lm', svc') \<Rightarrow> (lm', svc')
     | (PollSwapped lm' policy, svc') \<Rightarrow>
         (case poll_finish lm' policy svc' of (PollIdle l, s) \<Rightarrow> (l, s) | (PollSwapped l p, s) \<Rightarrow> (l, s)))"
  by (simp add: poll_step_def poll_check_def poll_finish_def Let_def split: sum.splits)

section \<open>Snapshots\<close>

fun pc_response :: "handler_pc \<Rightarrow> grpc_evaluate_response option" where
  "pc_response Entered = None"
| "pc_response (Decided d) = Some (decision_response d)"
| "pc_response (Counted d) = Some (decision_response d)"
| "pc_response (LatencySummed d) = Some (decision_response d)"
| "pc_response (LatencyCounted d) = Some (decision_response d)"
| "pc_response (LatencyBucketed d) = Some (decision_response d)"
| "pc_response (Answered r) = Some r"

definition call_ok :: "policy_document list \<Rightarrow> handler_call \<Rightarrow> bool" where
  "call_ok policies c \<longleftrightarrow> hc_since c \<le> hc_until c \<and> hc_until c < length policies
     \<and> (\<forall>r. pc_response (hc_pc c) = Some r \<longrightarrow>
          (\<exists>k. hc_since c \<le> k \<and> k \<le> hc_until c
            \<and> r = decision_response (evaluate_policy (policies ! k) (handler_input (hc_request c)))))"

lemma call_ok_append: "call_ok policies c \<Longrightarrow> call_ok (policies @ later) c"
  by (fastforce simp: call_ok_def nth_append)

lemma handler_step_shared: "svc_shared (snd (handler_step to_str q d pc svc)) = svc_shared svc"
  by (cases pc) (simp_all add: svc_defs Let_def split: sum.splits)

lemma handler_step_response:
  assumes "pc = Entered \<or> pc_response pc = Some r"
  shows "pc_response (fst (handler_step to_str q d pc svc)) =
    Some (if pc = Entered then decision_response (evaluate_policy (svc_shared svc) (handler_input q)) else r)"
  using assms by (cases pc) (auto simp: svc_defs Let_def split: sum.splits)

lemma pc_response_None: "pc_response pc = None \<longleftrightarrow> pc = Entered"
  by (cases pc) simp_all

definition snapshots_ok :: "engine \<Rightarrow> bool" where
  "snapshots_ok e \<longleftrightarrow> en_policies e \<noteq> [] \<and> svc_shared (en_service e) = List.last (en_policies e)
     \<and> list_all (call_ok (en_policies e)) (en_calls e)"

lemma proceed_call_ok:
  assumes "snapshots_ok e" "i < length (en_calls e)"
  shows "snapshots_ok (proceed_call to_str i e)"
proof -
  let ?c = "en_calls e ! i" and ?n = "length (en_policies e) - 1"
  obtain pc svc where s: "handler_step to_str (hc_request ?c) (hc_elapsed ?c) (hc_pc ?c) (en_service e) = (pc, svc)"
    by (meson surj_pair)
  have ok: "call_ok (en_policies e) ?c" and ne: "en_policies e \<noteq> []"
    and current: "svc_shared (en_service e) = en_policies e ! ?n"
    using assms by (simp_all add: snapshots_ok_def list_all_length last_conv_nth)
  have "call_ok (en_policies e) (?c\<lparr>hc_pc := pc, hc_until := ?n\<rparr>)"
  proof (cases "hc_pc ?c = Entered")
    case True
    then have "pc_response pc = Some (decision_response (evaluate_policy (en_policies e ! ?n) (handler_input (hc_request ?c))))"
      using handler_step_response [of "hc_pc ?c" _ to_str "hc_request ?c" "hc_elapsed ?c" "en_service e"] s current by simp
    with ok ne show ?thesis
      by (auto simp: call_ok_def intro!: exI [of _ ?n])
  next
    case False
    then obtain r where r: "pc_response (hc_pc ?c) = Some r"
      using pc_response_None by blast
    then have "pc_response pc = Some r"
      using handler_step_response [of "hc_pc ?c" r to_str "hc_request ?c" "hc_elapsed ?c" "en_service e"] s False by simp
    with ok r show ?thesis
      by (fastforce simp: call_ok_def)
  qed
  moreover have "svc_shared svc = svc_shared (en_service e)"
    using handler_step_shared [of to_str "hc_request ?c" "hc_elapsed ?c" "hc_pc ?c" "en_service e"] s by simp
  ultimately show ?thesis
    using assms s by (auto simp: snapshots_ok_def proceed_call_def Let_def list_all_iff dest!: set_update_subset_insert [THEN subsetD])
qed

lemma poll_check_shared:
  "svc_shared (snd (poll_check from_yaml path fs_meta fs_read lm svc)) =
    (case fst (poll_check from_yaml path fs_meta fs_read lm svc) of PollIdle _ \<Rightarrow> svc_shared svc | PollSwapped _ p \<Rightarrow> p)"
  by (simp add: poll_check_def svc_defs Let_def split: sum.splits)

lemma proceed_poll_ok:
  assumes "snapshots_ok e"
  shows "snapshots_ok (proceed_poll from_yaml path fs_meta fs_read (en_poll e) e)"
proof (cases "en_poll e")
  case (PollIdle lm)
  obtain pc svc where s: "poll_check from_yaml path fs_meta fs_read lm (en_service e) = (pc, svc)"
    by (meson surj_pair)
  then show ?thesis
    using assms PollIdle poll_check_shared [of from_yaml path fs_meta fs_read lm "en_service e"]
    by (cases pc) (auto simp: snapshots_ok_def list_all_iff intro: call_ok_append)
next
  case (PollSwapped lm policy)
  with assms show ?thesis
    by (simp add: snapshots_ok_def poll_finish_def svc_note_def)
qed

lemma snapshots_reachable:
  assumes "(engine_step to_str from_yaml path disks)\<^sup>*\<^sup>* (engine_started svc lm) e"
  shows "snapshots_ok e"
  using assms
proof (induction rule: rtranclp_induct)
  case base
  then show ?case by (simp add: snapshots_ok_def engine_started_def)
next
  case (step e e')
  from step(2) show ?case
  proof cases
    case (call_begins q elapsed)
    with step(3) show ?thesis
      by (auto simp: snapshots_ok_def begin_call_def handler_enter_def svc_metric_def call_ok_def Let_def)
  next
    case (call_proceeds i)
    with step(3) show ?thesis by (simp add: proceed_call_ok)
  next
    case (health_checked h)
    with step(3) show ?thesis
      by (simp add: snapshots_ok_def grpc_check_def svc_defs Let_def)
  next
    case (poll_proceeds fs_meta fs_read)
    with step(3) show ?thesis by (simp add: proceed_poll_ok)
  qed
qed

lemma answered_snapshot:
  assumes "(engine_step to_str from_yaml path disks)\<^sup>*\<^sup>* (engine_started svc lm) e"
    and "c \<in> set (en_calls e)" "hc_pc c = Answered response"
  shows "\<exists>k. hc_since c \<le> k \<and> k \<le> hc_until c \<and> hc_until c < length (en_policies e)
    \<and> response = fst (grpc_evaluate to_str elapsed (hc_request c) (svc\<lparr>svc_shared := en_policies e ! k\<rparr>))"
proof -
  have "call_ok (en_policies e) c"
    using snapshots_reachable [OF assms(1)] assms(2) by (simp add: snapshots_ok_def list_all_iff)
  with assms(3) obtain k where "hc_since c \<le> k" "k \<le> hc_until c" "hc_until c < length (en_policies e)"
    "response = decision_response (evaluate_policy (en_policies e ! k) (handler_input (hc_request c)))"
    by (auto simp: call_ok_def)
  then show ?thesis
    using decision_response_grpc [of "svc\<lparr>svc_shared := en_policies e ! k\<rparr>" "hc_request c" to_str elapsed]
    by auto
qed

text \<open>
  C3: Calls are linearizable: in every reachable state of the concurrent engine, an answered call has answered as
  the atomic handler would have on one policy that was in force at a moment between the call's first and last
  step. A reload that happens meanwhile is seen entirely or not at all.
\<close>

theorem calls_linearizable:
  assumes "(engine_step to_str from_yaml path disks)\<^sup>*\<^sup>* (engine_started svc lm) e"
    and "c \<in> set (en_calls e)" "hc_pc c = Answered response"
  shows "\<exists>k. hc_since c \<le> k \<and> k \<le> hc_until c \<and> hc_until c < length (en_policies e)
    \<and> response = fst (grpc_evaluate to_str elapsed (hc_request c) (svc\<lparr>svc_shared := en_policies e ! k\<rparr>))"
  by (rule answered_snapshot [OF assms])

section \<open>Counters\<close>

fun counted_effect :: "handler_pc \<Rightarrow> string option" where
  "counted_effect Entered = None"
| "counted_effect (Decided d) = None"
| "counted_effect pc = map_option ger_effect (pc_response pc)"

fun latency_counted :: "handler_pc \<Rightarrow> bool" where
  "latency_counted (LatencyCounted d) = True"
| "latency_counted (LatencyBucketed d) = True"
| "latency_counted (Answered r) = True"
| "latency_counted pc = False"

definition calls_with :: "(handler_pc \<Rightarrow> bool) \<Rightarrow> engine \<Rightarrow> nat" where
  "calls_with P e = count_of (\<lambda>c. P (hc_pc c)) (en_calls e)"

definition allowed :: "handler_pc \<Rightarrow> bool" where
  "allowed pc \<longleftrightarrow> counted_effect pc = Some ''allow''"

definition denied :: "handler_pc \<Rightarrow> bool" where
  "denied pc \<longleftrightarrow> counted_effect pc \<noteq> None \<and> counted_effect pc \<noteq> Some ''allow''"

definition engine_metrics :: "engine \<Rightarrow> policy_engine_metrics" where
  "engine_metrics e = policy_metrics_handle (svc_metrics (en_service e))"

definition counters_ok :: "engine \<Rightarrow> bool" where
  "counters_ok e \<longleftrightarrow> svc_metrics (en_service e) \<noteq> None
     \<and> evaluate_requests_total (engine_metrics e) = of_nat (length (en_calls e))
     \<and> evaluate_allow_total (engine_metrics e) = of_nat (calls_with allowed e)
     \<and> evaluate_deny_total (engine_metrics e) = of_nat (calls_with denied e)
     \<and> evaluate_latency_count (engine_metrics e) = of_nat (calls_with latency_counted e)
     \<and> (case en_poll e of
          PollIdle lm \<Rightarrow> rules_loaded (engine_metrics e) = of_nat (length (doc_rules (svc_shared (en_service e))))
        | PollSwapped lm p \<Rightarrow> svc_shared (en_service e) = p)"

lemma count_of_update:
  "i < length xs \<Longrightarrow> count_of P (xs[i := y]) + (if P (xs ! i) then 1 else 0) = count_of P xs + (if P y then 1 else 0)"
proof (induction xs arbitrary: i)
  case (Cons x xs)
  then show ?case by (cases i) auto
qed simp

text \<open>What a step does to the metrics, and how it moves its call between the classes.\<close>

fun step_metrics :: "nat \<Rightarrow> handler_pc \<Rightarrow> policy_engine_metrics \<Rightarrow> policy_engine_metrics" where
  "step_metrics elapsed (Decided d) m = (if ger_effect (decision_response d) = ''allow'' then inc_allow m else inc_deny m)"
| "step_metrics elapsed (Counted d) m = observe_sum elapsed m"
| "step_metrics elapsed (LatencySummed d) m = observe_count m"
| "step_metrics elapsed (LatencyCounted d) m = observe_bucket elapsed m"
| "step_metrics elapsed pc m = m"

lemma handler_step_metrics:
  "svc_metrics svc = Some m \<Longrightarrow>
    svc_metrics (snd (handler_step to_str q elapsed pc svc)) = Some (step_metrics elapsed pc m)"
  by (cases pc) (simp_all add: svc_defs Let_def split: sum.splits)

lemma step_metrics_others [simp]:
  "evaluate_requests_total (step_metrics elapsed pc m) = evaluate_requests_total m"
  "rules_loaded (step_metrics elapsed pc m) = rules_loaded m"
  by (cases pc; simp add: policy_metric_defs observe_sum_def observe_count_def observe_bucket_def)+

lemma step_metrics_allowed:
  assumes "\<not> answered pc"
  shows "evaluate_allow_total (step_metrics elapsed pc m) + of_bool (allowed pc)
    = evaluate_allow_total m + of_bool (allowed (fst (handler_step to_str q elapsed pc svc)))"
  using assms by (cases pc) (simp_all add: allowed_def Let_def inc_allow_def inc_deny_def observe_sum_def
      observe_count_def observe_bucket_def)

lemma step_metrics_denied:
  assumes "\<not> answered pc"
  shows "evaluate_deny_total (step_metrics elapsed pc m) + of_bool (denied pc)
    = evaluate_deny_total m + of_bool (denied (fst (handler_step to_str q elapsed pc svc)))"
  using assms by (cases pc) (simp_all add: denied_def Let_def inc_allow_def inc_deny_def observe_sum_def
      observe_count_def observe_bucket_def)

lemma step_metrics_latency:
  assumes "\<not> answered pc"
  shows "evaluate_latency_count (step_metrics elapsed pc m) + of_bool (latency_counted pc)
    = evaluate_latency_count m + of_bool (latency_counted (fst (handler_step to_str q elapsed pc svc)))"
  using assms by (cases pc) (simp_all add: Let_def inc_allow_def inc_deny_def observe_sum_def
      observe_count_def observe_bucket_def)

lemma calls_with_proceed:
  assumes "i < length (en_calls e)"
    and "pc = fst (handler_step to_str (hc_request (en_calls e ! i)) (hc_elapsed (en_calls e ! i)) (hc_pc (en_calls e ! i)) (en_service e))"
  shows "of_nat (calls_with P (proceed_call to_str i e)) + of_bool (P (hc_pc (en_calls e ! i)))
    = (of_nat (calls_with P e) + of_bool (P pc) :: u64)"
proof -
  let ?calls = "(en_calls e)[i := (en_calls e ! i)\<lparr>hc_pc := pc, hc_until := length (en_policies e) - 1\<rparr>]"
  have "en_calls (proceed_call to_str i e) = ?calls"
    by (simp add: proceed_call_def Let_def assms(2) split: prod.splits)
  then have "calls_with P (proceed_call to_str i e) + of_bool (P (hc_pc (en_calls e ! i))) = calls_with P e + of_bool (P pc)"
    using count_of_update [OF assms(1), of "\<lambda>c. P (hc_pc c)" "(en_calls e ! i)\<lparr>hc_pc := pc, hc_until := length (en_policies e) - 1\<rparr>"]
    by (simp add: calls_with_def split: if_splits)
  then have "(of_nat (calls_with P (proceed_call to_str i e) + of_bool (P (hc_pc (en_calls e ! i)))) :: u64)
      = of_nat (calls_with P e + of_bool (P pc))"
    by (rule arg_cong)
  then show ?thesis
    by simp
qed

lemma counter_moves: "X + a = x + b \<Longrightarrow> Y + a = y + b \<Longrightarrow> x = y \<Longrightarrow> X = (Y :: u64)"
  by (metis add_right_cancel)

lemma proceed_call_counters:
  assumes "counters_ok e" "i < length (en_calls e)" "\<not> answered (hc_pc (en_calls e ! i))"
  shows "counters_ok (proceed_call to_str i e)"
proof -
  let ?c = "en_calls e ! i" and ?e = "proceed_call to_str i e"
  obtain m where m: "svc_metrics (en_service e) = Some m"
    using assms(1) by (auto simp: counters_ok_def)
  obtain pc svc where s: "handler_step to_str (hc_request ?c) (hc_elapsed ?c) (hc_pc ?c) (en_service e) = (pc, svc)"
    by (meson surj_pair)
  then have pc: "pc = fst (handler_step to_str (hc_request ?c) (hc_elapsed ?c) (hc_pc ?c) (en_service e))" by simp
  let ?m = "step_metrics (hc_elapsed ?c) (hc_pc ?c) m"
  have svc: "en_service ?e = svc" "svc_metrics svc = Some ?m" "svc_shared svc = svc_shared (en_service e)"
    "en_poll ?e = en_poll e" "length (en_calls ?e) = length (en_calls e)"
    using s handler_step_metrics [OF m, of to_str "hc_request ?c" "hc_elapsed ?c" "hc_pc ?c"]
      handler_step_shared [of to_str "hc_request ?c" "hc_elapsed ?c" "hc_pc ?c" "en_service e"]
    by (simp_all add: proceed_call_def)
  have em: "engine_metrics e = m" "engine_metrics ?e = ?m"
    using m svc by (simp_all add: engine_metrics_def policy_metrics_handle_def)
  have old: "evaluate_allow_total m = of_nat (calls_with allowed e)" "evaluate_deny_total m = of_nat (calls_with denied e)"
    "evaluate_latency_count m = of_nat (calls_with latency_counted e)"
    using assms(1) em by (simp_all add: counters_ok_def)
  have "evaluate_allow_total ?m = of_nat (calls_with allowed ?e)"
    using step_metrics_allowed [OF assms(3)] calls_with_proceed [OF assms(2) pc] old(1) unfolding pc by (rule counter_moves)
  moreover have "evaluate_deny_total ?m = of_nat (calls_with denied ?e)"
    using step_metrics_denied [OF assms(3)] calls_with_proceed [OF assms(2) pc] old(2) unfolding pc by (rule counter_moves)
  moreover have "evaluate_latency_count ?m = of_nat (calls_with latency_counted ?e)"
    using step_metrics_latency [OF assms(3)] calls_with_proceed [OF assms(2) pc] old(3) unfolding pc by (rule counter_moves)
  ultimately show ?thesis
    using assms(1) svc em by (simp add: counters_ok_def split: poll_pc.splits)
qed

lemma begin_call_counters: "counters_ok e \<Longrightarrow> counters_ok (begin_call q elapsed e)"
  by (auto simp: counters_ok_def begin_call_def handler_enter_def engine_metrics_def calls_with_def allowed_def
      denied_def svc_defs inc_evaluate_requests_def Let_def split: poll_pc.splits)

lemma health_check_counters: "counters_ok e \<Longrightarrow> counters_ok (e\<lparr>en_service := snd (grpc_check to_str h (en_service e))\<rparr>)"
  by (auto simp: counters_ok_def grpc_check_def engine_metrics_def calls_with_def
      svc_defs inc_health_checks_def Let_def split: poll_pc.splits)

lemma proceed_poll_counters:
  "counters_ok e \<Longrightarrow> counters_ok (proceed_poll from_yaml path fs_meta fs_read (en_poll e) e)"
  by (cases "en_poll e")
    (auto simp: counters_ok_def poll_check_def poll_finish_def engine_metrics_def calls_with_def
      svc_defs set_rules_loaded_def Let_def split: sum.splits option.splits)

lemma engine_step_counters:
  "engine_step to_str from_yaml path disks e e' \<Longrightarrow> counters_ok e \<Longrightarrow> counters_ok e'"
  by (induction rule: engine_step.induct)
    (simp_all add: begin_call_counters proceed_call_counters health_check_counters proceed_poll_counters)

lemma policy_engine_main_Inr:
  assumes "policy_engine_main from_yaml parse_addr env fs = Inr (cfg, svc)"
  shows "load_policy_document from_yaml fs (pc_policy_path cfg) = Inr (svc_shared svc)"
    and "svc_metrics svc = Some (set_rules_loaded (length (doc_rules (svc_shared svc))) policy_metrics_default)"
  using assms by (auto simp: policy_engine_main_def result_simps init_policy_metrics_def Let_def)

lemma calls_with_split:
  "calls_with allowed e + calls_with denied e + calls_with (\<lambda>pc. counted_effect pc = None) e = length (en_calls e)"
  "calls_with latency_counted e + calls_with (\<lambda>pc. \<not> latency_counted pc) e = length (en_calls e)"
proof -
  have "count_of (\<lambda>c. allowed (hc_pc c)) cs + count_of (\<lambda>c. denied (hc_pc c)) cs
      + count_of (\<lambda>c. counted_effect (hc_pc c) = None) cs = length cs" for cs
    by (induction cs) (auto simp: allowed_def denied_def)
  then show "calls_with allowed e + calls_with denied e + calls_with (\<lambda>pc. counted_effect pc = None) e = length (en_calls e)"
    by (simp add: calls_with_def)
  have "count_of (\<lambda>c. latency_counted (hc_pc c)) cs + count_of (\<lambda>c. \<not> latency_counted (hc_pc c)) cs = length cs" for cs
    by (induction cs) auto
  then show "calls_with latency_counted e + calls_with (\<lambda>pc. \<not> latency_counted pc) e = length (en_calls e)"
    by (simp add: calls_with_def)
qed

text \<open>
  C37: The metrics balance in every reachable state of the concurrent engine, calls and a reload in progress
  included: requests are the calls that entered; allows, denies and the calls whose effect is not yet counted
  add up to them; so do the observed latencies and the calls not yet observed; the size gauge is the size of
  the policy in force unless the reload task stands between installing a policy and setting the gauge
  (counters modulo \<open>2 ^ 64\<close>).
\<close>

theorem concurrent_counters_balanced:
  assumes "policy_engine_main from_yaml parse_addr env fs = Inr (cfg, svc)"
    and "(engine_step to_str from_yaml (pc_policy_path cfg) disks)\<^sup>*\<^sup>* (engine_started svc lm) e"
  shows "evaluate_requests_total (engine_metrics e) = of_nat (length (en_calls e))
    \<and> evaluate_allow_total (engine_metrics e) + evaluate_deny_total (engine_metrics e)
        + of_nat (calls_with (\<lambda>pc. counted_effect pc = None) e) = evaluate_requests_total (engine_metrics e)
    \<and> evaluate_latency_count (engine_metrics e) + of_nat (calls_with (\<lambda>pc. \<not> latency_counted pc) e)
        = evaluate_requests_total (engine_metrics e)
    \<and> (case en_poll e of
         PollIdle _ \<Rightarrow> rules_loaded (engine_metrics e) = of_nat (length (doc_rules (svc_shared (en_service e))))
       | PollSwapped _ policy \<Rightarrow> svc_shared (en_service e) = policy)"
proof -
  have "counters_ok (engine_started svc lm)"
    using policy_engine_main_Inr [OF assms(1)]
    by (simp add: counters_ok_def engine_started_def engine_metrics_def policy_metrics_handle_def calls_with_def
        policy_metrics_default_def set_rules_loaded_def)
  with assms(2) have ok: "counters_ok e"
    by (induction rule: rtranclp_induct) (auto intro: engine_step_counters)
  have "of_nat (calls_with allowed e) + of_nat (calls_with denied e)
      + of_nat (calls_with (\<lambda>pc. counted_effect pc = None) e) = (of_nat (length (en_calls e)) :: u64)"
    and "of_nat (calls_with latency_counted e) + of_nat (calls_with (\<lambda>pc. \<not> latency_counted pc) e)
      = (of_nat (length (en_calls e)) :: u64)"
    by (simp_all add: calls_with_split flip: of_nat_add)
  with ok show ?thesis
    by (simp add: counters_ok_def split: poll_pc.splits)
qed

section \<open>Where policies come from\<close>

lemma proceed_call_policies: "en_policies (proceed_call to_str i e) = en_policies e"
  by (simp add: proceed_call_def Let_def split: prod.splits)

lemma engine_step_policies:
  assumes "engine_step to_str from_yaml path disks e e'" "policy \<in> set (en_policies e')"
  shows "policy \<in> set (en_policies e) \<or> (\<exists>fs\<in>disks. load_policy_document from_yaml fs path = Inr policy)"
  using assms
proof cases
  case (poll_proceeds fs_meta fs_read)
  with assms(2) show ?thesis
    by (cases "en_poll e") (auto simp: poll_check_def poll_finish_def Let_def split: sum.splits if_splits)
qed (auto simp: proceed_call_policies begin_call_def Let_def)

lemma policies_loaded:
  assumes "policy_engine_main from_yaml parse_addr env fs = Inr (cfg, svc)"
    and "(engine_step to_str from_yaml (pc_policy_path cfg) disks)\<^sup>*\<^sup>* (engine_started svc lm) e"
    and "policy \<in> set (en_policies e)"
  shows "\<exists>fs'\<in>insert fs disks. load_policy_document from_yaml fs' (pc_policy_path cfg) = Inr policy"
  using assms(2,3)
proof (induction rule: rtranclp_induct)
  case base
  with policy_engine_main_Inr(1) [OF assms(1)] show ?case
    by (simp add: engine_started_def)
next
  case (step e e')
  then show ?case
    using engine_step_policies [OF step(2) step.prems] by blast
qed

text \<open>What a client of the concurrent engine may rely on: an answer is the handler's on a policy that loaded.\<close>

lemma answered_from_loaded:
  assumes "policy_engine_main from_yaml parse_addr env fs = Inr (cfg, svc)"
    and "(engine_step to_str from_yaml (pc_policy_path cfg) disks)\<^sup>*\<^sup>* (engine_started svc lm) e"
    and "c \<in> set (en_calls e)" "hc_pc c = Answered response"
  shows "\<exists>fs'\<in>insert fs disks. \<exists>policy. load_policy_document from_yaml fs' (pc_policy_path cfg) = Inr policy
    \<and> response = fst (grpc_evaluate to_str elapsed (hc_request c) (svc\<lparr>svc_shared := policy\<rparr>))"
  using answered_snapshot [OF assms(2-4), of elapsed] policies_loaded [OF assms(1,2)] nth_mem le_less_trans
  by metis

section \<open>Progress\<close>

fun pc_rank :: "handler_pc \<Rightarrow> nat" where
  "pc_rank Entered = 0"
| "pc_rank (Decided d) = 1"
| "pc_rank (Counted d) = 2"
| "pc_rank (LatencySummed d) = 3"
| "pc_rank (LatencyCounted d) = 4"
| "pc_rank (LatencyBucketed d) = 5"
| "pc_rank (Answered r) = 6"

lemma answered_rank: "answered pc \<longleftrightarrow> pc_rank pc = 6"
  by (cases pc) simp_all

lemma pc_rank_le: "pc_rank pc \<le> 6"
  by (cases pc) simp_all

lemma handler_step_rank:
  "pc_rank (fst (handler_step to_str q elapsed pc svc)) = (if answered pc then 6 else Suc (pc_rank pc))"
  by (cases pc) (simp_all add: Let_def)

lemma run_handler_rank:
  "pc_rank (fst (run_handler n to_str q elapsed (pc, svc))) = min 6 (pc_rank pc + n)"
proof (induction n arbitrary: pc svc)
  case 0
  then show ?case using pc_rank_le [of pc] by simp
next
  case (Suc n)
  then show ?case
    using handler_step_rank [of to_str q elapsed pc svc]
    by (cases "handler_step to_str q elapsed pc svc") (auto simp: answered_rank split: if_splits)
qed

lemma proceed_call_simps:
  "en_service (proceed_call to_str i e) = snd (handler_step to_str (hc_request (en_calls e ! i))
     (hc_elapsed (en_calls e ! i)) (hc_pc (en_calls e ! i)) (en_service e))"
  "en_calls (proceed_call to_str i e) = (en_calls e)[i := (en_calls e ! i)
     \<lparr>hc_pc := fst (handler_step to_str (hc_request (en_calls e ! i)) (hc_elapsed (en_calls e ! i))
        (hc_pc (en_calls e ! i)) (en_service e)), hc_until := length (en_policies e) - 1\<rparr>]"
  "en_poll (proceed_call to_str i e) = en_poll e"
  by (simp_all add: proceed_call_def Let_def split: prod.splits)

text \<open>Steps of one call in a row are a run of its handler.\<close>

lemma proceed_calls_run:
  "i < length (en_calls e) \<Longrightarrow>
    (hc_pc (en_calls ((proceed_call to_str i ^^ n) e) ! i), en_service ((proceed_call to_str i ^^ n) e))
      = run_handler n to_str (hc_request (en_calls e ! i)) (hc_elapsed (en_calls e ! i))
          (hc_pc (en_calls e ! i), en_service e)
    \<and> length (en_calls ((proceed_call to_str i ^^ n) e)) = length (en_calls e)
    \<and> hc_request (en_calls ((proceed_call to_str i ^^ n) e) ! i) = hc_request (en_calls e ! i)
    \<and> en_policies ((proceed_call to_str i ^^ n) e) = en_policies e"
proof (induction n arbitrary: e)
  case (Suc n)
  then show ?case
    by (simp add: funpow_swap1 proceed_call_simps proceed_call_policies)
qed simp

lemma proceed_calls_reachable:
  assumes "i < length (en_calls e)" "pc_rank (hc_pc (en_calls e ! i)) + n \<le> 6"
  shows "(engine_step to_str from_yaml path disks)\<^sup>*\<^sup>* e ((proceed_call to_str i ^^ n) e)"
  using assms(2)
proof (induction n)
  case (Suc n)
  let ?e = "(proceed_call to_str i ^^ n) e"
  have "pc_rank (hc_pc (en_calls ?e ! i)) = min 6 (pc_rank (hc_pc (en_calls e ! i)) + n)"
    using proceed_calls_run [OF assms(1), where to_str = to_str and n = n]
      run_handler_rank [of n to_str "hc_request (en_calls e ! i)" "hc_elapsed (en_calls e ! i)"
        "hc_pc (en_calls e ! i)" "en_service e"] by (metis fst_conv)
  then have "\<not> answered (hc_pc (en_calls ?e ! i))"
    using Suc.prems by (simp add: answered_rank)
  moreover have "i < length (en_calls ?e)"
    using proceed_calls_run [OF assms(1)] assms(1) by metis
  ultimately show ?case
    using Suc by (auto intro: rtranclp.rtrancl_into_rtrancl call_proceeds)
qed simp

lemma call_answerable:
  obtains e c where "(engine_step to_str from_yaml path disks)\<^sup>*\<^sup>* (engine_started svc lm) e"
    "c \<in> set (en_calls e)" "hc_request c = q" "hc_pc c = Answered (fst (grpc_evaluate to_str elapsed q svc))"
proof
  let ?start = "begin_call q elapsed (engine_started svc lm)"
  let ?e = "(proceed_call to_str 0 ^^ 6) ?start"
  have e0: "en_calls ?start = [\<lparr>hc_request = q, hc_elapsed = elapsed, hc_pc = Entered, hc_since = 0, hc_until = 0\<rparr>]"
    and shared: "svc_shared (en_service ?start) = svc_shared svc"
    by (simp_all add: begin_call_def engine_started_def handler_enter_def svc_metric_def)
  have run: "hc_pc (en_calls ?e ! 0) = fst (run_handler 6 to_str q elapsed (Entered, en_service ?start))"
    "hc_request (en_calls ?e ! 0) = q" "length (en_calls ?e) = 1"
    using proceed_calls_run [where i = 0 and e = ?start and to_str = to_str and n = 6] by (simp_all add: e0 prod_eq_iff)
  show "en_calls ?e ! 0 \<in> set (en_calls ?e)"
    using run(3) by (intro nth_mem) simp
  show "hc_request (en_calls ?e ! 0) = q"
    by (rule run(2))
  show "hc_pc (en_calls ?e ! 0) = Answered (fst (grpc_evaluate to_str elapsed q svc))"
    by (simp only: run(1) handler_run_policy shared decision_response_grpc [of svc q to_str elapsed])
  have "(engine_step to_str from_yaml path disks)\<^sup>*\<^sup>* (engine_started svc lm) ?start"
    by (intro r_into_rtranclp call_begins)
  moreover have "(engine_step to_str from_yaml path disks)\<^sup>*\<^sup>* ?start ?e"
    by (rule proceed_calls_reachable) (simp_all add: e0)
  ultimately show "(engine_step to_str from_yaml path disks)\<^sup>*\<^sup>* (engine_started svc lm) ?e"
    by (rule rtranclp_trans)
qed

definition steps_left :: "engine \<Rightarrow> nat" where
  "steps_left e = sum_list (map (\<lambda>c. 6 - pc_rank (hc_pc c)) (en_calls e))"

lemma proceed_call_steps_left:
  assumes "i < length (en_calls e)" "\<not> answered (hc_pc (en_calls e ! i))"
  shows "steps_left (proceed_call to_str i e) < steps_left e"
proof -
  have "6 - pc_rank (hc_pc (en_calls e ! i)) \<le> steps_left e"
    using elem_le_sum_list [of i "map (\<lambda>c. 6 - pc_rank (hc_pc c)) (en_calls e)"] assms(1) by (simp add: steps_left_def)
  then show ?thesis
    using assms pc_rank_le [of "hc_pc (en_calls e ! i)"]
    by (simp add: steps_left_def proceed_call_simps map_update sum_list_update handler_step_rank answered_rank)
qed


section \<open>A call and a reload that race\<close>

text \<open>
  The engine starts on a policy without rules. A call enters, the file by then holds another policy and the reload task
  installs it, and the call evaluates the new policy. A second call is left in progress.
\<close>

definition race_policy :: policy_document where
  "race_policy = \<lparr>doc_version = ''new'', doc_rules =
     [\<lparr>pr_id = ''r1'', pr_effect = RuleAllow, pr_subject = ''*'', pr_actions = [''*''], pr_resources = [''*'']\<rparr>]\<rparr>"

definition race_yaml :: "string \<Rightarrow> unit + policy_document" where
  "race_yaml s = (if s = ''new'' then Inr race_policy else Inr \<lparr>doc_version = s, doc_rules = []\<rparr>)"

definition race_disk :: "nat \<Rightarrow> string \<Rightarrow> file_system" where
  "race_disk t text = (\<lambda>_. Some \<lparr>fv_modified = Some t, fv_content = text\<rparr>)"

definition race_service :: policy_service where
  "race_service = \<lparr>svc_shared = \<lparr>doc_version = ''old'', doc_rules = []\<rparr>,
     svc_metrics = Some (set_rules_loaded 0 policy_metrics_default), svc_log = []\<rparr>"

definition race_request :: grpc_evaluate_request where
  "race_request = \<lparr>geq_metadata = (\<lambda>_. None), geq_subject = ''a/b'', geq_action = ''x'', geq_resource = ''y''\<rparr>"

definition race_installed :: engine where
  "race_installed =
     (let e = begin_call race_request 7 (engine_started race_service (Some 1)) in
      proceed_poll race_yaml ''config/policy.example.yaml'' (race_disk 2 ''new'') (race_disk 2 ''new'') (en_poll e) e)"

definition race_engine :: engine where
  "race_engine = begin_call race_request 7 ((proceed_call Some 0 ^^ 6) race_installed)"

lemma race_main:
  "policy_engine_main race_yaml (\<lambda>a. Inr a :: string + string) (\<lambda>_. None) (race_disk 1 ''old'')
    = Inr (\<lparr>pc_policy_path = ''config/policy.example.yaml'', pc_listen_addr = ''127.0.0.1:50051'',
        pc_metrics_listen_addr = ''127.0.0.1:9091'', pc_reload_interval_secs = 5\<rparr>, race_service)"
  by (simp add: policy_engine_main_def load_policy_document_def race_disk_def race_yaml_def race_service_def unwrap_or_def
      policy_reload_interval_def init_policy_metrics_def Let_def)

lemma race_installed:
  "en_calls race_installed = [\<lparr>hc_request = race_request, hc_elapsed = 7, hc_pc = Entered, hc_since = 0, hc_until = 0\<rparr>]"
  "svc_shared (en_service race_installed) = race_policy"
  "length (en_policies race_installed) = 2"
  by (simp_all add: race_installed_def begin_call_def engine_started_def poll_check_def file_modified_time_def race_disk_def
      load_policy_document_def race_yaml_def policy_swap_def svc_note_def)

lemma race_run:
  "hc_pc (en_calls ((proceed_call Some 0 ^^ 6) race_installed) ! 0)
    = Answered (decision_response (evaluate_policy race_policy (handler_input race_request)))"
  "hc_request (en_calls ((proceed_call Some 0 ^^ 6) race_installed) ! 0) = race_request"
  "length (en_calls ((proceed_call Some 0 ^^ 6) race_installed)) = 1"
  "length (en_policies ((proceed_call Some 0 ^^ 6) race_installed)) = 2"
  using proceed_calls_run [where i = 0 and e = race_installed and to_str = Some and n = 6]
    handler_run_policy [of Some race_request 7 "en_service race_installed"]
  by (simp_all add: race_installed prod_eq_iff)

lemma race_reachable:
  "(engine_step Some race_yaml ''config/policy.example.yaml'' {race_disk 2 ''new''})\<^sup>*\<^sup>*
     (engine_started race_service (Some 1)) race_engine"
proof -
  let ?step = "engine_step Some race_yaml ''config/policy.example.yaml'' {race_disk 2 ''new''}"
  let ?e1 = "begin_call race_request 7 (engine_started race_service (Some 1))"
  have a: "?step\<^sup>*\<^sup>* (engine_started race_service (Some 1)) ?e1"
    by (intro r_into_rtranclp call_begins)
  have b: "?step\<^sup>*\<^sup>* ?e1 race_installed"
    unfolding race_installed_def Let_def by (intro r_into_rtranclp poll_proceeds) simp_all
  have c: "?step\<^sup>*\<^sup>* race_installed ((proceed_call Some 0 ^^ 6) race_installed)"
    by (rule proceed_calls_reachable) (simp_all add: race_installed)
  have d: "?step\<^sup>*\<^sup>* ((proceed_call Some 0 ^^ 6) race_installed) race_engine"
    unfolding race_engine_def by (intro r_into_rtranclp call_begins)
  show ?thesis
    by (rule rtranclp_trans [OF rtranclp_trans [OF rtranclp_trans [OF a b] c] d])
qed

lemma race_answered:
  obtains c where "c \<in> set (en_calls race_engine)" "hc_request c = race_request"
    "hc_pc c = Answered (decision_response (evaluate_policy race_policy (handler_input race_request)))"
proof
  show "en_calls ((proceed_call Some 0 ^^ 6) race_installed) ! 0 \<in> set (en_calls race_engine)"
    using race_run(3) nth_mem [of 0 "en_calls ((proceed_call Some 0 ^^ 6) race_installed)"]
    by (simp add: race_engine_def begin_call_def Let_def)
qed (simp_all add: race_run)

theorem calls_linearizable_witness:
  "\<exists>k<2. decision_response (evaluate_policy race_policy (handler_input race_request))
    = fst (grpc_evaluate Some 7 race_request (race_service\<lparr>svc_shared := en_policies race_engine ! k\<rparr>))"
proof -
  obtain c where c: "c \<in> set (en_calls race_engine)" "hc_request c = race_request"
    "hc_pc c = Answered (decision_response (evaluate_policy race_policy (handler_input race_request)))"
    by (rule race_answered)
  have "length (en_policies race_engine) = 2"
    using race_run(4) by (simp add: race_engine_def begin_call_def Let_def)
  with calls_linearizable [OF race_reachable c(1,3), where elapsed = 7] c(2) show ?thesis
    by (metis le_less_trans)
qed

theorem concurrent_counters_balanced_witness:
  "evaluate_allow_total (engine_metrics race_engine) + evaluate_deny_total (engine_metrics race_engine)
    + of_nat (calls_with (\<lambda>pc. counted_effect pc = None) race_engine) = evaluate_requests_total (engine_metrics race_engine)"
  using concurrent_counters_balanced [OF race_main, of Some "{race_disk 2 ''new''}" "Some 1" race_engine] race_reachable
  by simp

end
