(* ===== verification/Metrics_Scrape.thy ===== *)
theory Metrics_Scrape
  imports Policy_Concurrent
begin

text \<open>
  A scrape of the policy engine's metrics while calls are being answered: \<open>render_prometheus\<close> of
  \<^verbatim>\<open>services/policy-engine/src/metrics.rs\<close> loads one atomic after the other, and any number of steps of the engine may
  come between two loads. Loads are taken in the order of the code, each from the engine as it is at that moment; the
  code's \<open>Relaxed\<close> ordering also allows a processor to reorder accesses to different atomics, which no theory here models.
\<close>

section \<open>The loads of one rendering\<close>

record policy_scrape =
  sc_requests :: u64
  sc_allows :: u64
  sc_denies :: u64
  sc_health_checks :: u64
  sc_rules :: u64
  sc_buckets :: "u64 list"
  sc_inf :: u64
  sc_sum :: u64
  sc_count :: u64

text \<open>\<open>ms k\<close> are the metrics at the load number \<open>k\<close>; the loop over the buckets makes the loads 5 to 14.\<close>

definition policy_scrape_of :: "(nat \<Rightarrow> policy_engine_metrics) \<Rightarrow> policy_scrape" where
  "policy_scrape_of ms =
     \<lparr>sc_requests = evaluate_requests_total (ms 0), sc_allows = evaluate_allow_total (ms 1),
      sc_denies = evaluate_deny_total (ms 2), sc_health_checks = health_checks_total (ms 3), sc_rules = rules_loaded (ms 4),
      sc_buckets = cumulative 0
        (map (\<lambda>idx. evaluate_latency_bucket_counts (ms (5 + idx)) ! idx) [0..<length LATENCY_BUCKETS_US]),
      sc_inf = evaluate_latency_count (ms 15), sc_sum = evaluate_latency_sum_us (ms 16), sc_count = evaluate_latency_count (ms 17)\<rparr>"

definition policy_scrape_text :: "policy_scrape \<Rightarrow> string" where
  "policy_scrape_text s =
     ''# TYPE llmos_policy_engine_evaluate_requests_total counter'' @ nl
     @ ''llmos_policy_engine_evaluate_requests_total '' @ show_u64 (sc_requests s) @ nl
     @ ''# TYPE llmos_policy_engine_allow_total counter'' @ nl
     @ ''llmos_policy_engine_allow_total '' @ show_u64 (sc_allows s) @ nl
     @ ''# TYPE llmos_policy_engine_deny_total counter'' @ nl
     @ ''llmos_policy_engine_deny_total '' @ show_u64 (sc_denies s) @ nl
     @ ''# TYPE llmos_policy_engine_health_checks_total counter'' @ nl
     @ ''llmos_policy_engine_health_checks_total '' @ show_u64 (sc_health_checks s) @ nl
     @ ''# TYPE llmos_policy_engine_rules_loaded gauge'' @ nl
     @ ''llmos_policy_engine_rules_loaded '' @ show_u64 (sc_rules s) @ nl
     @ ''# TYPE llmos_policy_engine_evaluate_latency_us histogram'' @ nl
     @ concat (map2 (\<lambda>boundary c. ''llmos_policy_engine_evaluate_latency_us_bucket{le='' @ [CHR 0x22] @ show_u64 boundary
         @ [CHR 0x22] @ ''} '' @ show_u64 c @ nl) LATENCY_BUCKETS_US (sc_buckets s))
     @ ''llmos_policy_engine_evaluate_latency_us_bucket{le='' @ [CHR 0x22] @ ''+Inf'' @ [CHR 0x22] @ ''} ''
       @ show_u64 (sc_inf s) @ nl
     @ ''llmos_policy_engine_evaluate_latency_us_sum '' @ show_u64 (sc_sum s) @ nl
     @ ''llmos_policy_engine_evaluate_latency_us_count '' @ show_u64 (sc_count s) @ nl"

text \<open>Without steps in between, the loads render the text of \<open>Policy_Metrics\<close>.\<close>

lemma scrape_alone_is_atomic:
  assumes "length (evaluate_latency_bucket_counts m) = length LATENCY_BUCKETS_US"
  shows "policy_scrape_text (policy_scrape_of (\<lambda>_. m)) = policy_render_prometheus m"
proof -
  have "map (\<lambda>idx. evaluate_latency_bucket_counts m ! idx) [0..<length LATENCY_BUCKETS_US] = evaluate_latency_bucket_counts m"
    using assms map_nth by metis
  then show ?thesis
    by (simp add: policy_scrape_text_def policy_scrape_of_def policy_render_prometheus_def bucket_lines_def)
qed

section \<open>Calls only move forward\<close>

definition later :: "engine \<Rightarrow> engine \<Rightarrow> bool" where
  "later e e' \<longleftrightarrow> length (en_calls e) \<le> length (en_calls e')
     \<and> (\<forall>i<length (en_calls e). hc_elapsed (en_calls e' ! i) = hc_elapsed (en_calls e ! i)
          \<and> pc_rank (hc_pc (en_calls e ! i)) \<le> pc_rank (hc_pc (en_calls e' ! i)))"

lemma later_refl: "later e e"
  by (simp add: later_def)

lemma later_trans:
  assumes "later e e'" "later e' e''"
  shows "later e e''"
  unfolding later_def
proof (intro conjI allI impI)
  show "length (en_calls e) \<le> length (en_calls e'')"
    using assms unfolding later_def by linarith
  fix i assume i: "i < length (en_calls e)"
  then have "i < length (en_calls e')"
    using assms(1) unfolding later_def by linarith
  with i assms show "hc_elapsed (en_calls e'' ! i) = hc_elapsed (en_calls e ! i)"
    "pc_rank (hc_pc (en_calls e ! i)) \<le> pc_rank (hc_pc (en_calls e'' ! i))"
    unfolding later_def by (metis, meson order_trans)
qed

lemma proceed_poll_calls: "en_calls (proceed_poll from_yaml path fs_meta fs_read pc e) = en_calls e"
  by (cases pc) (simp_all split: prod.splits)

lemma engine_step_later: "engine_step to_str from_yaml path disks e e' \<Longrightarrow> later e e'"
proof (induction rule: engine_step.induct)
  case (call_begins e q elapsed)
  then show ?case by (simp add: later_def begin_call_def nth_append Let_def)
next
  case (call_proceeds i e)
  then show ?case
    by (auto simp: later_def proceed_call_simps nth_list_update handler_step_rank answered_rank)
qed (simp_all add: later_def proceed_poll_calls)

lemma run_later: "(engine_step to_str from_yaml path disks)\<^sup>*\<^sup>* e e' \<Longrightarrow> later e e'"
  by (induction rule: rtranclp_induct) (auto intro: later_refl later_trans engine_step_later)

lemma count_of_later:
  "length xs \<le> length ys \<Longrightarrow> (\<And>i. i < length xs \<Longrightarrow> P (xs ! i) \<Longrightarrow> Q (ys ! i)) \<Longrightarrow> count_of P xs \<le> count_of Q ys"
proof (induction xs arbitrary: ys)
  case (Cons x xs)
  then obtain y zs where ys: "ys = y # zs"
    by (cases ys) auto
  have "count_of P xs \<le> count_of Q zs"
    using Cons.prems ys by (intro Cons.IH) (auto dest: Cons.prems(2) [of "Suc _", simplified])
  moreover have "P x \<Longrightarrow> Q y"
    using Cons.prems(2) [of 0] ys by simp
  ultimately show ?case
    by (auto simp: ys)
qed simp


section \<open>What the buckets count\<close>

definition latency_us :: "handler_call \<Rightarrow> u64" where
  "latency_us c = clamp_u64 (hc_elapsed c div 1000)"

text \<open>A call whose latency is in the buckets, and one whose latency is in the count.\<close>

definition in_buckets :: "handler_call \<Rightarrow> bool" where
  "in_buckets c \<longleftrightarrow> 5 \<le> pc_rank (hc_pc c)"

definition in_total :: "handler_call \<Rightarrow> bool" where
  "in_total c \<longleftrightarrow> 4 \<le> pc_rank (hc_pc c)"

definition recorded_in :: "nat \<Rightarrow> engine \<Rightarrow> nat" where
  "recorded_in i e = count_of (\<lambda>c. in_buckets c \<and> in_bucket LATENCY_BUCKETS_US i (latency_us c)) (en_calls e)"

definition recorded_below :: "u64 \<Rightarrow> engine \<Rightarrow> nat" where
  "recorded_below b e = count_of (\<lambda>c. in_buckets c \<and> latency_us c \<le> b) (en_calls e)"

definition buckets_ok :: "engine \<Rightarrow> bool" where
  "buckets_ok e \<longleftrightarrow> svc_metrics (en_service e) \<noteq> None
     \<and> length (evaluate_latency_bucket_counts (engine_metrics e)) = length LATENCY_BUCKETS_US
     \<and> (\<forall>i<length LATENCY_BUCKETS_US. evaluate_latency_bucket_counts (engine_metrics e) ! i = of_nat (recorded_in i e))"

lemma step_metrics_buckets:
  "evaluate_latency_bucket_counts (step_metrics elapsed pc m) =
    (if pc_rank pc = 4 then bump_bucket 0 LATENCY_BUCKETS_US (clamp_u64 (elapsed div 1000)) (evaluate_latency_bucket_counts m)
     else evaluate_latency_bucket_counts m)"
  by (cases pc) (simp_all add: inc_allow_def inc_deny_def observe_sum_def observe_count_def observe_bucket_def)

lemma proceed_call_buckets:
  assumes "buckets_ok e" "i < length (en_calls e)" "\<not> answered (hc_pc (en_calls e ! i))"
  shows "buckets_ok (proceed_call to_str i e)"
proof -
  let ?c = "en_calls e ! i" and ?e = "proceed_call to_str i e"
  define pc where "pc = fst (handler_step to_str (hc_request ?c) (hc_elapsed ?c) (hc_pc ?c) (en_service e))"
  let ?c' = "?c\<lparr>hc_pc := pc, hc_until := length (en_policies e) - 1\<rparr>"
  obtain m where m: "svc_metrics (en_service e) = Some m"
    using assms(1) by (auto simp: buckets_ok_def)
  have em: "engine_metrics e = m" "engine_metrics ?e = step_metrics (hc_elapsed ?c) (hc_pc ?c) m"
    "svc_metrics (en_service ?e) \<noteq> None"
    using m by (simp_all add: engine_metrics_def policy_metrics_handle_def proceed_call_simps handler_step_metrics [OF m])
  have rank: "pc_rank pc = Suc (pc_rank (hc_pc ?c))"
    using assms(3) by (simp add: pc_def handler_step_rank)
  have len: "length (evaluate_latency_bucket_counts m) = length LATENCY_BUCKETS_US"
    using assms(1) em(1) by (simp add: buckets_ok_def)
  have "evaluate_latency_bucket_counts (engine_metrics ?e) ! k = of_nat (recorded_in k ?e)"
    if k: "k < length LATENCY_BUCKETS_US" for k
  proof -
    let ?P = "\<lambda>c. in_buckets c \<and> in_bucket LATENCY_BUCKETS_US k (latency_us c)"
    have "recorded_in k ?e + (if ?P ?c then 1 else 0) = recorded_in k e + (if ?P ?c' then 1 else 0)"
      using count_of_update [OF assms(2), of ?P ?c'] by (simp only: recorded_in_def proceed_call_simps pc_def)
    then have "recorded_in k ?e = recorded_in k e
        + (if pc_rank (hc_pc ?c) = 4 \<and> in_bucket LATENCY_BUCKETS_US k (latency_us ?c) then 1 else 0)"
      using rank by (auto simp: in_buckets_def latency_us_def split: if_splits)
    moreover have "evaluate_latency_bucket_counts m ! k = of_nat (recorded_in k e)"
      using assms(1) em(1) k by (simp add: buckets_ok_def)
    ultimately show ?thesis
      using k len by (auto simp: em(2) step_metrics_buckets bump_bucket_nth in_bucket_def latency_us_def)
  qed
  then show ?thesis
    using em len by (simp add: buckets_ok_def step_metrics_buckets)
qed

lemma poll_check_metrics: "svc_metrics (snd (poll_check from_yaml path fs_meta fs_read lm svc)) = svc_metrics svc"
  by (simp add: poll_check_def svc_defs Let_def split: sum.splits)

lemma engine_step_buckets:
  "engine_step to_str from_yaml path disks e e' \<Longrightarrow> buckets_ok e \<Longrightarrow> buckets_ok e'"
proof (induction rule: engine_step.induct)
  case (call_begins e q elapsed)
  then show ?case
    by (auto simp: buckets_ok_def begin_call_def handler_enter_def engine_metrics_def recorded_in_def in_buckets_def
        svc_defs inc_evaluate_requests_def Let_def)
next
  case (call_proceeds i e)
  then show ?case by (simp add: proceed_call_buckets)
next
  case (health_checked e h)
  then show ?case
    by (auto simp: buckets_ok_def grpc_check_def engine_metrics_def recorded_in_def svc_defs inc_health_checks_def Let_def)
next
  case (poll_proceeds fs_meta fs_read e)
  then show ?case
    by (cases "en_poll e")
      (auto simp: buckets_ok_def poll_check_def poll_finish_def engine_metrics_def recorded_in_def svc_defs
        set_rules_loaded_def Let_def split: sum.splits option.splits)
qed

lemma reachable_metrics:
  assumes "policy_engine_main from_yaml parse_addr env fs = Inr (cfg, svc)"
    and "(engine_step to_str from_yaml path disks)\<^sup>*\<^sup>* (engine_started svc lm) e"
  shows "buckets_ok e \<and> evaluate_latency_count (engine_metrics e) = of_nat (count_of in_total (en_calls e))"
proof -
  have start: "buckets_ok (engine_started svc lm)" "counters_ok (engine_started svc lm)"
    using policy_engine_main_Inr [OF assms(1)]
    by (simp_all add: buckets_ok_def counters_ok_def engine_started_def engine_metrics_def policy_metrics_handle_def calls_with_def
        policy_metrics_default_def set_rules_loaded_def recorded_in_def)
  have "latency_counted pc \<longleftrightarrow> 4 \<le> pc_rank pc" for pc
    by (cases pc) simp_all
  then have total: "calls_with latency_counted e = count_of in_total (en_calls e)" for e
    by (simp add: calls_with_def in_total_def [abs_def])
  from assms(2) start have "buckets_ok e \<and> counters_ok e"
    by (induction rule: rtranclp_induct) (auto intro: engine_step_counters engine_step_buckets)
  then show ?thesis
    by (simp add: counters_ok_def total)
qed


section \<open>What a scrape shows\<close>

lemma boundaries_sorted: "sorted_wrt (<) LATENCY_BUCKETS_US"
  by (simp add: LATENCY_BUCKETS_US_def)

lemma recorded_sum:
  assumes "i < length LATENCY_BUCKETS_US"
  shows "sum_list (map (\<lambda>j. recorded_in j e) [0..<Suc i]) = recorded_below (LATENCY_BUCKETS_US ! i) e"
proof -
  have "count_of P (map latency_us (filter in_buckets cs)) = count_of (\<lambda>c. in_buckets c \<and> P (latency_us c)) cs" for P cs
    by (induction cs) auto
  with count_le_boundary [OF boundaries_sorted assms, of "map latency_us (filter in_buckets (en_calls e))"] show ?thesis
    by (simp only: recorded_in_def recorded_below_def)
qed

lemma later_counts:
  assumes "later e e'"
  shows "recorded_in j e \<le> recorded_in j e'" "recorded_below b e \<le> count_of in_total (en_calls e')"
    "count_of in_total (en_calls e) \<le> count_of in_total (en_calls e')"
  using assms unfolding recorded_in_def recorded_below_def later_def
  by (auto intro!: count_of_later simp: in_buckets_def in_total_def latency_us_def intro: order_trans)

lemma scrape_states:
  assumes "(engine_step to_str from_yaml path disks)\<^sup>*\<^sup>* (engine_started svc lm) (es 0)"
    and "\<forall>k<17. (engine_step to_str from_yaml path disks)\<^sup>*\<^sup>* (es k) (es (Suc k))"
    and "j \<le> k" "k \<le> 17"
  shows "(engine_step to_str from_yaml path disks)\<^sup>*\<^sup>* (engine_started svc lm) (es k)" "later (es j) (es k)"
proof -
  have run: "(engine_step to_str from_yaml path disks)\<^sup>*\<^sup>* (es j) (es k)" if "j \<le> k" "k \<le> 17" for j k
    using that
  proof (induction rule: dec_induct)
    case (step k)
    then show ?case
      using assms(2) by (meson Suc_le_lessD Suc_leD rtranclp_trans)
  qed simp
  show "(engine_step to_str from_yaml path disks)\<^sup>*\<^sup>* (engine_started svc lm) (es k)"
    using rtranclp_trans [OF assms(1) run [of 0 k]] assms(4) by simp
  show "later (es j) (es k)"
    by (rule run_later [OF run [OF assms(3,4)]])
qed


section \<open>A scrape between two calls\<close>

text \<open>
  The engine of the race example with one more call: idle before the first load, the first call answered before the
  second load, and the second call answered before the last one.
\<close>

definition scraped_once :: engine where
  "scraped_once = (proceed_call Some 0 ^^ 6) (begin_call race_request 7 (engine_started race_service (Some 1)))"

definition scraped_twice :: engine where
  "scraped_twice = (proceed_call Some 1 ^^ 6) (begin_call race_request 7 scraped_once)"

definition scrape_run :: "nat \<Rightarrow> engine" where
  "scrape_run k = (if k = 0 then engine_started race_service (Some 1) else if k < 16 then scraped_once else scraped_twice)"

lemma call_alone:
  assumes e': "e' = (proceed_call to_str (length (en_calls e)) ^^ 6) (begin_call q elapsed e)"
  shows "en_service e' = snd (grpc_evaluate to_str elapsed q (en_service e))"
    and "length (en_calls e') = Suc (length (en_calls e))"
    and "(engine_step to_str from_yaml path disks)\<^sup>*\<^sup>* e e'"
proof -
  let ?start = "begin_call q elapsed e" and ?i = "length (en_calls e)"
  have start: "?i < length (en_calls ?start)" "hc_pc (en_calls ?start ! ?i) = Entered" "hc_request (en_calls ?start ! ?i) = q"
    "hc_elapsed (en_calls ?start ! ?i) = elapsed" "en_service ?start = handler_enter (en_service e)"
    by (simp_all add: begin_call_def Let_def)
  show "en_service e' = snd (grpc_evaluate to_str elapsed q (en_service e))"
    and "length (en_calls e') = Suc (length (en_calls e))"
    using proceed_calls_run [OF start(1), where to_str = to_str and n = 6] handler_run [of to_str q elapsed "en_service e"]
    by (simp_all add: e' start begin_call_def Let_def prod_eq_iff)
  have "engine_step to_str from_yaml path disks e ?start"
    by (rule call_begins)
  moreover have "(engine_step to_str from_yaml path disks)\<^sup>*\<^sup>* ?start e'"
    unfolding e' by (rule proceed_calls_reachable [OF start(1)]) (simp add: start)
  ultimately show "(engine_step to_str from_yaml path disks)\<^sup>*\<^sup>* e e'"
    by (rule converse_rtranclp_into_rtranclp)
qed

lemma scraped_once:
  "en_service scraped_once = snd (grpc_evaluate Some 7 race_request race_service)" "length (en_calls scraped_once) = 1"
  "(engine_step Some race_yaml path disks)\<^sup>*\<^sup>* (engine_started race_service (Some 1)) scraped_once"
  using call_alone [OF refl, where to_str = Some and e = "engine_started race_service (Some 1)" and q = race_request and elapsed = 7]
  by (simp_all add: scraped_once_def engine_started_def)

lemma scraped_twice:
  "en_service scraped_twice = snd (grpc_evaluate Some 7 race_request (en_service scraped_once))" "length (en_calls scraped_twice) = 2"
  "(engine_step Some race_yaml path disks)\<^sup>*\<^sup>* scraped_once scraped_twice"
  using call_alone [OF refl, where to_str = Some and e = scraped_once and q = race_request and elapsed = 7]
  by (simp_all add: scraped_twice_def scraped_once(2))

lemma scrape_run_steps:
  "(engine_step Some race_yaml path disks)\<^sup>*\<^sup>* (scrape_run k) (scrape_run (Suc k))"
  using scraped_once(3) scraped_twice(3) by (auto simp: scrape_run_def)

text \<open>
  Numbers of one scrape need not fit each other: here it shows no request but one denial, and a \<open>+Inf\<close> line of 1 with a
  count of 2, as the counter is loaded once for each of the two lines.
\<close>

theorem scrape_is_no_snapshot:
  "let s = policy_scrape_of (\<lambda>k. engine_metrics (scrape_run k)) in
     sc_requests s = 0 \<and> sc_allows s = 0 \<and> sc_denies s = 1 \<and> sc_inf s = 1 \<and> sc_count s = 2"
proof -
  have "ger_effect (fst (grpc_evaluate Some 7 race_request race_service)) = ''deny''"
    by (simp add: grpc_evaluate_response race_service_def evaluate_policy_def map_decision_fields_def)
  then have one: "engine_metrics scraped_once = observe_evaluate_latency 7 (inc_deny (inc_evaluate_requests
      (set_rules_loaded 0 policy_metrics_default)))"
    using grpc_evaluate_metrics [of Some 7 race_request race_service]
    by (simp add: engine_metrics_def scraped_once(1) policy_metrics_handle_def race_service_def)
  have "evaluate_latency_count (engine_metrics scraped_twice) = evaluate_latency_count (engine_metrics scraped_once) + 1"
    using grpc_evaluate_metrics [of Some 7 race_request "en_service scraped_once"]
    by (simp add: engine_metrics_def scraped_twice(1) policy_metrics_handle_def observe_evaluate_latency_def inc_allow_def
        inc_deny_def inc_evaluate_requests_def Let_def)
  moreover have "engine_metrics (scrape_run 0) = set_rules_loaded 0 policy_metrics_default"
    by (simp add: scrape_run_def engine_metrics_def engine_started_def race_service_def policy_metrics_handle_def)
  moreover have "scrape_run (Suc 0) = scraped_once" "scrape_run 2 = scraped_once" "scrape_run 15 = scraped_once"
      "scrape_run 17 = scraped_twice"
    by (simp_all add: scrape_run_def)
  ultimately show ?thesis
    by (simp add: one policy_scrape_of_def policy_metric_defs policy_metrics_default_def Let_def)
qed


end
