(* ===== verification/Service_Bus.thy ===== *)
theory Service_Bus
  imports Common_Types Histogram "HOL-Library.AList"
begin

text \<open>
  \<^verbatim>\<open>crates/service-bus\<close>: message identifiers and envelopes (\<^verbatim>\<open>message.rs\<close>), the transport errors
  (\<^verbatim>\<open>transport.rs\<close>) and the in-process transport (\<^verbatim>\<open>channel.rs\<close>), and the audit sink on the bus
  (\<^verbatim>\<open>services/llmd/src/bus.rs\<close>). The channels of tokio are a parameter of the model; what the
  delivery theorem needs of them is the hypothesis \<open>mpsc_laws\<close>.
\<close>

section \<open>Messages\<close>

text \<open>Milliseconds since the epoch for a clock in nanoseconds; a clock before the epoch gives 0.\<close>

definition unix_millis :: "int \<Rightarrow> nat" where
  "unix_millis clock_ns = (if clock_ns < 0 then 0 else nat clock_ns div 10 ^ 6)"

text \<open>The format \<open>{prefix}-{ts}-{seq}\<close>.\<close>

definition seq_id :: "string \<Rightarrow> nat \<Rightarrow> u64 \<Rightarrow> string" where
  "seq_id pre ts seq = pre @ ''-'' @ show_nat ts @ ''-'' @ show_u64 seq"

text \<open>\<open>fetch_add(1)\<close> hands out the counter and wraps around.\<close>

definition message_id_generate :: "int \<Rightarrow> u64 \<Rightarrow> string \<times> u64" where
  "message_id_generate clock_ns seq = (seq_id ''msg'' (unix_millis clock_ns) seq, seq + 1)"

record 'j envelope =
  env_id :: string
  env_topic :: string
  env_source :: string
  env_payload :: 'j
  env_timestamp_unix_ms :: nat

definition envelope_new :: "int \<Rightarrow> int \<Rightarrow> string \<Rightarrow> string \<Rightarrow> 'j \<Rightarrow> u64 \<Rightarrow> 'j envelope \<times> u64" where
  "envelope_new id_clock clock topic source payload seq =
     (case message_id_generate id_clock seq of (i, seq') \<Rightarrow>
        (\<lparr>env_id = i, env_topic = topic, env_source = source, env_payload = payload,
          env_timestamp_unix_ms = unix_millis clock\<rparr>, seq'))"

lemma seq_id_inject_seq:
  assumes "seq_id p1 t1 s1 = seq_id p2 t2 s2"
  shows "s1 = s2"
proof -
  have "CHR ''-'' \<notin> set (show_nat n)" for n
    by (rule show_nat_not_in) (simp add: is_ascii_digit_def)
  then have "rsplit_once CHR ''-'' (seq_id p t s) = Some (p @ ''-'' @ show_nat t, show_u64 s)" for p t s
    by (simp add: rsplit_once_Some_iff seq_id_def show_u64_def)
  with assms have "show_u64 s1 = show_u64 s2"
    by (metis option.inject prod.inject)
  then show ?thesis
    by (simp add: show_u64_def word_unat_eq_iff)
qed

text \<open>The identifiers that successive calls hand out, one clock reading each.\<close>

fun message_ids :: "int list \<Rightarrow> u64 \<Rightarrow> string list" where
  "message_ids [] seq = []"
| "message_ids (t # ts) seq = (case message_id_generate t seq of (i, seq') \<Rightarrow> i # message_ids ts seq')"

lemma message_ids_nth:
  "n < length ts \<Longrightarrow> message_ids ts seq ! n = seq_id ''msg'' (unix_millis (ts ! n)) (seq + of_nat n)"
proof (induction ts arbitrary: seq n)
  case (Cons t ts)
  then show ?case
    by (cases n) (simp_all add: message_id_generate_def add.assoc)
qed simp

lemma length_message_ids [simp]: "length (message_ids ts seq) = length ts"
  by (induction ts arbitrary: seq) (simp_all add: message_id_generate_def)

lemma add_of_nat_inject:
  assumes "(seq :: u64) + of_nat i = seq + of_nat j" "i < 2 ^ 64" "j < 2 ^ 64"
  shows "i = j"
proof -
  have "unat (of_nat i :: u64) = unat (of_nat j :: u64)"
    using assms(1) by simp
  with assms(2,3) show ?thesis
    by (simp add: unat_of_nat)
qed

text \<open>
  Message identifiers are unique: whatever the clock says (standing still, going backwards), no two of
  \<open>2 ^ 64\<close> successive calls of \<open>MessageId::generate\<close> return the same identifier.
\<close>

theorem message_ids_distinct:
  assumes "length clocks \<le> 2 ^ 64"
  shows "distinct (message_ids clocks seq)"
proof -
  have "i = j" if "i < length clocks" "j < length clocks" "message_ids clocks seq ! i = message_ids clocks seq ! j" for i j
  proof -
    have "seq + of_nat i = seq + of_nat j"
      using that by (intro seq_id_inject_seq) (simp add: message_ids_nth)
    then show ?thesis
      using that assms by (intro add_of_nat_inject) auto
  qed
  then show ?thesis
    by (auto simp: distinct_conv_nth)
qed

theorem message_ids_distinct_witness: "distinct (message_ids [5, 5, - 1] (- 1))"
  by (rule message_ids_distinct) simp

section \<open>The transport\<close>

datatype transport_error = NoSubscribers string | SendFailed string | ReceiveFailed string | TransportClosed

fun transport_error_display :: "transport_error \<Rightarrow> string" where
  "transport_error_display (NoSubscribers t) = ''no subscribers for topic: '' @ t"
| "transport_error_display (SendFailed m) = ''send failed: '' @ m"
| "transport_error_display (ReceiveFailed m) = ''receive failed: '' @ m"
| "transport_error_display TransportClosed = ''transport closed''"

text \<open>
  The trait \<open>Transport\<close>: what the two operations promise about the subscriptions, as its clients use it.
  \<open>usable\<close> says that the transport's lock is not poisoned.
\<close>

locale transport =
  fixes publish :: "'j envelope \<Rightarrow> 's \<Rightarrow> (transport_error + unit) \<times> 's"
    and subscribe :: "string \<Rightarrow> 's \<Rightarrow> ((transport_error + 'ch) \<times> 's) outcome"
    and subscribers :: "'s \<Rightarrow> string \<Rightarrow> 'ch list"
    and usable :: "'s \<Rightarrow> bool"
  assumes publish_subscribers: "subscribers (snd (publish e s)) = subscribers s"
    and publish_usable: "usable (snd (publish e s)) = usable s"
    and publish_result: "usable s \<Longrightarrow> fst (publish e s) =
      (if subscribers s (env_topic e) = [] then Inl (NoSubscribers (env_topic e)) else Inr ())"
    and publish_error: "fst (publish e s) = Inl err \<Longrightarrow> snd (publish e s) = s"
    and subscribe_Inr: "subscribe t s = Done (Inr ch, s') \<Longrightarrow>
      subscribers s' = (subscribers s)(t := subscribers s t @ [ch]) \<and> usable s' = usable s"
begin

lemma publish_no_subscribers:
  assumes "usable s" "subscribers s (env_topic e) = []"
  shows "publish e s = (Inl (NoSubscribers (env_topic e)), s)"
  using publish_result [OF assms(1)] publish_error assms(2) by (simp add: prod_eq_iff)

lemma publish_all_no_subscribers:
  assumes "usable s" "\<forall>e\<in>set es. subscribers s (env_topic e) = []"
  shows "fold (\<lambda>e s. snd (publish e s)) es s = s"
  using assms(2) by (induction es) (simp_all add: publish_no_subscribers assms(1))

lemma subscribed_publish_succeeds:
  assumes "usable s" "subscribe (env_topic e) s = Done (Inr ch, s')"
  shows "fst (publish e s') = Inr ()"
  using subscribe_Inr [OF assms(2)] assms(1) publish_result [of s' e] by simp

end

section \<open>The in-process transport\<close>

text \<open>
  \<open>tokio::sync::mpsc\<close> as the code uses it: \<open>channel\<close> creates a bounded channel, given by a handle of
  its sender, and panics for capacity 0; \<open>try_send\<close> puts a message in without waiting or fails. All
  channels live in one state \<open>'q\<close>.
\<close>

record ('ch, 'j, 'q) mpsc =
  mp_channel :: "nat \<Rightarrow> 'q \<Rightarrow> ('ch \<times> 'q) outcome"
  mp_try_send :: "'ch \<Rightarrow> 'j envelope \<Rightarrow> 'q \<Rightarrow> (string + unit) \<times> 'q"

record ('ch, 'q) local_channel =
  lc_subscribers :: "(string \<times> 'ch list) list"
  lc_capacity :: nat
  lc_poisoned :: bool
  lc_channels :: 'q

definition DEFAULT_CHANNEL_CAPACITY :: nat where
  "DEFAULT_CHANNEL_CAPACITY = 256"

definition local_with_capacity :: "nat \<Rightarrow> 'q \<Rightarrow> ('ch, 'q) local_channel" where
  "local_with_capacity capacity q =
     \<lparr>lc_subscribers = [], lc_capacity = capacity, lc_poisoned = False, lc_channels = q\<rparr>"

definition local_new :: "'q \<Rightarrow> ('ch, 'q) local_channel" where
  "local_new = local_with_capacity DEFAULT_CHANNEL_CAPACITY"

text \<open>The loop over the senders: a failing \<open>try_send\<close> is logged and skipped.\<close>

fun send_to_all :: "('ch, 'j, 'q) mpsc \<Rightarrow> 'j envelope \<Rightarrow> 'ch list \<Rightarrow> 'q \<Rightarrow> 'q" where
  "send_to_all lib e [] q = q"
| "send_to_all lib e (ch # chs) q =
     (case mp_try_send lib ch e q of
        (Inl err, q1) \<Rightarrow> send_to_all lib e chs q1
      | (Inr _, q1) \<Rightarrow> send_to_all lib e chs q1)"

definition local_publish ::
  "('ch, 'j, 'q) mpsc \<Rightarrow> 'j envelope \<Rightarrow> ('ch, 'q) local_channel
     \<Rightarrow> (transport_error + unit) \<times> ('ch, 'q) local_channel" where
  "local_publish lib e s =
     (if lc_poisoned s then (Inl (SendFailed ''lock poisoned''), s)
      else case map_of (lc_subscribers s) (env_topic e) of
        None \<Rightarrow> (Inl (NoSubscribers (env_topic e)), s)
      | Some senders \<Rightarrow>
          if senders = [] then (Inl (NoSubscribers (env_topic e)), s)
          else (Inr (), s\<lparr>lc_channels := send_to_all lib e senders (lc_channels s)\<rparr>))"

definition local_subscribers :: "('ch, 'q) local_channel \<Rightarrow> string \<Rightarrow> 'ch list" where
  "local_subscribers s topic = (case map_of (lc_subscribers s) topic of None \<Rightarrow> [] | Some chs \<Rightarrow> chs)"

definition local_subscribe ::
  "('ch, 'j, 'q) mpsc \<Rightarrow> string \<Rightarrow> ('ch, 'q) local_channel
     \<Rightarrow> ((transport_error + 'ch) \<times> ('ch, 'q) local_channel) outcome" where
  "local_subscribe lib topic s =
     (case mp_channel lib (lc_capacity s) (lc_channels s) of
        Panic \<Rightarrow> Panic
      | Done (ch, q) \<Rightarrow>
          if lc_poisoned s then Done (Inl (SendFailed ''lock poisoned''), s\<lparr>lc_channels := q\<rparr>)
          else Done (Inr ch, s\<lparr>lc_channels := q, lc_subscribers :=
                 AList.update topic (local_subscribers s topic @ [ch]) (lc_subscribers s)\<rparr>))"

lemma local_publish_channels:
  "lc_subscribers (snd (local_publish lib e s)) = lc_subscribers s"
  "lc_poisoned (snd (local_publish lib e s)) = lc_poisoned s"
  "lc_capacity (snd (local_publish lib e s)) = lc_capacity s"
  by (auto simp: local_publish_def split: option.splits)

lemma local_publish_unfold:
  "\<not> lc_poisoned s \<Longrightarrow> local_publish lib e s =
     (if local_subscribers s (env_topic e) = [] then (Inl (NoSubscribers (env_topic e)), s)
      else (Inr (), s\<lparr>lc_channels := send_to_all lib e (local_subscribers s (env_topic e)) (lc_channels s)\<rparr>))"
  by (auto simp: local_publish_def local_subscribers_def split: option.splits)

interpretation local: transport "local_publish lib" "local_subscribe lib" local_subscribers "\<lambda>s. \<not> lc_poisoned s"
  for lib :: "('ch, 'j, 'q) mpsc"
proof
  fix e :: "'j envelope" and s :: "('ch, 'q) local_channel"
  show "local_subscribers (snd (local_publish lib e s)) = local_subscribers s"
    by (simp add: local_subscribers_def fun_eq_iff local_publish_channels)
  show "(\<not> lc_poisoned (snd (local_publish lib e s))) = (\<not> lc_poisoned s)"
    by (simp add: local_publish_channels)
  show "\<not> lc_poisoned s \<Longrightarrow> fst (local_publish lib e s) =
      (if local_subscribers s (env_topic e) = [] then Inl (NoSubscribers (env_topic e)) else Inr ())"
    by (simp add: local_publish_unfold)
  show "fst (local_publish lib e s) = Inl err \<Longrightarrow> snd (local_publish lib e s) = s" for err
    by (auto simp: local_publish_def split: option.splits if_splits)
next
  fix t :: string and s s' :: "('ch, 'q) local_channel" and ch
  assume "local_subscribe lib t s = Done (Inr ch, s')"
  then show "local_subscribers s' = (local_subscribers s)(t := local_subscribers s t @ [ch])
      \<and> (\<not> lc_poisoned s') = (\<not> lc_poisoned s)"
    by (auto simp: local_subscribe_def local_subscribers_def update_conv' fun_eq_iff
        split: outcome.splits if_splits)
qed

section \<open>Delivery\<close>

text \<open>
  What tokio documents of its channels: a new channel is fresh and empty; \<open>try_send\<close> appends the message
  to its channel when the channel accepts it (it is open and not full), and otherwise fails and changes
  nothing; it never touches another channel.
\<close>

definition mpsc_laws ::
  "('ch, 'j, 'q) mpsc \<Rightarrow> ('q \<Rightarrow> 'ch set) \<Rightarrow> ('q \<Rightarrow> 'ch \<Rightarrow> 'j envelope list) \<Rightarrow> ('q \<Rightarrow> 'ch \<Rightarrow> bool) \<Rightarrow> bool" where
  "mpsc_laws lib live buffered accepts \<longleftrightarrow>
     (\<forall>n q ch q'. mp_channel lib n q = Done (ch, q') \<longrightarrow>
        ch \<notin> live q \<and> live q' = insert ch (live q) \<and> buffered q' ch = []
        \<and> (\<forall>c\<in>live q. buffered q' c = buffered q c \<and> accepts q' c = accepts q c))
     \<and> (\<forall>ch e q. accepts q ch \<longrightarrow>
          (\<exists>q'. mp_try_send lib ch e q = (Inr (), q') \<and> live q' = live q \<and> buffered q' ch = buffered q ch @ [e]
            \<and> (\<forall>c. c \<noteq> ch \<longrightarrow> buffered q' c = buffered q c \<and> accepts q' c = accepts q c)))
     \<and> (\<forall>ch e q. \<not> accepts q ch \<longrightarrow> (\<exists>err. mp_try_send lib ch e q = (Inl err, q)))"

text \<open>
  The states of a bus: publishing and subscribing in any order, and in between the receivers and the
  runtime change the channels (they take messages out, or close a channel) without making new ones.
\<close>

inductive bus_reachable :: "('ch, 'j, 'q) mpsc \<Rightarrow> ('q \<Rightarrow> 'ch set) \<Rightarrow> ('ch, 'q) local_channel \<Rightarrow> bool"
  for lib :: "('ch, 'j, 'q) mpsc" and live :: "'q \<Rightarrow> 'ch set" where
  created: "bus_reachable lib live (local_with_capacity n q)"
| published: "bus_reachable lib live s \<Longrightarrow> bus_reachable lib live (snd (local_publish lib e s))"
| subscribed: "bus_reachable lib live s \<Longrightarrow> local_subscribe lib t s = Done (r, s') \<Longrightarrow> bus_reachable lib live s'"
| received: "bus_reachable lib live s \<Longrightarrow> live q = live (lc_channels s) \<Longrightarrow>
    bus_reachable lib live (s\<lparr>lc_channels := q\<rparr>)"

definition bus_inv :: "('q \<Rightarrow> 'ch set) \<Rightarrow> ('ch, 'q) local_channel \<Rightarrow> bool" where
  "bus_inv live s \<longleftrightarrow> \<not> lc_poisoned s
     \<and> (\<forall>t. distinct (local_subscribers s t) \<and> set (local_subscribers s t) \<subseteq> live (lc_channels s))"

lemma mpsc_channel:
  "mpsc_laws lib live buffered accepts \<Longrightarrow> mp_channel lib n q = Done (ch, q') \<Longrightarrow>
    ch \<notin> live q \<and> live q' = insert ch (live q)"
  unfolding mpsc_laws_def by blast

lemma mpsc_try_send_cases:
  assumes "mpsc_laws lib live buffered accepts"
  obtains q' where "accepts q ch" "mp_try_send lib ch e q = (Inr (), q')" "live q' = live q"
      "buffered q' ch = buffered q ch @ [e]"
      "\<And>c. c \<noteq> ch \<Longrightarrow> buffered q' c = buffered q c \<and> accepts q' c = accepts q c"
  | err where "\<not> accepts q ch" "mp_try_send lib ch e q = (Inl err, q)"
  using assms unfolding mpsc_laws_def by meson

lemma send_to_all_live:
  assumes "mpsc_laws lib live buffered accepts"
  shows "live (send_to_all lib e chs q) = live q"
proof (induction chs arbitrary: q)
  case (Cons ch chs)
  show ?case
    by (rule mpsc_try_send_cases [OF assms, of q ch e]) (simp_all add: Cons)
qed simp

lemma send_to_all_buffered:
  assumes "mpsc_laws lib live buffered accepts" "distinct chs"
  shows "buffered (send_to_all lib e chs q) c
    = buffered q c @ (if c \<in> set chs \<and> accepts q c then [e] else [])"
  using assms(2)
proof (induction chs arbitrary: q)
  case (Cons ch chs)
  show ?case
  proof (rule mpsc_try_send_cases [OF assms(1), of q ch e])
    fix q' assume "accepts q ch" "mp_try_send lib ch e q = (Inr (), q')" "buffered q' ch = buffered q ch @ [e]"
      "\<And>c. c \<noteq> ch \<Longrightarrow> buffered q' c = buffered q c \<and> accepts q' c = accepts q c"
    then show ?thesis
      using Cons by (cases "c = ch") auto
  next
    fix err assume "\<not> accepts q ch" "mp_try_send lib ch e q = (Inl err, q)"
    then show ?thesis
      using Cons by (cases "c = ch") auto
  qed
qed simp

lemma local_publish_inv:
  assumes "mpsc_laws lib live buffered accepts" "bus_inv live s"
  shows "bus_inv live (snd (local_publish lib e s))"
  using assms(2) by (simp add: bus_inv_def local_publish_unfold send_to_all_live [OF assms(1)] local_subscribers_def)

lemma local_subscribe_usable:
  assumes "local_subscribe lib t s = Done (r, s')" "\<not> lc_poisoned s"
  obtains ch where "r = Inr ch" "mp_channel lib (lc_capacity s) (lc_channels s) = Done (ch, lc_channels s')"
    "\<not> lc_poisoned s'" "local_subscribers s' = (local_subscribers s)(t := local_subscribers s t @ [ch])"
proof -
  from assms obtain ch where r: "r = Inr ch"
    and q: "mp_channel lib (lc_capacity s) (lc_channels s) = Done (ch, lc_channels s')" "\<not> lc_poisoned s'"
    by (auto simp: local_subscribe_def split: outcome.splits)
  from assms(1) have "local_subscribers s' = (local_subscribers s)(t := local_subscribers s t @ [ch])"
    unfolding r by (rule local.subscribe_Inr [THEN conjunct1])
  with r q show ?thesis
    by (rule that)
qed

lemma local_subscribe_inv:
  assumes "mpsc_laws lib live buffered accepts" "bus_inv live s" "local_subscribe lib t s = Done (r, s')"
  shows "bus_inv live s'"
proof -
  have "\<not> lc_poisoned s"
    using assms(2) by (simp add: bus_inv_def)
  then show ?thesis
  proof (rule local_subscribe_usable [OF assms(3)])
    fix ch
    assume c: "mp_channel lib (lc_capacity s) (lc_channels s) = Done (ch, lc_channels s')"
      and s': "\<not> lc_poisoned s'" "local_subscribers s' = (local_subscribers s)(t := local_subscribers s t @ [ch])"
    note c = mpsc_channel [OF assms(1) c]
    then have "distinct (local_subscribers s' u) \<and> set (local_subscribers s' u) \<subseteq> live (lc_channels s')" for u
      using assms(2) unfolding s'(2) bus_inv_def by (cases "u = t") auto
    with s'(1) show ?thesis
      by (simp add: bus_inv_def)
  qed
qed

lemma bus_reachable_inv:
  assumes "mpsc_laws lib live buffered accepts" "bus_reachable lib live s"
  shows "bus_inv live s"
  using assms(2)
proof (induction rule: bus_reachable.induct)
  case (created n q)
  then show ?case
    by (simp add: bus_inv_def local_with_capacity_def local_subscribers_def)
next
  case (published s e)
  then show ?case
    by (simp add: local_publish_inv [OF assms(1)])
next
  case (subscribed s t r s')
  then show ?case
    by (blast intro: local_subscribe_inv [OF assms(1)])
next
  case (received s q)
  then show ?case
    by (simp add: bus_inv_def local_subscribers_def)
qed

text \<open>
  Delivery on the bus: in every state that publishing, subscribing and receiving can reach, a publish
  that returns \<open>Ok\<close> appends the envelope exactly once to the channel of each subscriber of its topic that
  has room, and to no other; a full or closed channel misses it although the publisher is told \<open>Ok\<close>.
\<close>

theorem bus_delivers_once:
  assumes "mpsc_laws lib live buffered accepts" "bus_reachable lib live s"
    and "local_publish lib e s = (Inr (), s')"
  shows "local_subscribers s (env_topic e) \<noteq> [] \<and> (\<forall>ch. buffered (lc_channels s') ch =
    buffered (lc_channels s) ch @
      (if ch \<in> set (local_subscribers s (env_topic e)) \<and> accepts (lc_channels s) ch then [e] else []))"
proof -
  have inv: "\<not> lc_poisoned s" "distinct (local_subscribers s (env_topic e))"
    using bus_reachable_inv [OF assms(1,2)] by (simp_all add: bus_inv_def)
  with assms(3) have "local_subscribers s (env_topic e) \<noteq> []"
    and s': "s' = s\<lparr>lc_channels := send_to_all lib e (local_subscribers s (env_topic e)) (lc_channels s)\<rparr>"
    by (auto simp: local_publish_unfold split: if_splits)
  then show ?thesis
    by (simp add: send_to_all_buffered [OF assms(1) inv(2)])
qed

text \<open>Channels as a list of capacities and buffers, the handle being the index: an instance of the laws.\<close>

type_synonym list_channels = "(nat \<times> string envelope list) list"

definition list_mpsc :: "(nat, string, list_channels) mpsc" where
  "list_mpsc =
     \<lparr>mp_channel = (\<lambda>n qs. if n = 0 then Panic else Done (length qs, qs @ [(n, [])])),
      mp_try_send = (\<lambda>ch e qs.
        if ch < length qs \<and> length (snd (qs ! ch)) < fst (qs ! ch)
        then (Inr (), qs[ch := (fst (qs ! ch), snd (qs ! ch) @ [e])]) else (Inl ''no available capacity'', qs))\<rparr>"

definition list_buffered :: "list_channels \<Rightarrow> nat \<Rightarrow> string envelope list" where
  "list_buffered qs ch = (if ch < length qs then snd (qs ! ch) else [])"

definition list_accepts :: "list_channels \<Rightarrow> nat \<Rightarrow> bool" where
  "list_accepts qs ch \<longleftrightarrow> ch < length qs \<and> length (snd (qs ! ch)) < fst (qs ! ch)"

lemma list_mpsc_laws: "mpsc_laws list_mpsc (\<lambda>qs. {..<length qs}) list_buffered list_accepts"
  unfolding mpsc_laws_def
proof (intro conjI)
  show "\<forall>n q ch q'. mp_channel list_mpsc n q = Done (ch, q') \<longrightarrow>
      ch \<notin> {..<length q} \<and> {..<length q'} = insert ch {..<length q} \<and> list_buffered q' ch = []
      \<and> (\<forall>c\<in>{..<length q}. list_buffered q' c = list_buffered q c \<and> list_accepts q' c = list_accepts q c)"
    by (auto simp: list_mpsc_def list_buffered_def list_accepts_def nth_append split: if_splits)
qed (auto simp: list_mpsc_def list_buffered_def list_accepts_def nth_list_update)

definition sample_envelope :: "string envelope" where
  "sample_envelope = \<lparr>env_id = ''msg-0-1'', env_topic = ''t'', env_source = ''s'', env_payload = ''p'',
     env_timestamp_unix_ms = 0\<rparr>"

text \<open>Two subscribers with room for one message; the second message reaches nobody and is still \<open>Ok\<close>.\<close>

definition sample_bus :: "(nat, list_channels) local_channel" where
  "sample_bus = \<lparr>lc_subscribers = [(''t'', [0, 1])], lc_capacity = 1, lc_poisoned = False,
     lc_channels = [(1, []), (1, [])]\<rparr>"

lemma sample_bus_reachable: "bus_reachable list_mpsc (\<lambda>qs. {..<length qs}) sample_bus"
proof -
  let ?s1 = "\<lparr>lc_subscribers = [(''t'', [0 :: nat])], lc_capacity = 1, lc_poisoned = False,
     lc_channels = [(1, [])] :: list_channels\<rparr>"
  have "local_subscribe list_mpsc ''t'' (local_with_capacity 1 []) = Done (Inr 0, ?s1)"
    by (simp add: local_subscribe_def list_mpsc_def local_with_capacity_def local_subscribers_def)
  moreover have "local_subscribe list_mpsc ''t'' ?s1 = Done (Inr 1, sample_bus)"
    by (simp add: local_subscribe_def list_mpsc_def local_subscribers_def sample_bus_def)
  ultimately show ?thesis
    by (meson bus_reachable.created bus_reachable.subscribed)
qed

theorem bus_delivers_once_witness:
  "list_buffered (lc_channels (snd (local_publish list_mpsc sample_envelope sample_bus))) 1 = [sample_envelope]"
proof -
  obtain s' where s': "local_publish list_mpsc sample_envelope sample_bus = (Inr (), s')"
    by (simp add: local_publish_def sample_bus_def sample_envelope_def)
  have "list_buffered (lc_channels s') 1 = [sample_envelope]"
    using bus_delivers_once [OF list_mpsc_laws sample_bus_reachable s', THEN conjunct2, THEN spec, of 1]
    by (simp add: local_subscribers_def sample_bus_def sample_envelope_def list_buffered_def list_accepts_def)
  with s' show ?thesis by simp
qed

end
