(* ===== verification/Bus_Delivery.thy ===== *)
theory Bus_Delivery
  imports Service_Bus "HOL-Library.Sublist"
begin

text \<open>
  The service bus over a whole run. \<open>Service_Bus\<close> says what one publish does; here publishing, subscribing and receiving
  happen in any order, and the bus implements a log per topic: every subscriber sees, in the order of the log,
  the messages published on its topic since it subscribed, less those that found its channel full or closed.
\<close>

section \<open>Runs\<close>

text \<open>
  Ghosts beside the bus: the topic of each subscriber's channel, the log of each topic, the position in the log where the
  subscription began, the messages that the subscriber has taken, and how many it missed.
\<close>

record ('ch, 'j, 'q) bus_run =
  br_bus :: "('ch, 'q) local_channel"
  br_topic :: "'ch \<Rightarrow> string option"
  br_log :: "string \<Rightarrow> 'j envelope list"
  br_from :: "'ch \<Rightarrow> nat"
  br_taken :: "'ch \<Rightarrow> 'j envelope list"
  br_missed :: "'ch \<Rightarrow> nat"

definition bus_started :: "('ch, 'q) local_channel \<Rightarrow> ('ch, 'j, 'q) bus_run" where
  "bus_started s = \<lparr>br_bus = s, br_topic = (\<lambda>_. None), br_log = (\<lambda>_. []), br_from = (\<lambda>_. 0), br_taken = (\<lambda>_. []),
     br_missed = (\<lambda>_. 0)\<rparr>"

definition run_publish :: "('ch, 'j, 'q) mpsc \<Rightarrow> ('q \<Rightarrow> 'ch \<Rightarrow> bool) \<Rightarrow> 'j envelope \<Rightarrow> ('ch, 'j, 'q) bus_run \<Rightarrow> ('ch, 'j, 'q) bus_run" where
  "run_publish lib accepts e b =
     b\<lparr>br_bus := snd (local_publish lib e (br_bus b)),
       br_log := (br_log b)(env_topic e := br_log b (env_topic e) @ [e]),
       br_missed := (\<lambda>ch. br_missed b ch
          + of_bool (br_topic b ch = Some (env_topic e) \<and> \<not> accepts (lc_channels (br_bus b)) ch))\<rparr>"

definition run_subscribed :: "string \<Rightarrow> 'ch \<Rightarrow> ('ch, 'q) local_channel \<Rightarrow> ('ch, 'j, 'q) bus_run \<Rightarrow> ('ch, 'j, 'q) bus_run" where
  "run_subscribed t ch s b =
     b\<lparr>br_bus := s, br_topic := (br_topic b)(ch := Some t), br_from := (br_from b)(ch := length (br_log b t)),
       br_taken := (br_taken b)(ch := []), br_missed := (br_missed b)(ch := 0)\<rparr>"

text \<open>
  A receiver takes the oldest message of its channel; anything else that happens to the channels, such as closing one,
  makes no channel and leaves the buffers alone.
\<close>

inductive bus_step ::
  "('ch, 'j, 'q) mpsc \<Rightarrow> ('q \<Rightarrow> 'ch set) \<Rightarrow> ('q \<Rightarrow> 'ch \<Rightarrow> 'j envelope list) \<Rightarrow> ('q \<Rightarrow> 'ch \<Rightarrow> bool)
     \<Rightarrow> ('ch, 'j, 'q) bus_run \<Rightarrow> ('ch, 'j, 'q) bus_run \<Rightarrow> bool"
  for lib :: "('ch, 'j, 'q) mpsc" and live :: "'q \<Rightarrow> 'ch set" and buffered :: "'q \<Rightarrow> 'ch \<Rightarrow> 'j envelope list"
    and accepts :: "'q \<Rightarrow> 'ch \<Rightarrow> bool" where
  publishes: "bus_step lib live buffered accepts b (run_publish lib accepts e b)"
| subscribes: "local_subscribe lib t (br_bus b) = Done (Inr ch, s) \<Longrightarrow>
    bus_step lib live buffered accepts b (run_subscribed t ch s b)"
| takes: "ch \<in> live (lc_channels (br_bus b)) \<Longrightarrow> buffered (lc_channels (br_bus b)) ch = e # rest \<Longrightarrow>
    live q = live (lc_channels (br_bus b)) \<Longrightarrow> buffered q ch = rest \<Longrightarrow>
    (\<forall>c\<in>live q - {ch}. buffered q c = buffered (lc_channels (br_bus b)) c) \<Longrightarrow>
    bus_step lib live buffered accepts b
      (b\<lparr>br_bus := (br_bus b)\<lparr>lc_channels := q\<rparr>, br_taken := (br_taken b)(ch := br_taken b ch @ [e])\<rparr>)"
| changes: "live q = live (lc_channels (br_bus b)) \<Longrightarrow>
    (\<forall>c\<in>live q. buffered q c = buffered (lc_channels (br_bus b)) c) \<Longrightarrow>
    bus_step lib live buffered accepts b (b\<lparr>br_bus := (br_bus b)\<lparr>lc_channels := q\<rparr>\<rparr>)"

section \<open>The log\<close>

text \<open>What the bus owes a subscriber so far, and what the subscriber has of it.\<close>

definition owed :: "('ch, 'j, 'q) bus_run \<Rightarrow> string \<Rightarrow> 'ch \<Rightarrow> 'j envelope list" where
  "owed b t ch = drop (br_from b ch) (br_log b t)"

definition delivered :: "('q \<Rightarrow> 'ch \<Rightarrow> 'j envelope list) \<Rightarrow> ('ch, 'j, 'q) bus_run \<Rightarrow> 'ch \<Rightarrow> 'j envelope list" where
  "delivered buffered b ch = br_taken b ch @ buffered (lc_channels (br_bus b)) ch"

definition subscriber_ok ::
  "('q \<Rightarrow> 'ch \<Rightarrow> 'j envelope list) \<Rightarrow> ('ch, 'j, 'q) bus_run \<Rightarrow> string \<Rightarrow> 'ch \<Rightarrow> bool" where
  "subscriber_ok buffered b t ch \<longleftrightarrow> br_from b ch \<le> length (br_log b t)
     \<and> subseq (delivered buffered b ch) (owed b t ch)
     \<and> length (owed b t ch) = length (delivered buffered b ch) + br_missed b ch"

definition run_ok :: "('q \<Rightarrow> 'ch set) \<Rightarrow> ('q \<Rightarrow> 'ch \<Rightarrow> 'j envelope list) \<Rightarrow> ('ch, 'j, 'q) bus_run \<Rightarrow> bool" where
  "run_ok live buffered b \<longleftrightarrow> bus_inv live (br_bus b)
     \<and> (\<forall>ch t. ch \<in> set (local_subscribers (br_bus b) t) \<longleftrightarrow> br_topic b ch = Some t)
     \<and> (\<forall>ch t. br_topic b ch = Some t \<longrightarrow> subscriber_ok buffered b t ch)"

lemma run_ok_live: "run_ok live buffered b \<Longrightarrow> br_topic b ch = Some t \<Longrightarrow> ch \<in> live (lc_channels (br_bus b))"
  unfolding run_ok_def bus_inv_def by blast

text \<open>One more entry of the log, which the subscriber gets or misses; and no new entry.\<close>

lemma subscriber_ok_gets:
  assumes "subscriber_ok buffered b t ch" "br_from b' ch = br_from b ch" "br_log b' t = br_log b t @ [e]"
    and "delivered buffered b' ch = delivered buffered b ch @ [e]" "br_missed b' ch = br_missed b ch"
  shows "subscriber_ok buffered b' t ch"
  using assms by (auto simp: subscriber_ok_def owed_def list_emb_append_mono)

lemma subscriber_ok_misses:
  assumes "subscriber_ok buffered b t ch" "br_from b' ch = br_from b ch" "br_log b' t = br_log b t @ [e]"
    and "delivered buffered b' ch = delivered buffered b ch" "br_missed b' ch = Suc (br_missed b ch)"
  shows "subscriber_ok buffered b' t ch"
  using assms by (auto simp: subscriber_ok_def owed_def list_emb_append2)

lemma subscriber_ok_same:
  assumes "subscriber_ok buffered b t ch" "br_from b' ch = br_from b ch" "br_log b' t = br_log b t"
    and "delivered buffered b' ch = delivered buffered b ch" "br_missed b' ch = br_missed b ch"
  shows "subscriber_ok buffered b' t ch"
  using assms by (simp add: subscriber_ok_def owed_def)

lemma subscriber_ok_new:
  "br_from b ch = length (br_log b t) \<Longrightarrow> delivered buffered b ch = [] \<Longrightarrow> br_missed b ch = 0 \<Longrightarrow>
    subscriber_ok buffered b t ch"
  by (simp add: subscriber_ok_def owed_def)

lemma publish_delivered:
  assumes "mpsc_laws lib live buffered accepts" "run_ok live buffered b"
  shows "delivered buffered (run_publish lib accepts e b) ch = delivered buffered b ch
    @ (if br_topic b ch = Some (env_topic e) \<and> accepts (lc_channels (br_bus b)) ch then [e] else [])"
proof -
  let ?s = "br_bus b"
  have np: "\<not> lc_poisoned ?s" and dist: "distinct (local_subscribers ?s (env_topic e))"
    and subs: "ch \<in> set (local_subscribers ?s (env_topic e)) \<longleftrightarrow> br_topic b ch = Some (env_topic e)"
    using assms(2) by (simp_all add: run_ok_def bus_inv_def)
  have "lc_channels (snd (local_publish lib e ?s)) = send_to_all lib e (local_subscribers ?s (env_topic e)) (lc_channels ?s)"
    by (auto simp: local_publish_unfold [OF np])
  then show ?thesis
    by (simp add: delivered_def run_publish_def send_to_all_buffered [OF assms(1) dist] subs)
qed

lemma publish_ok:
  assumes "mpsc_laws lib live buffered accepts" "run_ok live buffered b"
  shows "run_ok live buffered (run_publish lib accepts e b)"
proof -
  let ?b = "run_publish lib accepts e b"
  have "bus_inv live (br_bus b)"
    using assms(2) by (simp add: run_ok_def)
  then have "bus_inv live (br_bus ?b)" "local_subscribers (br_bus ?b) = local_subscribers (br_bus b)"
    by (simp_all add: run_publish_def local.publish_subscribers local_publish_inv [OF assms(1)])
  moreover have "subscriber_ok buffered ?b t ch" if t: "br_topic b ch = Some t" for ch t
  proof -
    have ok: "subscriber_ok buffered b t ch"
      using assms(2) t by (simp add: run_ok_def)
    note d = publish_delivered [OF assms, of e ch]
    consider "t \<noteq> env_topic e" | "t = env_topic e" "accepts (lc_channels (br_bus b)) ch"
      | "t = env_topic e" "\<not> accepts (lc_channels (br_bus b)) ch"
      by blast
    then show ?thesis
    proof cases
      case 1
      then show ?thesis
        using t d by (intro subscriber_ok_same [OF ok]) (auto simp: run_publish_def)
    next
      case 2
      then show ?thesis
        using t d by (intro subscriber_ok_gets [OF ok]) (auto simp: run_publish_def)
    next
      case 3
      then show ?thesis
        using t d by (intro subscriber_ok_misses [OF ok]) (auto simp: run_publish_def)
    qed
  qed
  ultimately show ?thesis
    using assms(2) by (simp add: run_ok_def run_publish_def)
qed

lemma subscribe_ok:
  assumes "mpsc_laws lib live buffered accepts" "run_ok live buffered b"
    and "local_subscribe lib t (br_bus b) = Done (Inr ch, s)"
  shows "run_ok live buffered (run_subscribed t ch s b)"
proof -
  let ?b = "run_subscribed t ch s b"
  have inv: "bus_inv live (br_bus b)"
    using assms(2) by (simp add: run_ok_def)
  then have "\<not> lc_poisoned (br_bus b)"
    by (simp add: bus_inv_def)
  then have c: "mp_channel lib (lc_capacity (br_bus b)) (lc_channels (br_bus b)) = Done (ch, lc_channels s)"
    and subs: "local_subscribers s = (local_subscribers (br_bus b))(t := local_subscribers (br_bus b) t @ [ch])"
    by (auto elim: local_subscribe_usable [OF assms(3)])
  have new: "ch \<notin> live (lc_channels (br_bus b))" "buffered (lc_channels s) ch = []"
    and old: "\<And>c. c \<in> live (lc_channels (br_bus b)) \<Longrightarrow> buffered (lc_channels s) c = buffered (lc_channels (br_bus b)) c"
    using assms(1) c unfolding mpsc_laws_def by blast+
  have topic: "br_topic b ch \<noteq> Some t'" for t'
    using run_ok_live [OF assms(2)] new(1) by blast
  have "subscriber_ok buffered ?b t' c" if t': "br_topic ?b c = Some t'" for c t'
  proof (cases "c = ch")
    case True
    with t' new(2) show ?thesis
      by (intro subscriber_ok_new) (simp_all add: run_subscribed_def delivered_def)
  next
    case False
    with t' have bt: "br_topic b c = Some t'"
      by (simp add: run_subscribed_def)
    with assms(2) have ok: "subscriber_ok buffered b t' c"
      by (simp add: run_ok_def)
    from False old [OF run_ok_live [OF assms(2) bt]] show ?thesis
      by (intro subscriber_ok_same [OF ok]) (simp_all add: run_subscribed_def delivered_def)
  qed
  moreover have "c \<in> set (local_subscribers s t') \<longleftrightarrow> br_topic ?b c = Some t'" for c t'
    using assms(2) topic by (simp add: run_ok_def run_subscribed_def subs)
  ultimately show ?thesis
    using local_subscribe_inv [OF assms(1) inv assms(3)] by (simp add: run_ok_def run_subscribed_def)
qed

text \<open>Steps of the receivers and of the runtime leave the subscriptions and the log alone.\<close>

lemma channels_ok:
  assumes "run_ok live buffered b" "live q = live (lc_channels (br_bus b))"
    and "br_bus b' = (br_bus b)\<lparr>lc_channels := q\<rparr>" "br_topic b' = br_topic b" "br_log b' = br_log b"
    and "br_from b' = br_from b" "br_missed b' = br_missed b"
    and "\<And>c. c \<in> live q \<Longrightarrow> delivered buffered b' c = delivered buffered b c"
  shows "run_ok live buffered b'"
proof -
  have "subscriber_ok buffered b' t c" if "br_topic b c = Some t" for c t
  proof -
    have ok: "subscriber_ok buffered b t c"
      using assms(1) that by (simp add: run_ok_def)
    have "c \<in> live q"
      unfolding assms(2) by (rule run_ok_live [OF assms(1) that])
    with assms(3-8) show ?thesis
      by (intro subscriber_ok_same [OF ok]) simp_all
  qed
  moreover have "local_subscribers (br_bus b') = local_subscribers (br_bus b)"
    by (simp add: assms(3) local_subscribers_def fun_eq_iff)
  ultimately show ?thesis
    using assms(1-4) by (simp add: run_ok_def bus_inv_def)
qed

lemma bus_step_ok:
  assumes "mpsc_laws lib live buffered accepts" "bus_step lib live buffered accepts b b'" "run_ok live buffered b"
  shows "run_ok live buffered b'"
  using assms(2)
proof cases
  case (publishes e)
  then show ?thesis
    using publish_ok [OF assms(1,3)] by simp
next
  case (subscribes t ch s)
  then show ?thesis
    using subscribe_ok [OF assms(1,3)] by simp
next
  case (takes ch e rest q)
  then show ?thesis
    by (intro channels_ok [OF assms(3), where q = q]) (auto simp: delivered_def)
next
  case (changes q)
  then show ?thesis
    by (intro channels_ok [OF assms(3), where q = q]) (auto simp: delivered_def)
qed

lemma bus_started_ok: "run_ok live buffered (bus_started (local_with_capacity n q))"
  by (simp add: run_ok_def bus_started_def bus_inv_def local_with_capacity_def local_subscribers_def)


text \<open>
  A subscriber with room for one message: of three messages it takes the first, the second waits in its channel and
  the third is missed.
\<close>

definition another_envelope :: "nat \<Rightarrow> string envelope" where
  "another_envelope n = sample_envelope\<lparr>env_timestamp_unix_ms := n\<rparr>"

definition subscribed_run :: "(nat, string, list_channels) bus_run" where
  "subscribed_run = run_subscribed ''t'' 0
     (local_with_capacity 1 [(1, [])]\<lparr>lc_subscribers := [(''t'', [0])]\<rparr>) (bus_started (local_with_capacity 1 []))"

definition taken_run :: "(nat, string, list_channels) bus_run" where
  "taken_run = (let b = run_publish list_mpsc list_accepts (another_envelope 1) subscribed_run in
     b\<lparr>br_bus := (br_bus b)\<lparr>lc_channels := [(1, [])]\<rparr>, br_taken := (br_taken b)(0 := br_taken b 0 @ [another_envelope 1])\<rparr>)"

definition sample_run :: "(nat, string, list_channels) bus_run" where
  "sample_run = run_publish list_mpsc list_accepts (another_envelope 3)
     (run_publish list_mpsc list_accepts (another_envelope 2) taken_run)"

lemmas run_defs = bus_started_def run_publish_def run_subscribed_def local_with_capacity_def local_publish_def list_mpsc_def
  list_accepts_def list_buffered_def another_envelope_def sample_envelope_def

lemma sample_run_reaches:
  "(bus_step list_mpsc (\<lambda>qs. {..<length qs}) list_buffered list_accepts)\<^sup>*\<^sup>*
     (bus_started (local_with_capacity 1 [])) sample_run"
proof -
  let ?step = "bus_step list_mpsc (\<lambda>qs. {..<length qs}) list_buffered list_accepts"
  let ?b = "run_publish list_mpsc list_accepts (another_envelope 1) subscribed_run"
  have "?step (bus_started (local_with_capacity 1 [])) subscribed_run"
    unfolding subscribed_run_def
    by (rule subscribes) (simp add: run_defs local_subscribe_def local_subscribers_def)
  moreover have "?step subscribed_run ?b"
    by (rule publishes)
  moreover have "?step ?b taken_run"
    unfolding taken_run_def Let_def
    by (rule takes [where rest = "[]"]) (simp_all add: run_defs subscribed_run_def lessThan_Suc)
  moreover have "?step taken_run (run_publish list_mpsc list_accepts (another_envelope 2) taken_run)"
    by (rule publishes)
  moreover have "?step (run_publish list_mpsc list_accepts (another_envelope 2) taken_run) sample_run"
    unfolding sample_run_def by (rule publishes)
  ultimately show ?thesis
    by (meson converse_rtranclp_into_rtranclp rtranclp.rtrancl_refl)
qed

lemma sample_run_topic: "br_topic sample_run 0 = Some ''t''"
  by (simp add: sample_run_def taken_run_def subscribed_run_def run_publish_def run_subscribed_def Let_def)


end
