(* ===== verification/Model_Runtime.thy ===== *)
theory Model_Runtime
  imports Llmos_Prelude
begin

text \<open>
  \<^verbatim>\<open>crates/model-runtime/src\<close>: model configurations, requests and responses, the interface
  \<open>InferenceBackend\<close> as a locale, and its two implementations, the mock of \<^verbatim>\<open>backend.rs\<close> and the
  llama.cpp backend of \<^verbatim>\<open>llama.rs\<close> over the operations of the library, which are parameters.
  An \<open>f32\<close> is kept as its bit pattern.
\<close>

section \<open>Requests and responses\<close>

record model_config =
  mc_name :: string
  mc_model_path :: string
  mc_architecture :: string
  mc_quantization :: string
  mc_context_length :: u32
  mc_gpu_layers :: u32
  mc_threads :: u32

definition cpu_only :: "string \<Rightarrow> string \<Rightarrow> model_config" where
  "cpu_only name model_path = \<lparr>mc_name = name, mc_model_path = model_path,
     mc_architecture = ''unknown'', mc_quantization = ''Q4_K_M'', mc_context_length = 4096,
     mc_gpu_layers = 0, mc_threads = 4\<rparr>"

record inference_request =
  ir_prompt :: string
  ir_max_tokens :: u32
  ir_temperature :: u32
  ir_stop :: "string list"

definition inference_request_new :: "string \<Rightarrow> u32 \<Rightarrow> inference_request" where
  "inference_request_new prompt max_tokens =
     \<lparr>ir_prompt = prompt, ir_max_tokens = max_tokens, ir_temperature = 0x3F333333, ir_stop = []\<rparr>"

record token_usage =
  prompt_tokens :: u32
  completion_tokens :: u32

text \<open>An overflowing sum panics in a build with overflow checks and wraps in one without.\<close>

definition token_usage_total :: "bool \<Rightarrow> token_usage \<Rightarrow> u32 outcome" where
  "token_usage_total overflow_checks u =
     (if overflow_checks \<and> 2 ^ 32 \<le> unat (prompt_tokens u) + unat (completion_tokens u) then Panic
      else Done (prompt_tokens u + completion_tokens u))"

record inference_response =
  rs_text :: string
  rs_usage :: token_usage
  rs_ttft_ms :: u64
  rs_total_ms :: u64

datatype inference_error =
    NotLoaded string
  | ContextLengthExceeded u32 u32
  | InferenceFailed string
  | BackendError string

fun inference_error_display :: "inference_error \<Rightarrow> string" where
  "inference_error_display (NotLoaded m) = ''model not loaded: '' @ m"
| "inference_error_display (ContextLengthExceeded requested max_c) =
     ''context length exceeded: requested '' @ show_nat (unat requested) @ '', max '' @ show_nat (unat max_c)"
| "inference_error_display (InferenceFailed m) = ''inference failed: '' @ m"
| "inference_error_display (BackendError m) = ''backend error: '' @ m"

section \<open>The interface of a backend\<close>

text \<open>A sequence of loads (\<open>Some\<close> of a configuration) and unloads (\<open>None\<close>).\<close>

fun lifecycle ::
  "(model_config \<Rightarrow> 'b \<Rightarrow> (inference_error + unit) \<times> 'b) \<Rightarrow> ('b \<Rightarrow> (inference_error + unit) \<times> 'b)
     \<Rightarrow> model_config option list \<Rightarrow> 'b \<Rightarrow> 'b" where
  "lifecycle ld ul [] b = b"
| "lifecycle ld ul (Some config # cs) b = lifecycle ld ul cs (snd (ld config b))"
| "lifecycle ld ul (None # cs) b = lifecycle ld ul cs (snd (ul b))"

text \<open>
  \<open>wf\<close> is the invariant of the backend's private state, \<open>limit\<close> the context length of the model it
  holds. The laws are what the executor relies on.
\<close>

locale inference_backend =
  fixes wf :: "'b \<Rightarrow> bool"
    and limit :: "'b \<Rightarrow> u32"
    and load_model :: "model_config \<Rightarrow> 'b \<Rightarrow> (inference_error + unit) \<times> 'b"
    and is_loaded :: "'b \<Rightarrow> bool"
    and infer :: "inference_request \<Rightarrow> 'b \<Rightarrow> (inference_error + inference_response) outcome"
    and unload :: "'b \<Rightarrow> (inference_error + unit) \<times> 'b"
  assumes load_wf: "wf b \<Longrightarrow> wf (snd (load_model config b))"
    and load_loads: "fst (load_model config b) = Inr () \<Longrightarrow>
      is_loaded (snd (load_model config b)) \<and> limit (snd (load_model config b)) = mc_context_length config"
    and load_fails: "fst (load_model config b) = Inl err \<Longrightarrow> snd (load_model config b) = b"
    and unload_wf: "wf b \<Longrightarrow> wf (snd (unload b))"
    and unload_unloads: "fst (unload b) = Inr () \<and> \<not> is_loaded (snd (unload b))"
    and infer_total: "wf b \<Longrightarrow> infer request b \<noteq> Panic"
    and infer_unloaded: "\<not> is_loaded b \<Longrightarrow> infer request b = Done (Inl (NotLoaded ''no model loaded''))"
    and infer_bounds: "infer request b = Done (Inr response) \<Longrightarrow>
      completion_tokens (rs_usage response) \<le> ir_max_tokens request
      \<and> prompt_tokens (rs_usage response) \<le> limit b"
begin

lemma lifecycle_wf: "wf b \<Longrightarrow> wf (lifecycle load_model unload cs b)"
proof (induction cs arbitrary: b)
  case (Cons c cs)
  then show ?case by (cases c) (simp_all add: load_wf unload_wf)
qed simp

lemma lifecycle_never_panics: "wf b \<Longrightarrow> infer request (lifecycle load_model unload cs b) \<noteq> Panic"
  by (simp add: infer_total lifecycle_wf)

lemma infer_Inr_loaded: "infer request b = Done (Inr response) \<Longrightarrow> is_loaded b"
  using infer_unloaded by fastforce

lemma unload_then_infer: "infer request (snd (unload b)) = Done (Inl (NotLoaded ''no model loaded''))"
  by (simp add: infer_unloaded unload_unloads)

end

section \<open>The mock backend\<close>

record mock_backend =
  mb_loaded :: bool
  mb_config :: "model_config option"
  mb_response_text :: string

definition mock_new :: mock_backend where
  "mock_new = \<lparr>mb_loaded = False, mb_config = None, mb_response_text = ''mock response''\<rparr>"

definition mock_with_response :: "string \<Rightarrow> mock_backend \<Rightarrow> mock_backend" where
  "mock_with_response text b = b\<lparr>mb_response_text := text\<rparr>"

definition mock_loaded_model_name :: "mock_backend \<Rightarrow> string option" where
  "mock_loaded_model_name b = map_option mc_name (mb_config b)"

definition mock_load :: "model_config \<Rightarrow> mock_backend \<Rightarrow> (inference_error + unit) \<times> mock_backend" where
  "mock_load config b = (Inr (), b\<lparr>mb_config := Some config, mb_loaded := True\<rparr>)"

definition mock_infer :: "inference_request \<Rightarrow> mock_backend \<Rightarrow> (inference_error + inference_response) outcome" where
  "mock_infer request b =
     (if \<not> mb_loaded b then Done (Inl (NotLoaded ''no model loaded''))
      else case mb_config b of
        None \<Rightarrow> Panic
      | Some config \<Rightarrow>
          let prompt_t = of_nat (length (ir_prompt request) div 4);
              completion_t = min (ir_max_tokens request) 64
          in if mc_context_length config < prompt_t
             then Done (Inl (ContextLengthExceeded prompt_t (mc_context_length config)))
             else Done (Inr \<lparr>rs_text = mb_response_text b,
                    rs_usage = \<lparr>prompt_tokens = prompt_t, completion_tokens = completion_t\<rparr>,
                    rs_ttft_ms = 10, rs_total_ms = 50\<rparr>))"

definition mock_unload :: "mock_backend \<Rightarrow> (inference_error + unit) \<times> mock_backend" where
  "mock_unload b = (Inr (), b\<lparr>mb_loaded := False, mb_config := None\<rparr>)"

definition mock_wf :: "mock_backend \<Rightarrow> bool" where
  "mock_wf b \<longleftrightarrow> (mb_loaded b \<longleftrightarrow> mb_config b \<noteq> None)"

definition mock_limit :: "mock_backend \<Rightarrow> u32" where
  "mock_limit b = (case mb_config b of None \<Rightarrow> 0 | Some c \<Rightarrow> mc_context_length c)"

lemmas mock_defs = mock_wf_def mock_limit_def mock_load_def mock_infer_def mock_unload_def Let_def

interpretation mock: inference_backend mock_wf mock_limit mock_load mb_loaded mock_infer mock_unload
  by unfold_locales (auto simp: mock_defs not_less split: option.splits if_splits)

section \<open>The llama.cpp backend\<close>

text \<open>
  The operations of \<open>llama_cpp_4\<close> that the backend calls, over its handles for the library, a model,
  a context and a sampler. A batch is the list of its entries: token, position, and whether logits
  are requested; an error is its display.
\<close>

type_synonym llama_batch = "(nat \<times> 32 word \<times> bool) list"

record ('be, 'mo, 'cx, 'sa) llama_lib =
  ll_init :: "string + 'be"
  ll_load_from_file :: "'be \<Rightarrow> string \<Rightarrow> u32 option \<Rightarrow> string + 'mo"
  ll_new_context :: "'mo \<Rightarrow> 'be \<Rightarrow> u32 \<Rightarrow> u32 option \<Rightarrow> string + 'cx"
  ll_str_to_token :: "'mo \<Rightarrow> string \<Rightarrow> string + nat list"
  ll_batch_add :: "nat \<Rightarrow> llama_batch \<Rightarrow> nat \<times> 32 word \<times> bool \<Rightarrow> string + llama_batch"
  ll_decode :: "llama_batch \<Rightarrow> 'cx \<Rightarrow> string + 'cx"
  ll_sampler :: "u32 \<Rightarrow> 'sa"
  ll_sample :: "'sa \<Rightarrow> 'cx \<Rightarrow> nat \<times> 'sa"
  ll_is_eog_token :: "'mo \<Rightarrow> nat \<Rightarrow> bool"
  ll_token_to_str :: "'mo \<Rightarrow> nat \<Rightarrow> string option"

record ('be, 'mo) llama_backend =
  lb_backend :: "'be option"
  lb_model :: "'mo option"
  lb_config :: "model_config option"

definition llama_new :: "('be, 'mo) llama_backend" where
  "llama_new = \<lparr>lb_backend = None, lb_model = None, lb_config = None\<rparr>"

definition llama_load ::
  "('be, 'mo, 'cx, 'sa) llama_lib \<Rightarrow> model_config \<Rightarrow> ('be, 'mo) llama_backend
     \<Rightarrow> (inference_error + unit) \<times> ('be, 'mo) llama_backend" where
  "llama_load lib config b =
     (case ll_init lib of
        Inl e \<Rightarrow> (Inl (BackendError (''failed to initialize llama backend: '' @ e)), b)
      | Inr backend \<Rightarrow>
          (case ll_load_from_file lib backend (mc_model_path config)
              (if 0 < mc_gpu_layers config then Some (mc_gpu_layers config) else None) of
             Inl e \<Rightarrow> (Inl (NotLoaded (''failed to load model from '' @ mc_model_path config @ '': '' @ e)), b)
           | Inr model \<Rightarrow>
               (Inr (), b\<lparr>lb_backend := Some backend, lb_model := Some model, lb_config := Some config\<rparr>)))"

definition llama_is_loaded :: "('be, 'mo) llama_backend \<Rightarrow> bool" where
  "llama_is_loaded b \<longleftrightarrow> lb_model b \<noteq> None"

text \<open>Feeding the prompt: the loop over the tokens with their indices.\<close>

fun feed_prompt :: "('be, 'mo, 'cx, 'sa) llama_lib \<Rightarrow> nat \<Rightarrow> nat \<Rightarrow> nat \<Rightarrow> nat list \<Rightarrow> llama_batch
    \<Rightarrow> inference_error + llama_batch" where
  "feed_prompt lib cap cnt i [] batch = Inr batch"
| "feed_prompt lib cap cnt i (token # tokens) batch =
     (case ll_batch_add lib cap batch (token, of_nat i, i = cnt - 1) of
        Inl e \<Rightarrow> Inl (InferenceFailed (''batch add failed: '' @ e))
      | Inr batch' \<Rightarrow> feed_prompt lib cap cnt (i + 1) tokens batch')"

text \<open>\<open>truncate\<close> by the length of the first stop sequence that the text ends with.\<close>

fun trim_stop :: "string list \<Rightarrow> string \<Rightarrow> string" where
  "trim_stop [] text = text"
| "trim_stop (stop # stops) text =
     (if ends_with text stop then take (length text - length stop) text else trim_stop stops text)"

record ('cx, 'sa) gen_state =
  gen_ctx :: 'cx
  gen_sampler :: 'sa
  gen_text :: string
  gen_completion :: u32
  gen_cur :: nat

text \<open>The loop \<open>for _ in 0..request.max_tokens\<close>; the first argument counts the iterations left.\<close>

fun llama_generate ::
  "nat \<Rightarrow> ('be, 'mo, 'cx, 'sa) llama_lib \<Rightarrow> nat \<Rightarrow> 'mo \<Rightarrow> string list \<Rightarrow> ('cx, 'sa) gen_state
     \<Rightarrow> inference_error + ('cx, 'sa) gen_state" where
  "llama_generate 0 lib cap model stops g = Inr g"
| "llama_generate (Suc n) lib cap model stops g =
     (case ll_sample lib (gen_sampler g) (gen_ctx g) of (token, sampler) \<Rightarrow>
        if ll_is_eog_token lib model token then Inr (g\<lparr>gen_sampler := sampler\<rparr>)
        else
          let piece = (case ll_token_to_str lib model token of None \<Rightarrow> [] | Some p \<Rightarrow> p);
              g1 = g\<lparr>gen_sampler := sampler, gen_text := gen_text g @ piece,
                     gen_completion := gen_completion g + 1\<rparr>
          in if list_ex (\<lambda>stop. ends_with (gen_text g1) stop) stops
             then Inr (g1\<lparr>gen_text := trim_stop stops (gen_text g1)\<rparr>)
             else case ll_batch_add lib cap [] (token, of_nat (gen_cur g1), True) of
               Inl e \<Rightarrow> Inl (InferenceFailed (''batch add failed: '' @ e))
             | Inr batch \<Rightarrow>
                 (case ll_decode lib batch (gen_ctx g1) of
                    Inl e \<Rightarrow> Inl (InferenceFailed (''decode failed: '' @ e))
                  | Inr ctx \<Rightarrow>
                      llama_generate n lib cap model stops (g1\<lparr>gen_cur := gen_cur g1 + 1, gen_ctx := ctx\<rparr>)))"

text \<open>\<open>ttft\<close> and \<open>elapsed\<close> are the two readings of the elapsed time, in nanoseconds.\<close>

definition llama_infer ::
  "('be, 'mo, 'cx, 'sa) llama_lib \<Rightarrow> nat \<Rightarrow> nat \<Rightarrow> inference_request \<Rightarrow> ('be, 'mo) llama_backend
     \<Rightarrow> (inference_error + inference_response) outcome" where
  "llama_infer lib ttft elapsed request b =
     (case lb_model b of
        None \<Rightarrow> Done (Inl (NotLoaded ''no model loaded''))
      | Some model \<Rightarrow>
     (case lb_config b of None \<Rightarrow> Panic | Some config \<Rightarrow>
        let n_ctx = (if mc_context_length config = 0 then 4096 else mc_context_length config);
            threads = (if 0 < mc_threads config then Some (mc_threads config) else None)
        in
     (case lb_backend b of None \<Rightarrow> Panic | Some backend \<Rightarrow>
     (case ll_new_context lib model backend n_ctx threads of
        Inl e \<Rightarrow> Done (Inl (BackendError (''failed to create context: '' @ e)))
      | Inr ctx \<Rightarrow>
     (case ll_str_to_token lib model (ir_prompt request) of
        Inl e \<Rightarrow> Done (Inl (InferenceFailed (''tokenization failed: '' @ e)))
      | Inr tokens \<Rightarrow>
        let prompt_t = of_nat (length tokens); cap = unat (mc_context_length config) in
        if mc_context_length config < prompt_t
        then Done (Inl (ContextLengthExceeded prompt_t (mc_context_length config)))
        else
     (case feed_prompt lib cap (length tokens) 0 tokens [] of
        Inl err \<Rightarrow> Done (Inl err)
      | Inr batch \<Rightarrow>
     (case ll_decode lib batch ctx of
        Inl e \<Rightarrow> Done (Inl (InferenceFailed (''prompt decode failed: '' @ e)))
      | Inr ctx1 \<Rightarrow>
     (case llama_generate (unat (ir_max_tokens request)) lib cap model (ir_stop request)
         \<lparr>gen_ctx = ctx1, gen_sampler = ll_sampler lib (ir_temperature request), gen_text = [],
          gen_completion = 0, gen_cur = length tokens\<rparr> of
        Inl err \<Rightarrow> Done (Inl err)
      | Inr g \<Rightarrow>
          Done (Inr \<lparr>rs_text = gen_text g,
            rs_usage = \<lparr>prompt_tokens = prompt_t, completion_tokens = gen_completion g\<rparr>,
            rs_ttft_ms = of_nat (ttft div 10 ^ 6), rs_total_ms = of_nat (elapsed div 10 ^ 6)\<rparr>)))))))))"

definition llama_unload :: "('be, 'mo) llama_backend \<Rightarrow> (inference_error + unit) \<times> ('be, 'mo) llama_backend" where
  "llama_unload b = (Inr (), b\<lparr>lb_model := None, lb_config := None, lb_backend := None\<rparr>)"

definition llama_wf :: "('be, 'mo) llama_backend \<Rightarrow> bool" where
  "llama_wf b \<longleftrightarrow> (lb_model b \<noteq> None \<longrightarrow> lb_config b \<noteq> None \<and> lb_backend b \<noteq> None)"

definition llama_limit :: "('be, 'mo) llama_backend \<Rightarrow> u32" where
  "llama_limit b = (case lb_config b of None \<Rightarrow> 0 | Some c \<Rightarrow> mc_context_length c)"

section \<open>Generation\<close>

lemma llama_generate_Suc:
  assumes "llama_generate (Suc n) lib cap model stops g = Inr g'"
  obtains (eog) sampler where "g' = g\<lparr>gen_sampler := sampler\<rparr>"
  | (stop) sampler piece res where
      "g' = g\<lparr>gen_sampler := sampler, gen_text := res, gen_completion := gen_completion g + 1\<rparr>"
      "list_ex (\<lambda>stop. ends_with (gen_text g @ piece) stop) stops" "res = trim_stop stops (gen_text g @ piece)"
  | (again) sampler piece ctx where
      "llama_generate n lib cap model stops (g\<lparr>gen_sampler := sampler, gen_text := gen_text g @ piece,
         gen_completion := gen_completion g + 1, gen_cur := gen_cur g + 1, gen_ctx := ctx\<rparr>) = Inr g'"
proof -
  obtain token sampler where s: "ll_sample lib (gen_sampler g) (gen_ctx g) = (token, sampler)"
    by (meson surj_pair)
  define piece where "piece = (case ll_token_to_str lib model token of None \<Rightarrow> [] | Some p \<Rightarrow> p)"
  note unfold = assms [unfolded llama_generate.simps s prod.case Let_def piece_def [symmetric]]
  show thesis
  proof (cases "ll_is_eog_token lib model token")
    case True
    with unfold show thesis by (intro eog [where sampler = sampler]) simp
  next
    case not_eog: False
    show thesis
    proof (cases "list_ex (\<lambda>stop. ends_with (gen_text g @ piece) stop) stops")
      case True
      with unfold not_eog show thesis by (intro stop [where sampler = sampler and piece = piece]) auto
    next
      case False
      with unfold not_eog show thesis
        by (cases "ll_batch_add lib cap [] (token, of_nat (gen_cur g), True)")
          (auto split: sum.splits intro: again)
    qed
  qed
qed

lemma u32_inc: "unat g + Suc n < 2 ^ 32 \<Longrightarrow> unat (g + 1 :: u32) = unat g + 1"
proof -
  assume "unat g + Suc n < 2 ^ 32"
  then have "unat g + 1 < 2 ^ 32" by simp
  moreover have "unat (g + 1) = (unat g + 1) mod 2 ^ 32"
    by (simp add: unat_word_ariths)
  ultimately show ?thesis by (simp only: mod_less)
qed

lemma llama_generate_completion:
  assumes "llama_generate n lib cap model stops g = Inr g'" "unat (gen_completion g) + n < 2 ^ 32"
  shows "unat (gen_completion g') \<le> unat (gen_completion g) + n"
  using assms
proof (induction n arbitrary: g)
  case (Suc n)
  note inc = u32_inc [OF Suc.prems(2)]
  from Suc.prems(1) show ?case
  proof (cases rule: llama_generate_Suc)
    case (again sampler piece ctx)
    then have "unat (gen_completion g') \<le> unat (gen_completion g + 1) + n"
      using Suc.IH [OF again] Suc.prems(2) inc by simp
    then show ?thesis
      using inc by simp
  qed (use inc in simp_all)
qed simp

lemma trim_stop_append:
  assumes "list_ex (\<lambda>stop. ends_with text stop) stops"
  shows "\<exists>stop\<in>set stops. trim_stop stops text @ stop = text"
  using assms
proof (induction stops)
  case (Cons stop stops)
  show ?case
  proof (cases "ends_with text stop")
    case True
    then obtain r where "text = r @ stop"
      by (auto simp: ends_with_def suffix_def)
    with True show ?thesis by simp
  next
    case False
    with Cons show ?thesis by auto
  qed
qed simp

lemma llama_generate_text:
  "llama_generate n lib cap model stops g = Inr g' \<Longrightarrow>
    \<exists>pieces stop. gen_text g' @ stop = gen_text g @ concat pieces \<and> length pieces \<le> n
      \<and> (stop = [] \<or> stop \<in> set stops)"
proof (induction n arbitrary: g)
  case 0
  then show ?case by (intro exI [of _ "[]"]) simp
next
  case (Suc n)
  from Suc.prems(1) show ?case
  proof (cases rule: llama_generate_Suc)
    case (eog sampler)
    then show ?thesis by (intro exI [of _ "[]"]) simp
  next
    case (stop sampler piece res)
    obtain st where "st \<in> set stops" "res @ st = gen_text g @ piece"
      using trim_stop_append [OF stop(2)] stop(3) by auto
    with stop(1) show ?thesis
      by (intro exI [of _ "[piece]"] exI [of _ st]) simp
  next
    case (again sampler piece ctx)
    obtain pieces st where "gen_text g' @ st = (gen_text g @ piece) @ concat pieces" "length pieces \<le> n"
      "st = [] \<or> st \<in> set stops"
      using Suc.IH [OF again] by auto
    then show ?thesis
      by (intro exI [of _ "piece # pieces"] exI [of _ st]) simp
  qed
qed

section \<open>The llama.cpp backend keeps the contract\<close>

lemma llama_infer_Inr:
  assumes "llama_infer lib ttft elapsed request b = Done (Inr response)"
  obtains config model tokens ctx g cap where "lb_config b = Some config" "lb_model b = Some model"
    "prompt_tokens (rs_usage response) = of_nat (length (tokens :: nat list))"
    "\<not> mc_context_length config < of_nat (length tokens)"
    "llama_generate (unat (ir_max_tokens request)) lib cap model (ir_stop request)
       \<lparr>gen_ctx = ctx, gen_sampler = ll_sampler lib (ir_temperature request), gen_text = [],
        gen_completion = 0, gen_cur = length tokens\<rparr> = Inr g"
    "rs_text response = gen_text g" "completion_tokens (rs_usage response) = gen_completion g"
proof -
  note a = assms [unfolded llama_infer_def Let_def]
  from a obtain model where m: "lb_model b = Some model"
    by (cases "lb_model b") simp_all
  from a m obtain config where c: "lb_config b = Some config"
    by (cases "lb_config b") simp_all
  from a m c obtain be where be: "lb_backend b = Some be"
    by (cases "lb_backend b") simp_all
  note a1 = a [unfolded m c be option.case]
  let ?n = "if mc_context_length config = 0 then 4096 else mc_context_length config"
  let ?th = "if 0 < mc_threads config then Some (mc_threads config) else None"
  from a1 obtain ctx where ctx: "ll_new_context lib model be ?n ?th = Inr ctx"
    by (cases "ll_new_context lib model be ?n ?th") (simp_all split del: if_split)
  note a2 = a1 [unfolded ctx sum.case]
  from a2 obtain tokens where t: "ll_str_to_token lib model (ir_prompt request) = Inr tokens"
    by (cases "ll_str_to_token lib model (ir_prompt request)") simp_all
  note a3 = a2 [unfolded t sum.case]
  from a3 have le: "\<not> mc_context_length config < of_nat (length tokens)"
    by (cases "mc_context_length config < of_nat (length tokens)") simp_all
  note a4 = a3 [unfolded if_not_P [OF le]]
  let ?cap = "unat (mc_context_length config)"
  from a4 obtain batch where f: "feed_prompt lib ?cap (length tokens) 0 tokens [] = Inr batch"
    by (cases "feed_prompt lib ?cap (length tokens) 0 tokens []") simp_all
  note a5 = a4 [unfolded f sum.case]
  from a5 obtain ctx1 where d: "ll_decode lib batch ctx = Inr ctx1"
    by (cases "ll_decode lib batch ctx") simp_all
  note a6 = a5 [unfolded d sum.case]
  let ?g0 = "\<lparr>gen_ctx = ctx1, gen_sampler = ll_sampler lib (ir_temperature request), gen_text = [],
        gen_completion = 0, gen_cur = length tokens\<rparr>"
  from a6 obtain g where g: "llama_generate (unat (ir_max_tokens request)) lib ?cap model (ir_stop request) ?g0 = Inr g"
    by (cases "llama_generate (unat (ir_max_tokens request)) lib ?cap model (ir_stop request) ?g0") simp_all
  from a6 [unfolded g sum.case] have "prompt_tokens (rs_usage response) = of_nat (length tokens)"
    "rs_text response = gen_text g" "completion_tokens (rs_usage response) = gen_completion g"
    by auto
  with that [OF c m _ le g] show thesis by blast
qed

lemma llama_infer_bounds:
  assumes "llama_infer lib ttft elapsed request b = Done (Inr response)"
  shows "completion_tokens (rs_usage response) \<le> ir_max_tokens request
    \<and> prompt_tokens (rs_usage response) \<le> llama_limit b"
  using assms
proof (rule llama_infer_Inr)
  fix config model tokens ctx g cap
  assume *: "lb_config b = Some config" "prompt_tokens (rs_usage response) = of_nat (length (tokens :: nat list))"
    "\<not> mc_context_length config < of_nat (length tokens)"
    "llama_generate (unat (ir_max_tokens request)) lib cap model (ir_stop request)
       \<lparr>gen_ctx = ctx, gen_sampler = ll_sampler lib (ir_temperature request), gen_text = [],
        gen_completion = 0, gen_cur = length tokens\<rparr> = Inr g"
    "completion_tokens (rs_usage response) = gen_completion g"
  have "unat (gen_completion g) \<le> unat (ir_max_tokens request)"
    using llama_generate_completion [OF *(4)] unsigned_less [of "ir_max_tokens request"] by simp
  with * show ?thesis
    by (simp add: llama_limit_def word_le_nat_alt not_less)
qed

lemma llama_infer_total:
  assumes "llama_wf b"
  shows "llama_infer lib ttft elapsed request b \<noteq> Panic"
proof (cases "lb_model b")
  case None
  then show ?thesis by (simp add: llama_infer_def)
next
  case (Some model)
  with assms obtain config be where c: "lb_config b = Some config" and be: "lb_backend b = Some be"
    by (auto simp: llama_wf_def)
  let ?n = "if mc_context_length config = 0 then 4096 else mc_context_length config"
  let ?th = "if 0 < mc_threads config then Some (mc_threads config) else None"
  note unf = llama_infer_def Let_def Some c be option.case
  show ?thesis
  proof (cases "ll_new_context lib model be ?n ?th")
    case (Inl e)
    then show ?thesis unfolding unf Inl sum.case by simp
  next
    case ctx: (Inr ctx)
    show ?thesis
    proof (cases "ll_str_to_token lib model (ir_prompt request)")
      case (Inl e)
      then show ?thesis unfolding unf ctx Inl sum.case by simp
    next
      case t: (Inr tokens)
      show ?thesis unfolding unf ctx t sum.case
        by (cases "mc_context_length config < of_nat (length tokens)") (simp_all split: sum.split)
    qed
  qed
qed

interpretation llama: inference_backend llama_wf llama_limit "llama_load lib" llama_is_loaded
  "llama_infer lib ttft elapsed" llama_unload for lib ttft elapsed
proof unfold_locales
  show "llama_wf (snd (llama_load lib config b))" if "llama_wf b" for config b
    using that by (auto simp: llama_load_def llama_wf_def split: sum.splits split del: if_split)
  show "llama_is_loaded (snd (llama_load lib config b)) \<and> llama_limit (snd (llama_load lib config b)) = mc_context_length config"
    if "fst (llama_load lib config b) = Inr ()" for config b
    using that by (auto simp: llama_load_def llama_is_loaded_def llama_limit_def split: sum.splits split del: if_split)
  show "snd (llama_load lib config b) = b" if "fst (llama_load lib config b) = Inl err" for config b err
    using that by (auto simp: llama_load_def split: sum.splits split del: if_split)
  show "llama_wf (snd (llama_unload b))" if "llama_wf b" for b :: "('a, 'b) llama_backend"
    by (simp add: llama_unload_def llama_wf_def)
  show "fst (llama_unload b) = Inr () \<and> \<not> llama_is_loaded (snd (llama_unload b))" for b :: "('a, 'b) llama_backend"
    by (simp add: llama_unload_def llama_is_loaded_def)
  show "llama_infer lib ttft elapsed request b \<noteq> Panic" if "llama_wf b" for request b
    using that by (rule llama_infer_total)
  show "llama_infer lib ttft elapsed request b = Done (Inl (NotLoaded ''no model loaded''))"
    if "\<not> llama_is_loaded b" for request b
    using that by (simp add: llama_infer_def llama_is_loaded_def)
  show "completion_tokens (rs_usage response) \<le> ir_max_tokens request
      \<and> prompt_tokens (rs_usage response) \<le> llama_limit b"
    if "llama_infer lib ttft elapsed request b = Done (Inr response)" for request b response
    using that by (rule llama_infer_bounds)
qed



text \<open>
  A configuration with context length 0 asks the library for a context of 4096 tokens but can
  never run: every prompt with at least one token is rejected as exceeding a maximum of 0.
\<close>

theorem llama_zero_context_unusable:
  assumes "lb_model b = Some model" "lb_config b = Some config" "lb_backend b = Some be"
    and "mc_context_length config = 0"
    and "ll_new_context lib model be 4096 (if 0 < mc_threads config then Some (mc_threads config) else None) = Inr ctx"
    and "ll_str_to_token lib model (ir_prompt request) = Inr tokens"
    and "tokens \<noteq> []" "length tokens < 2 ^ 32"
  shows "llama_infer lib ttft elapsed request b = Done (Inl (ContextLengthExceeded (of_nat (length tokens)) 0))"
proof -
  have "unat (of_nat (length tokens) :: u32) = length tokens"
    using assms(8) by (simp add: unat_of_nat take_bit_nat_eq_self)
  then have "(0 :: u32) < of_nat (length tokens)"
    using assms(7) by (simp add: word_less_nat_alt)
  then show ?thesis
    using assms(1-6) by (simp add: llama_infer_def Let_def)
qed

definition sample_lib :: "(unit, unit, unit, unit) llama_lib" where
  "sample_lib = \<lparr>ll_init = Inr (), ll_load_from_file = (\<lambda>_ _ _. Inr ()), ll_new_context = (\<lambda>_ _ _ _. Inr ()),
     ll_str_to_token = (\<lambda>_ s. Inr (1 # map of_char s)), ll_batch_add = (\<lambda>_ b e. Inr (b @ [e])),
     ll_decode = (\<lambda>_ _. Inr ()), ll_sampler = (\<lambda>_. ()), ll_sample = (\<lambda>_ _. (65, ())),
     ll_is_eog_token = (\<lambda>_ _. False), ll_token_to_str = (\<lambda>_ t. Some [char_of t])\<rparr>"

theorem llama_zero_context_unusable_witness:
  "llama_infer sample_lib 0 0 (inference_request_new ''hi'' 8)
     \<lparr>lb_backend = Some (), lb_model = Some (), lb_config = Some ((cpu_only ''m'' ''p'')\<lparr>mc_context_length := 0\<rparr>)\<rparr>
   = Done (Inl (ContextLengthExceeded 3 0))"
  using llama_zero_context_unusable [where lib = sample_lib and model = "()" and be = "()" and ctx = "()"
      and b = "\<lparr>lb_backend = Some (), lb_model = Some (), lb_config = Some ((cpu_only ''m'' ''p'')\<lparr>mc_context_length := 0\<rparr>)\<rparr>"
      and config = "(cpu_only ''m'' ''p'')\<lparr>mc_context_length := 0\<rparr>" and request = "inference_request_new ''hi'' 8"
      and tokens = "[1, 104, 105]" and ttft = 0 and elapsed = 0]
  by (simp add: sample_lib_def inference_request_new_def cpu_only_def)

end
