(* ===== verification/Llmd.thy ===== *)
theory Llmd
  imports Policy_Client Model_Runtime
begin

text \<open>
  The action pipeline of llmd: \<open>process_action\<close> of \<^verbatim>\<open>services/llmd/src/lib.rs\<close> over an interface of
  three parties (policy client, executor, audit sink), the executors \<open>NoopExecutor\<close> and
  \<open>ModelExecutor\<close> (\<^verbatim>\<open>executor.rs\<close>), and the world of a running llmd that joins them.
\<close>

section \<open>Executors\<close>

definition truncate_text :: "string \<Rightarrow> nat \<Rightarrow> string outcome" where
  "truncate_text s max_len = (if length s \<le> max_len then Done s else str_slice s 0 max_len)"

definition executed_message :: "action_request \<Rightarrow> string" where
  "executed_message request = ''executed '' @ ar_action request @ '' for subject '' @ ar_subject request
     @ '' on '' @ ar_resource request"

definition noop_execute :: "action_request \<Rightarrow> (llmos_error + action_result) outcome" where
  "noop_execute request = Done (Inr \<lparr>res_version = ar_version request, res_status = Executed,
     res_message = executed_message request\<rparr>)"

definition model_execute ::
  "('b \<Rightarrow> bool) \<Rightarrow> (inference_request \<Rightarrow> 'b \<Rightarrow> (inference_error + inference_response) outcome)
     \<Rightarrow> action_request \<Rightarrow> 'b \<Rightarrow> (llmos_error + action_result) outcome" where
  "model_execute is_loaded infer request backend =
     (if ar_action request \<noteq> ''model:invoke''
      then Done (Inr \<lparr>res_version = ar_version request, res_status = Executed,
             res_message = executed_message request\<rparr>)
      else if \<not> is_loaded backend
      then Done (Inr \<lparr>res_version = ar_version request, res_status = Executed,
             res_message = ''model:invoke accepted (no model loaded; pass-through)''\<rparr>)
      else case infer (inference_request_new (ar_resource request) 128) backend of
        Panic \<Rightarrow> Panic
      | Done (Inl err) \<Rightarrow>
          Done (Inl (ActionDenied (''inference failed: '' @ inference_error_display err)))
      | Done (Inr response) \<Rightarrow>
          (case truncate_text (rs_text response) 200 of
             Panic \<Rightarrow> Panic
           | Done s \<Rightarrow>
               Done (Inr \<lparr>res_version = ar_version request, res_status = Executed,
                 res_message = ''model:invoke complete ('' @ show_nat (unat (rs_total_ms response))
                   @ ''ms, '' @ show_nat (unat (completion_tokens (rs_usage response)))
                   @ '' tokens): '' @ s\<rparr>)))"

section \<open>Processing an action\<close>

definition llmd_now_unix_millis :: "int \<Rightarrow> nat" where
  "llmd_now_unix_millis clock_ns = (if clock_ns < 0 then 0 else nat (clock_ns div 10 ^ 6))"

definition build_audit_event ::
  "int \<Rightarrow> action_request \<Rightarrow> policy_decision_record \<Rightarrow> action_status \<Rightarrow> audit_event" where
  "build_audit_event clock_ns request decision outcome_status =
     \<lparr>ae_version = ar_version request, ae_request_id = ar_request_id request,
      ae_correlation_id = ar_correlation_id request,
      ae_timestamp_unix_ms = llmd_now_unix_millis clock_ns, ae_subject = ar_subject request,
      ae_action = ar_action request, ae_resource = ar_resource request, ae_decision = decision,
      ae_outcome = outcome_status\<rparr>"

type_synonym action_outcome = "(llmos_error + action_result) outcome"

definition process_action ::
  "(action_request \<Rightarrow> 'w \<Rightarrow> evaluation \<times> 'w) \<Rightarrow> (action_request \<Rightarrow> 'w \<Rightarrow> action_outcome \<times> 'w)
     \<Rightarrow> (audit_event \<Rightarrow> 'w \<Rightarrow> 'w) \<Rightarrow> ((runtime_metrics \<Rightarrow> runtime_metrics) \<Rightarrow> 'w \<Rightarrow> 'w) \<Rightarrow> int
     \<Rightarrow> action_request \<Rightarrow> 'w \<Rightarrow> action_outcome \<times> 'w" where
  "process_action evaluate execute emit metric clock_ns request w =
     (case evaluate request w of
        (Panic, w1) \<Rightarrow> (Panic, w1)
      | (Done (Inl err), w1) \<Rightarrow>
          let message = ''policy unavailable: '' @ llmos_error_display err @ ''; request denied'';
              denied = \<lparr>pd_version = ar_version request, pd_effect = PolicyDeny, pd_reason = message,
                        pd_rule_id = None\<rparr>;
              w2 = emit (build_audit_event clock_ns request denied Denied) w1
          in (Done (Inl (ActionDenied message)), metric inc_policy_denies w2)
      | (Done (Inr decision), w1) \<Rightarrow>
          if pd_effect decision = PolicyDeny
          then let w2 = emit (build_audit_event clock_ns request decision Denied) w1
               in (Done (Inl (ActionDenied (pd_reason decision))), metric inc_policy_denies w2)
          else (case execute request w1 of
                  (Panic, w2) \<Rightarrow> (Panic, w2)
                | (Done (Inl err), w2) \<Rightarrow> (Done (Inl err), w2)
                | (Done (Inr result), w2) \<Rightarrow>
                    (Done (Inr result),
                     emit (build_audit_event clock_ns request decision (res_status result))
                       (metric inc_policy_allows w2))))"

section \<open>What the pipeline needs of its parties\<close>

datatype pipeline_event = ActionRun action_request | AuditEmitted audit_event

text \<open>
  \<open>history\<close> records the executions and the emitted audit events. Only the executor adds an
  execution and only the sink an audit event.
\<close>

locale action_pipeline =
  fixes evaluate :: "action_request \<Rightarrow> 'w \<Rightarrow> evaluation \<times> 'w"
    and execute :: "action_request \<Rightarrow> 'w \<Rightarrow> action_outcome \<times> 'w"
    and emit :: "audit_event \<Rightarrow> 'w \<Rightarrow> 'w"
    and metric :: "(runtime_metrics \<Rightarrow> runtime_metrics) \<Rightarrow> 'w \<Rightarrow> 'w"
    and history :: "'w \<Rightarrow> pipeline_event list"
    and may_allow :: "action_request \<Rightarrow> 'w \<Rightarrow> bool"
  assumes evaluate_history: "history (snd (evaluate request w)) = history w"
    and evaluate_allow: "fst (evaluate request w) = Done (Inr d) \<Longrightarrow> pd_effect d = PolicyAllow \<Longrightarrow> may_allow request w"
    and evaluate_error: "fst (evaluate request w) = Done (Inl err) \<Longrightarrow> \<exists>message. err = PolicyUnavailable message"
    and execute_history: "history (snd (execute request w)) = history w @ [ActionRun request]"
    and emit_history: "history (emit event w) = history w @ [AuditEmitted event]"
    and metric_history: "history (metric f w) = history w"
begin

definition process :: "int \<Rightarrow> action_request \<Rightarrow> 'w \<Rightarrow> action_outcome \<times> 'w" where
  "process = process_action evaluate execute emit metric"

lemma process_cases:
  obtains (panic) w1 where "evaluate request w = (Panic, w1)" "process t request w = (Panic, w1)"
  | (unavailable) message w1 reason where
      "evaluate request w = (Done (Inl (PolicyUnavailable message)), w1)"
      "reason = ''policy unavailable: policy unavailable: '' @ message @ ''; request denied''"
      "process t request w = (Done (Inl (ActionDenied reason)), metric inc_policy_denies
        (emit (build_audit_event t request \<lparr>pd_version = ar_version request, pd_effect = PolicyDeny,
           pd_reason = reason, pd_rule_id = None\<rparr> Denied) w1))"
  | (denied) decision w1 where
      "evaluate request w = (Done (Inr decision), w1)" "pd_effect decision = PolicyDeny"
      "process t request w = (Done (Inl (ActionDenied (pd_reason decision))), metric inc_policy_denies
        (emit (build_audit_event t request decision Denied) w1))"
  | (exec_panic) decision w1 w2 where
      "evaluate request w = (Done (Inr decision), w1)" "pd_effect decision = PolicyAllow"
      "execute request w1 = (Panic, w2)" "process t request w = (Panic, w2)"
  | (exec_error) decision w1 err w2 where
      "evaluate request w = (Done (Inr decision), w1)" "pd_effect decision = PolicyAllow"
      "execute request w1 = (Done (Inl err), w2)" "process t request w = (Done (Inl err), w2)"
  | (finished) decision w1 result w2 where
      "evaluate request w = (Done (Inr decision), w1)" "pd_effect decision = PolicyAllow"
      "execute request w1 = (Done (Inr result), w2)"
      "process t request w = (Done (Inr result), emit (build_audit_event t request decision (res_status result))
         (metric inc_policy_allows w2))"
proof (cases "evaluate request w")
  case (Pair e w1)
  note unf = process_def process_action_def Pair prod.case Let_def
  show thesis
  proof (cases e)
    case Panic
    then show thesis by (intro panic) (simp_all add: unf)
  next
    case (Done r)
    show thesis
    proof (cases r)
      case (Inl err)
      obtain message where "err = PolicyUnavailable message"
        using evaluate_error [of request w err] Pair Done Inl by auto
      then show thesis
        using Done Inl by (intro unavailable) (simp_all add: unf)
    next
      case (Inr decision)
      show thesis
      proof (cases "pd_effect decision")
        case PolicyDeny
        then show thesis using Done Inr by (intro denied) (simp_all add: unf)
      next
        case PolicyAllow
        obtain f w2 where x: "execute request w1 = (f, w2)"
          by (meson surj_pair)
        show thesis
        proof (cases f)
          case Panic
          then show thesis using Done Inr PolicyAllow x
            by (intro exec_panic) (simp_all add: unf)
        next
          case (Done r2)
          then show thesis using \<open>e = Done r\<close> Inr PolicyAllow x
            by (cases r2) (auto intro: exec_error finished simp: unf)
        qed
      qed
    qed
  qed
qed

text \<open>The history of one call, by the way it ends.\<close>

lemma process_history:
  "(case fst (process t request w) of
      Panic \<Rightarrow> history (snd (process t request w)) \<in> {history w, history w @ [ActionRun request]}
    | Done (Inr result) \<Rightarrow> may_allow request w \<and> (\<exists>decision. pd_effect decision = PolicyAllow \<and>
        history (snd (process t request w)) = history w @ [ActionRun request,
          AuditEmitted (build_audit_event t request decision (res_status result))])
    | Done (Inl err) \<Rightarrow>
        (\<exists>decision reason. pd_effect decision = PolicyDeny \<and> pd_reason decision = reason \<and> err = ActionDenied reason \<and>
          history (snd (process t request w)) = history w @
            [AuditEmitted (build_audit_event t request decision Denied)])
        \<or> (may_allow request w \<and> history (snd (process t request w)) = history w @ [ActionRun request]))"
proof (cases rule: process_cases [of request w t])
  case (panic w1)
  with evaluate_history [of request w] show ?thesis by simp
next
  case (unavailable message w1 reason)
  let ?d = "\<lparr>pd_version = ar_version request, pd_effect = PolicyDeny, pd_reason = reason, pd_rule_id = None\<rparr>"
  have "history (snd (process t request w)) = history w @ [AuditEmitted (build_audit_event t request ?d Denied)]"
    unfolding unavailable(3) using unavailable(1) evaluate_history [of request w]
    by (simp add: emit_history metric_history)
  moreover have "fst (process t request w) = Done (Inl (ActionDenied reason))"
    unfolding unavailable(3) by simp
  ultimately show ?thesis
    by (auto intro!: exI [of _ ?d])
next
  case (denied decision w1)
  with evaluate_history [of request w] show ?thesis
    by (auto simp: emit_history metric_history)
next
  case (exec_panic decision w1 w2)
  with evaluate_history [of request w] execute_history [of request w1] show ?thesis by simp
next
  case (exec_error decision w1 err w2)
  with evaluate_history [of request w] execute_history [of request w1] evaluate_allow [of request w decision]
  show ?thesis by simp
next
  case (finished decision w1 result w2)
  with evaluate_history [of request w] execute_history [of request w1] evaluate_allow [of request w decision]
  show ?thesis by (auto simp: emit_history metric_history)
qed

lemma process_run_allowed:
  assumes "ActionRun request \<in> set (drop (length (history w)) (history (snd (process t request w))))"
  shows "may_allow request w"
proof (cases rule: process_cases [of request w t])
  case (panic w1)
  with assms evaluate_history [of request w] show ?thesis by simp
next
  case (unavailable message w1 reason)
  with assms evaluate_history [of request w] show ?thesis by (simp add: emit_history metric_history)
next
  case (denied decision w1)
  with assms evaluate_history [of request w] show ?thesis by (simp add: emit_history metric_history)
qed (use evaluate_allow [of request w] in simp_all)

lemma process_extends:
  "\<exists>ext. history (snd (process t request w)) = history w @ ext
    \<and> (\<forall>r. ActionRun r \<in> set ext \<longrightarrow> r = request \<and> may_allow request w)"
proof (cases rule: process_cases [of request w t])
  case (panic w1)
  with evaluate_history [of request w] show ?thesis by simp
next
  case (unavailable message w1 reason)
  with evaluate_history [of request w] show ?thesis by (simp add: emit_history metric_history)
next
  case (denied decision w1)
  with evaluate_history [of request w] show ?thesis by (simp add: emit_history metric_history)
next
  case (exec_panic decision w1 w2)
  with evaluate_history [of request w] evaluate_allow [of request w] execute_history [of request w1]
  show ?thesis by simp
next
  case (exec_error decision w1 err w2)
  with evaluate_history [of request w] evaluate_allow [of request w] execute_history [of request w1]
  show ?thesis by simp
next
  case (finished decision w1 result w2)
  with evaluate_history [of request w] evaluate_allow [of request w] execute_history [of request w1]
  show ?thesis by (simp add: emit_history metric_history)
qed

text \<open>An invariant of the parties is one of the pipeline.\<close>

lemma process_preserves:
  assumes "\<And>w request. I w \<Longrightarrow> I (snd (evaluate request w))" "\<And>w request. I w \<Longrightarrow> I (snd (execute request w))"
    and "\<And>w event. I w \<Longrightarrow> I (emit event w)" "\<And>w f. I w \<Longrightarrow> I (metric f w)" and "I w"
  shows "I (snd (process t request w))"
proof -
  have ev: "I w1" if "evaluate request w = (e, w1)" for e w1
    using assms(1) [OF assms(5), of request] that by simp
  have ex: "I w2" if "evaluate request w = (e, w1)" "execute request w1 = (x, w2)" for e w1 x w2
    using assms(2) [OF ev [OF that(1)], of request] that(2) by simp
  show ?thesis
    by (cases rule: process_cases [of request w t]) (auto intro!: assms(3,4) dest: ev ex)
qed

end

section \<open>The world of llmd\<close>

text \<open>
  A running llmd: the client world (which holds the metrics), the backend behind the executor, the
  state of the audit sink and the history.
\<close>

record ('b, 's) llmd_world =
  lw_client :: client_world
  lw_backend :: 'b
  lw_sink :: 's
  lw_history :: "pipeline_event list"

definition llmd_metric :: "(runtime_metrics \<Rightarrow> runtime_metrics) \<Rightarrow> ('b, 's) llmd_world \<Rightarrow> ('b, 's) llmd_world" where
  "llmd_metric f w = w\<lparr>lw_client := client_metric f (lw_client w)\<rparr>"

definition llmd_evaluate :: "client_io \<Rightarrow> action_request \<Rightarrow> ('b, 's) llmd_world \<Rightarrow> evaluation \<times> ('b, 's) llmd_world" where
  "llmd_evaluate io request w =
     (case client_evaluate io request (lw_client w) of (e, c) \<Rightarrow> (e, w\<lparr>lw_client := c\<rparr>))"

definition llmd_execute ::
  "(action_request \<Rightarrow> 'b \<Rightarrow> action_outcome) \<Rightarrow> action_request \<Rightarrow> ('b, 's) llmd_world
     \<Rightarrow> action_outcome \<times> ('b, 's) llmd_world" where
  "llmd_execute execute request w =
     (execute request (lw_backend w), w\<lparr>lw_history := lw_history w @ [ActionRun request]\<rparr>)"

definition llmd_emit ::
  "(audit_event \<Rightarrow> 's \<times> runtime_metrics_cell \<Rightarrow> 's \<times> runtime_metrics_cell) \<Rightarrow> audit_event
     \<Rightarrow> ('b, 's) llmd_world \<Rightarrow> ('b, 's) llmd_world" where
  "llmd_emit sink event w =
     (case sink event (lw_sink w, cw_metrics (lw_client w)) of (s, cell) \<Rightarrow>
        w\<lparr>lw_sink := s, lw_client := (lw_client w)\<lparr>cw_metrics := cell\<rparr>,
          lw_history := lw_history w @ [AuditEmitted event]\<rparr>)"

definition llmd_process ::
  "client_io \<Rightarrow> (action_request \<Rightarrow> 'b \<Rightarrow> action_outcome)
     \<Rightarrow> (audit_event \<Rightarrow> 's \<times> runtime_metrics_cell \<Rightarrow> 's \<times> runtime_metrics_cell)
     \<Rightarrow> int \<Rightarrow> action_request \<Rightarrow> ('b, 's) llmd_world \<Rightarrow> action_outcome \<times> ('b, 's) llmd_world" where
  "llmd_process io execute sink =
     process_action (llmd_evaluate io) (llmd_execute execute) (llmd_emit sink) llmd_metric"

text \<open>\<open>StdoutAuditSink\<close>: a log of events.\<close>

definition stdout_emit :: "audit_event \<Rightarrow> audit_event list \<times> runtime_metrics_cell \<Rightarrow> audit_event list \<times> runtime_metrics_cell" where
  "stdout_emit event s = (fst s @ [event], snd s)"

section \<open>The executor on a backend\<close>

lemma str_slice_Panic_iff: "str_slice s 0 n = Panic \<longleftrightarrow> \<not> is_char_boundary s n"
  by (simp add: str_slice_def is_char_boundary_def)

lemma truncate_text_Panic_iff: "truncate_text s n = Panic \<longleftrightarrow> n < length s \<and> \<not> is_char_boundary s n"
  by (auto simp: truncate_text_def str_slice_Panic_iff)

lemma truncate_text_boundary: "truncate_text s n = Done t \<Longrightarrow> n < length s \<Longrightarrow> is_char_boundary s n"
  by (metis outcome.distinct(1) truncate_text_Panic_iff)

lemma truncate_text_Done: "truncate_text s n = Done t \<Longrightarrow> t = take n s"
  by (auto simp: truncate_text_def str_slice_def split: if_splits)

context inference_backend begin

lemma executor_Panic_iff:
  assumes "wf b"
  shows "model_execute is_loaded infer request b = Panic \<longleftrightarrow>
    ar_action request = ''model:invoke'' \<and> (\<exists>response.
      infer (inference_request_new (ar_resource request) 128) b = Done (Inr response)
      \<and> 200 < length (rs_text response) \<and> \<not> is_char_boundary (rs_text response) 200)"
proof (cases "infer (inference_request_new (ar_resource request) 128) b")
  case Panic
  with infer_total [OF assms] show ?thesis by simp
next
  case (Done r)
  then show ?thesis
    using infer_Inr_loaded [of "inference_request_new (ar_resource request) 128" b]
    by (cases r) (auto simp: model_execute_def truncate_text_Panic_iff dest: truncate_text_boundary split: outcome.splits)
qed

lemma executor_error:
  "model_execute is_loaded infer request b = Done (Inl err) \<Longrightarrow>
    \<exists>e. err = ActionDenied (''inference failed: '' @ inference_error_display e)"
  by (auto simp: model_execute_def split: if_splits outcome.splits sum.splits)

lemma executor_status:
  "model_execute is_loaded infer request b = Done (Inr result) \<Longrightarrow>
    res_status result = Executed \<and> res_version result = ar_version request"
  by (auto simp: model_execute_def split: if_splits outcome.splits sum.splits)

end


text \<open>A text of 199 letters, a two-byte character and one more letter.\<close>

definition long_text :: string where
  "long_text = replicate 199 CHR ''a'' @ [CHR 0xC3, CHR 0xA9, CHR ''b'']"


section \<open>The pipeline of llmd\<close>

definition client_granted :: "client_io \<Rightarrow> action_request \<Rightarrow> client_world \<Rightarrow> bool" where
  "client_granted io request c \<longleftrightarrow> (\<exists>q i response. build_grpc_request io request = Inr q
     \<and> rpcs_sent (cw_trace c) \<le> i \<and> io_rpc io i q = RpcResponse response \<and> ger_effect response = ''allow'')"

interpretation llmd: action_pipeline "llmd_evaluate io" "llmd_execute ex" "llmd_emit sink" llmd_metric
  lw_history "\<lambda>request w. client_granted io request (lw_client w)" for io ex sink
proof unfold_locales
  show "client_granted io request (lw_client w)"
    if "fst (llmd_evaluate io request w) = Done (Inr d)" "pd_effect d = PolicyAllow" for request w d
    using that client_evaluate_contract [where io = io and request = request and w = "lw_client w"]
    unfolding client_granted_def by (auto simp: llmd_evaluate_def split: prod.splits)
  show "\<exists>message. err = PolicyUnavailable message"
    if "fst (llmd_evaluate io request w) = Done (Inl err)" for request w err
    using that client_evaluate_contract [where io = io and request = request and w = "lw_client w"]
    by (auto simp: llmd_evaluate_def split: prod.splits)
qed (simp_all add: llmd_evaluate_def llmd_execute_def llmd_emit_def llmd_metric_def split: prod.splits)

lemma llmd_process_eq: "llmd_process io ex sink = llmd.process io ex sink"
  by (simp add: llmd_process_def llmd.process_def)


text \<open>
  An execution that fails leaves no trace but itself: here the policy service allows the request,
  the model rejects the prompt as too long, the call returns \<open>ActionDenied\<close>, and neither an audit
  event is emitted nor is the request counted as allowed or denied, although the action ran.
\<close>

theorem failed_execution_unaudited:
  "\<exists>request io (w :: (mock_backend, audit_event list) llmd_world) err w'.
     llmd_process io (model_execute mb_loaded mock_infer) stdout_emit 0 request w = (Done (Inl (ActionDenied err)), w')
     \<and> client_granted io request (lw_client w)
     \<and> lw_history w' = lw_history w @ [ActionRun request] \<and> lw_sink w' = lw_sink w
     \<and> policy_allows_total (runtime_metrics_handle (cw_metrics (lw_client w'))) = 0
     \<and> policy_denies_total (runtime_metrics_handle (cw_metrics (lw_client w'))) = 0"
proof -
  define request where "request = sample_action\<lparr>ar_action := ''model:invoke'', ar_resource := ''12345678''\<rparr>"
  define b where "b = snd (mock_load ((cpu_only ''m'' ''p'')\<lparr>mc_context_length := 1\<rparr>) mock_new)"
  define w :: "(mock_backend, audit_event list) llmd_world" where
    "w = \<lparr>lw_client = sample_world, lw_backend = b, lw_sink = [], lw_history = []\<rparr>"
  have exec: "model_execute mb_loaded mock_infer request b
      = Done (Inl (ActionDenied (''inference failed: '' @ inference_error_display (ContextLengthExceeded 2 1))))"
    by (simp add: model_execute_def request_def b_def mock_load_def mock_new_def mock_infer_def
        inference_request_new_def Let_def)
  obtain d c where ev: "client_evaluate (sample_io sample_answer) request sample_world = (Done (Inr d), c)"
    and allow: "pd_effect d = PolicyAllow"
    and m: "policy_allows_total (runtime_metrics_handle (cw_metrics c)) = 0
      \<and> policy_denies_total (runtime_metrics_handle (cw_metrics c)) = 0"
    by (simp add: client_evaluate_def sample_world_def connect_with_config_def instant_now_def
      grpc_policy_client_config_default_def fail_if_circuit_open_def client_metric_def upt_rec
      build_grpc_request_def sample_io_def sample_answer_def settle_def map_grpc_decision_def Let_def
      send_rpc_def mark_success_def observe_elapsed_def runtime_metric_defs with_runtime_metrics_def
      init_runtime_metrics_def runtime_metrics_default_def)
  have "llmd_process (sample_io sample_answer) (model_execute mb_loaded mock_infer) stdout_emit 0 request w
    = (Done (Inl (ActionDenied (''inference failed: '' @ inference_error_display (ContextLengthExceeded 2 1)))),
       w\<lparr>lw_client := c, lw_history := [ActionRun request]\<rparr>)"
    using ev allow exec by (simp add: llmd_process_def process_action_def llmd_evaluate_def llmd_execute_def w_def)
  moreover have "client_granted (sample_io sample_answer) request (lw_client w)"
    by (auto simp: client_granted_def build_grpc_request_def sample_io_def sample_answer_def w_def sample_world_def)
  ultimately show ?thesis
    using m by (intro exI [of _ request] exI [of _ "sample_io sample_answer"] exI [of _ w]) (auto simp: w_def)
qed

end
