(* ===== verification/Audit_Log.thy ===== *)
theory Audit_Log
  imports Common_Types Runtime_Metrics
begin

text \<open>
  \<open>JsonlFileAuditSink\<close> of \<^verbatim>\<open>services/llmd/src/lib.rs\<close>: the audit log file with its rotation by size.
  The file system is a map from paths to contents; every fallible operation asks an oracle whether it
  fails (for a write, after how many bytes). The JSON serialiser is a parameter.
\<close>

section \<open>Files\<close>

record disk =
  dk_files :: "string \<Rightarrow> string option"
  dk_ops :: nat

text \<open>\<open>io k\<close> is \<open>None\<close> when the \<open>k\<close>-th operation succeeds, and \<open>Some n\<close> when it fails after \<open>n\<close> bytes.\<close>

type_synonym disk_io = "nat \<Rightarrow> nat option"

datatype file_handle = HandleAppend | HandleAt nat

definition next_op :: "disk \<Rightarrow> disk" where
  "next_op d = d\<lparr>dk_ops := dk_ops d + 1\<rparr>"

definition path_exists :: "disk \<Rightarrow> string \<Rightarrow> bool" where
  "path_exists d p \<longleftrightarrow> dk_files d p \<noteq> None"

definition simple_op :: "disk_io \<Rightarrow> (disk \<Rightarrow> disk) \<Rightarrow> disk \<Rightarrow> bool \<times> disk" where
  "simple_op io f d = (if io (dk_ops d) = None then (True, next_op (f d)) else (False, next_op d))"

definition remove_file :: "disk_io \<Rightarrow> string \<Rightarrow> disk \<Rightarrow> bool \<times> disk" where
  "remove_file io p = simple_op io (\<lambda>d. d\<lparr>dk_files := (dk_files d)(p := None)\<rparr>)"

definition rename :: "disk_io \<Rightarrow> string \<Rightarrow> string \<Rightarrow> disk \<Rightarrow> bool \<times> disk" where
  "rename io src dst = simple_op io (\<lambda>d. d\<lparr>dk_files := (dk_files d)(dst := dk_files d src, src := None)\<rparr>)"

definition open_append :: "disk_io \<Rightarrow> string \<Rightarrow> disk \<Rightarrow> bool \<times> disk" where
  "open_append io p = simple_op io (\<lambda>d. if dk_files d p = None then d\<lparr>dk_files := (dk_files d)(p \<mapsto> [])\<rparr> else d)"

definition open_truncate :: "disk_io \<Rightarrow> string \<Rightarrow> disk \<Rightarrow> bool \<times> disk" where
  "open_truncate io p = simple_op io (\<lambda>d. d\<lparr>dk_files := (dk_files d)(p \<mapsto> [])\<rparr>)"

definition metadata_len :: "disk_io \<Rightarrow> string \<Rightarrow> disk \<Rightarrow> nat option \<times> disk" where
  "metadata_len io p d =
     (if io (dk_ops d) = None then map_option length (dk_files d p) else None, next_op d)"

definition put_bytes :: "file_handle \<Rightarrow> string \<Rightarrow> string \<Rightarrow> string" where
  "put_bytes h content s =
     (case h of
        HandleAppend \<Rightarrow> content @ s
      | HandleAt pos \<Rightarrow>
          take pos (content @ replicate (pos - length content) CHR 0x00) @ s @ drop (pos + length s) content)"

definition advance :: "file_handle \<Rightarrow> nat \<Rightarrow> file_handle" where
  "advance h n = (case h of HandleAppend \<Rightarrow> HandleAppend | HandleAt pos \<Rightarrow> HandleAt (pos + n))"

text \<open>\<open>write_all\<close>: a failing write may have written a part of the bytes.\<close>

definition write_all :: "disk_io \<Rightarrow> string \<Rightarrow> file_handle \<Rightarrow> string \<Rightarrow> disk \<Rightarrow> bool \<times> file_handle \<times> disk" where
  "write_all io p h s d =
     (let s' = (case io (dk_ops d) of None \<Rightarrow> s | Some n \<Rightarrow> take n s);
          content = (case dk_files d p of None \<Rightarrow> [] | Some c \<Rightarrow> c)
      in (io (dk_ops d) = None, advance h (length s'),
          next_op (d\<lparr>dk_files := (dk_files d)(p \<mapsto> put_bytes h content s')\<rparr>)))"

definition flush_file :: "disk_io \<Rightarrow> disk \<Rightarrow> bool \<times> disk" where
  "flush_file io = simple_op io (\<lambda>d. d)"

section \<open>The sink\<close>

record jsonl_sink =
  js_path :: string
  js_max_bytes :: nat
  js_max_files :: nat
  js_poisoned :: bool
  js_file :: "file_handle option"
  js_bytes_written :: nat

definition rotated_path :: "string \<Rightarrow> nat \<Rightarrow> string" where
  "rotated_path path index = path @ ''.'' @ show_nat index"

definition new_with_rotation :: "disk_io \<Rightarrow> string \<Rightarrow> nat \<Rightarrow> nat \<Rightarrow> disk \<Rightarrow> jsonl_sink option \<times> disk" where
  "new_with_rotation io path max_bytes max_files d =
     (case (if path = [] \<or> path = ''/'' then (True, d) else simple_op io (\<lambda>d. d) d) of
        (False, d1) \<Rightarrow> (None, d1)
      | (True, d1) \<Rightarrow>
          (case open_append io path d1 of
             (False, d2) \<Rightarrow> (None, d2)
           | (True, d2) \<Rightarrow>
               (case metadata_len io path d2 of (len, d3) \<Rightarrow>
                  (Some \<lparr>js_path = path, js_max_bytes = max_bytes, js_max_files = max max_files 1,
                     js_poisoned = False, js_file = Some HandleAppend,
                     js_bytes_written = (case len of None \<Rightarrow> 0 | Some n \<Rightarrow> n)\<rparr>, d3))))"

definition jsonl_new :: "disk_io \<Rightarrow> string \<Rightarrow> disk \<Rightarrow> jsonl_sink option \<times> disk" where
  "jsonl_new io path = new_with_rotation io path (10 * 1024 * 1024) 5"

text \<open>The loop \<open>for idx in (1..=self.max_files).rev()\<close>; it returns whether no operation failed.\<close>

fun rotate_loop :: "disk_io \<Rightarrow> string \<Rightarrow> nat \<Rightarrow> disk \<Rightarrow> bool \<times> disk" where
  "rotate_loop io path 0 d = (True, d)"
| "rotate_loop io path (Suc n) d =
     (let src = (if Suc n = 1 then path else rotated_path path n);
          dst = rotated_path path (Suc n)
      in if \<not> path_exists d src then rotate_loop io path n d
         else case (if path_exists d dst then remove_file io dst d else (True, d)) of
           (False, d1) \<Rightarrow> (False, d1)
         | (True, d1) \<Rightarrow>
             (case rename io src dst d1 of
                (False, d2) \<Rightarrow> (False, d2)
              | (True, d2) \<Rightarrow> rotate_loop io path n d2))"

definition rotate_files :: "disk_io \<Rightarrow> jsonl_sink \<Rightarrow> disk \<Rightarrow> bool \<times> jsonl_sink \<times> disk" where
  "rotate_files io s d =
     (let d0 = (if js_file s = None then d else snd (flush_file io d));
          s0 = s\<lparr>js_file := None\<rparr>
      in case rotate_loop io (js_path s) (js_max_files s) d0 of
           (False, d1) \<Rightarrow> (False, s0, d1)
         | (True, d1) \<Rightarrow>
             (case open_truncate io (js_path s) d1 of
                (False, d2) \<Rightarrow> (False, s0, d2)
              | (True, d2) \<Rightarrow> (True, s0\<lparr>js_file := Some (HandleAt 0), js_bytes_written := 0\<rparr>, d2)))"

text \<open>Opening the file when an earlier failure left none.\<close>

definition ensure_file :: "disk_io \<Rightarrow> jsonl_sink \<Rightarrow> disk \<Rightarrow> bool \<times> jsonl_sink \<times> disk" where
  "ensure_file io s d =
     (if js_file s \<noteq> None then (True, s, d)
      else case open_append io (js_path s) d of
        (False, d1) \<Rightarrow> (False, s, d1)
      | (True, d1) \<Rightarrow>
          (case metadata_len io (js_path s) d1 of (len, d2) \<Rightarrow>
             (True, s\<lparr>js_bytes_written := (case len of None \<Rightarrow> 0 | Some n \<Rightarrow> n), js_file := Some HandleAppend\<rparr>, d2)))"

definition write_event :: "disk_io \<Rightarrow> string \<Rightarrow> jsonl_sink \<Rightarrow> disk \<Rightarrow> bool \<times> jsonl_sink \<times> disk" where
  "write_event io payload s d =
     (case js_file s of
        None \<Rightarrow> (False, s, d)
      | Some h \<Rightarrow>
          (case write_all io (js_path s) h payload d of (ok, h', d1) \<Rightarrow>
             let s1 = s\<lparr>js_file := Some h'\<rparr> in
             if \<not> ok then (False, s1, d1)
             else case flush_file io d1 of
               (False, d2) \<Rightarrow> (False, s1, d2)
             | (True, d2) \<Rightarrow>
                 (True, s1\<lparr>js_bytes_written := min (js_bytes_written s1 + length payload) (2 ^ 64 - 1)\<rparr>, d2)))"

text \<open>\<open>emit\<close>: whether the event was written, the sink and the disk; the metrics follow.\<close>

definition emit_payload :: "disk_io \<Rightarrow> string \<Rightarrow> jsonl_sink \<Rightarrow> disk \<Rightarrow> bool \<times> jsonl_sink \<times> disk" where
  "emit_payload io payload s d =
     (case (if js_max_bytes s < js_bytes_written s + length payload then rotate_files io s d else (True, s, d)) of
        (False, s1, d1) \<Rightarrow> (False, s1, d1)
      | (True, s1, d1) \<Rightarrow>
          (case ensure_file io s1 d1 of
             (False, s2, d2) \<Rightarrow> (False, s2, d2)
           | (True, s2, d2) \<Rightarrow> write_event io payload s2 d2))"

definition jsonl_emit ::
  "disk_io \<Rightarrow> (audit_event \<Rightarrow> string option) \<Rightarrow> audit_event \<Rightarrow> (jsonl_sink \<times> disk) \<times> runtime_metrics_cell
     \<Rightarrow> (jsonl_sink \<times> disk) \<times> runtime_metrics_cell" where
  "jsonl_emit io to_json event st =
     (case st of ((s, d), cell) \<Rightarrow>
        if js_poisoned s then ((s, d), with_runtime_metrics mark_audit_write_failure cell)
        else case to_json event of
          None \<Rightarrow> ((s, d), with_runtime_metrics mark_audit_write_failure cell)
        | Some json \<Rightarrow>
            (case emit_payload io (json @ nl) s d of (ok, s1, d1) \<Rightarrow>
               ((s1, d1), with_runtime_metrics
                  (if ok then mark_audit_write_success else mark_audit_write_failure) cell)))"

section \<open>Rotation\<close>

lemma rotated_path_inject [simp]: "rotated_path p i = rotated_path p j \<longleftrightarrow> i = j"
  by (simp add: rotated_path_def)

lemma rotated_path_neq [simp]: "rotated_path p i \<noteq> p" "p \<noteq> rotated_path p i"
  by (auto simp: rotated_path_def)

text \<open>Generation 0 is the active file.\<close>

definition generation :: "string \<Rightarrow> nat \<Rightarrow> string" where
  "generation path i = (if i = 0 then path else rotated_path path i)"

lemma generation_inject [simp]: "generation p i = generation p j \<longleftrightarrow> i = j"
  by (auto simp: generation_def)

definition healthy :: "disk_io \<Rightarrow> disk \<Rightarrow> bool" where
  "healthy io d \<longleftrightarrow> (\<forall>k\<ge>dk_ops d. io k = None)"

lemma healthy_now: "healthy io d \<Longrightarrow> io (dk_ops d) = None"
  by (simp add: healthy_def)

lemma healthy_next [intro]: "healthy io d \<Longrightarrow> dk_ops d \<le> dk_ops d' \<Longrightarrow> healthy io d'"
  by (simp add: healthy_def)

lemma simple_op_healthy:
  assumes "healthy io d" "\<And>d. dk_ops (f d) = dk_ops d"
  shows "simple_op io f d = (True, next_op (f d)) \<and> healthy io (next_op (f d))"
  using assms by (auto simp: simple_op_def healthy_def next_op_def)

lemma rotate_step:
  assumes "healthy io d" "path_exists d (generation path n)"
  shows "\<exists>d2. (case (if path_exists d (generation path (Suc n)) then remove_file io (generation path (Suc n)) d else (True, d)) of
           (False, d1) \<Rightarrow> (False, d1)
         | (True, d1) \<Rightarrow>
             (case rename io (generation path n) (generation path (Suc n)) d1 of
                (False, d2) \<Rightarrow> (False, d2)
              | (True, d2) \<Rightarrow> rotate_loop io path n d2)) = rotate_loop io path n d2
    \<and> healthy io d2
    \<and> dk_files d2 = (dk_files d)(generation path (Suc n) := dk_files d (generation path n), generation path n := None)"
proof (cases "path_exists d (generation path (Suc n))")
  case True
  let ?d1 = "next_op (d\<lparr>dk_files := (dk_files d)(generation path (Suc n) := None)\<rparr>)"
  have r: "remove_file io (generation path (Suc n)) d = (True, ?d1)" and h: "healthy io ?d1"
    using simple_op_healthy [OF assms(1), of "\<lambda>d. d\<lparr>dk_files := (dk_files d)(generation path (Suc n) := None)\<rparr>"]
    by (simp_all add: remove_file_def)
  let ?d2 = "next_op (?d1\<lparr>dk_files := (dk_files ?d1)(generation path (Suc n) := dk_files ?d1 (generation path n), generation path n := None)\<rparr>)"
  have "rename io (generation path n) (generation path (Suc n)) ?d1 = (True, ?d2)" and "healthy io ?d2"
    using simple_op_healthy [OF h, of "\<lambda>d. d\<lparr>dk_files := (dk_files d)(generation path (Suc n) := dk_files d (generation path n), generation path n := None)\<rparr>"]
    by (simp_all add: rename_def)
  then show ?thesis
    using True r by (intro exI [of _ ?d2]) (simp add: next_op_def)
next
  case False
  let ?d2 = "next_op (d\<lparr>dk_files := (dk_files d)(generation path (Suc n) := dk_files d (generation path n), generation path n := None)\<rparr>)"
  have "rename io (generation path n) (generation path (Suc n)) d = (True, ?d2)" and "healthy io ?d2"
    using simple_op_healthy [OF assms(1), of "\<lambda>d. d\<lparr>dk_files := (dk_files d)(generation path (Suc n) := dk_files d (generation path n), generation path n := None)\<rparr>"]
    by (simp_all add: rename_def)
  then show ?thesis
    using False by (intro exI [of _ ?d2]) (simp add: next_op_def)
qed

lemma rotate_loop_Suc:
  "rotate_loop io path (Suc n) d =
     (if \<not> path_exists d (generation path n) then rotate_loop io path n d
      else case (if path_exists d (generation path (Suc n)) then remove_file io (generation path (Suc n)) d else (True, d)) of
           (False, d1) \<Rightarrow> (False, d1)
         | (True, d1) \<Rightarrow>
             (case rename io (generation path n) (generation path (Suc n)) d1 of
                (False, d2) \<Rightarrow> (False, d2)
              | (True, d2) \<Rightarrow> rotate_loop io path n d2))"
proof -
  have g: "(if Suc n = 1 then path else rotated_path path n) = generation path n"
    "rotated_path path (Suc n) = generation path (Suc n)"
    by (simp_all add: generation_def)
  show ?thesis
    by (simp only: rotate_loop.simps Let_def g)
qed

text \<open>Every generation moves up by one; only the oldest file is lost, and only when a younger one takes its place.\<close>

definition shifted :: "(string \<Rightarrow> string option) \<Rightarrow> string \<Rightarrow> nat \<Rightarrow> nat \<Rightarrow> string option" where
  "shifted f path n i =
     (if n < i then f (generation path i)
      else if i = 0 then (if n = 0 then f (generation path 0) else None)
      else case f (generation path (i - 1)) of
         Some c \<Rightarrow> Some c
       | None \<Rightarrow> if i = n then f (generation path i) else None)"

lemma shifted_absent:
  assumes "f (generation path n) = None"
  shows "shifted f path n i = shifted f path (Suc n) i"
proof -
  consider "Suc n < i" | "i = Suc n" | "i = n" | "i < n" by linarith
  then show ?thesis
    by cases (use assms in \<open>auto simp: shifted_def split: option.splits\<close>)
qed

lemma shifted_present:
  assumes "f (generation path n) = Some c"
  shows "shifted (f(generation path (Suc n) \<mapsto> c, generation path n := None)) path n i = shifted f path (Suc n) i"
proof -
  consider "Suc n < i" | "i = Suc n" | "i = n" "i = 0" | "i = n" "0 < i" | "i < n" "i = 0" | "i < n" "0 < i" by linarith
  then show ?thesis
    by cases (use assms in \<open>auto simp: shifted_def split: option.splits\<close>)
qed

lemma rotate_loop_shift:
  assumes "healthy io d"
  shows "\<exists>d'. rotate_loop io path n d = (True, d') \<and> healthy io d'
    \<and> (\<forall>i. dk_files d' (generation path i) = shifted (dk_files d) path n i)
    \<and> (\<forall>p. (\<forall>i. p \<noteq> generation path i) \<longrightarrow> dk_files d' p = dk_files d p)"
  using assms
proof (induction n arbitrary: d)
  case 0
  then show ?case by (simp add: shifted_def)
next
  case (Suc n)
  show ?case
  proof (cases "dk_files d (generation path n)")
    case None
    then have "rotate_loop io path (Suc n) d = rotate_loop io path n d"
      by (simp add: rotate_loop_Suc path_exists_def del: rotate_loop.simps)
    with Suc.IH [OF Suc.prems] shifted_absent [of "dk_files d" path n] None show ?thesis
      by simp
  next
    case (Some c)
    then have ex: "path_exists d (generation path n)"
      by (simp add: path_exists_def)
    obtain d2 where step: "rotate_loop io path (Suc n) d = rotate_loop io path n d2" and h: "healthy io d2"
      and f: "dk_files d2 = (dk_files d)(generation path (Suc n) \<mapsto> c, generation path n := None)"
      using rotate_step [OF Suc.prems ex] ex Some by (auto simp: rotate_loop_Suc simp del: rotate_loop.simps)
    define g where "g = (dk_files d)(generation path (Suc n) \<mapsto> c, generation path n := None)"
    have g: "shifted g path n i = shifted (dk_files d) path (Suc n) i" for i
      unfolding g_def by (rule shifted_present) (rule Some)
    have "g p = dk_files d p" if "\<forall>i. p \<noteq> generation path i" for p
      using that by (simp add: g_def)
    moreover obtain d' where "rotate_loop io path n d2 = (True, d')" "healthy io d'"
      "\<forall>i. dk_files d' (generation path i) = shifted g path n i"
      "\<forall>p. (\<forall>i. p \<noteq> generation path i) \<longrightarrow> dk_files d' p = g p"
      using Suc.IH [OF h] unfolding f [folded g_def] by blast
    ultimately show ?thesis
      unfolding step by (intro exI [of _ d']) (simp add: g)
  qed
qed

section \<open>The archive\<close>

definition content_of :: "(string \<Rightarrow> string option) \<Rightarrow> string \<Rightarrow> string" where
  "content_of f p = (case f p of None \<Rightarrow> [] | Some c \<Rightarrow> c)"

text \<open>All generations from the oldest to the active file.\<close>

definition archive :: "string \<Rightarrow> nat \<Rightarrow> (string \<Rightarrow> string option) \<Rightarrow> string" where
  "archive path n f = concat (map (\<lambda>i. content_of f (generation path i)) (rev [0..<Suc n]))"

lemma concat_shift:
  assumes "g 0 = []" "\<And>i. i < k \<Longrightarrow> g (Suc i) = h i"
  shows "concat (map g (rev [0..<Suc k])) = concat (map h (rev [0..<k]))"
  using assms
proof (induction k)
  case (Suc k)
  then have "concat (map g (rev [0..<Suc (Suc k)])) = g (Suc k) @ concat (map g (rev [0..<Suc k]))"
    by simp
  with Suc show ?case by simp
qed simp

lemma archive_Suc: "archive path (Suc m) f = content_of f (generation path (Suc m)) @ archive path m f"
  by (simp add: archive_def)

lemma archive_shifted:
  assumes "0 < n" "\<And>i. f' (generation path i) = (if i = 0 then Some [] else shifted f path n i)"
  shows "\<exists>lost. archive path n f = lost @ archive path n f'
    \<and> (lost = [] \<or> lost = content_of f (generation path n))"
proof -
  obtain m where n: "n = Suc m"
    using assms(1) by (cases n) simp_all
  let ?g = "\<lambda>i. content_of f' (generation path i)" and ?h = "\<lambda>i. content_of f (generation path i)"
  have g0: "?g 0 = []"
    using assms(2) [of 0] by (simp add: content_of_def)
  have gi: "?g (Suc i) = ?h i" if "i < m" for i
    using that assms(2) [of "Suc i"] by (simp add: content_of_def shifted_def n split: option.splits)
  have rest: "archive path m f' = concat (map ?h (rev [0..<m]))"
    unfolding archive_def by (rule concat_shift [where g = ?g and h = ?h]) (simp_all add: g0 gi)
  have before: "archive path n f = ?h (Suc m) @ ?h m @ concat (map ?h (rev [0..<m]))"
    by (simp add: n archive_Suc) (simp add: archive_def)
  have after: "archive path n f' = ?g (Suc m) @ concat (map ?h (rev [0..<m]))"
    by (simp add: n archive_Suc rest)
  show ?thesis
  proof (cases "f (generation path m)")
    case None
    then have "?h m = []" "?g (Suc m) = ?h (Suc m)"
      using assms(2) [of "Suc m"] by (simp_all add: content_of_def shifted_def n)
    with before after show ?thesis by simp
  next
    case (Some c)
    then have "?g (Suc m) = ?h m"
      using assms(2) [of "Suc m"] by (simp add: content_of_def shifted_def n)
    with before after show ?thesis
      by (intro exI [of _ "?h (Suc m)"]) (simp add: n)
  qed
qed

section \<open>Emitting\<close>

definition handle_at_end :: "file_handle \<Rightarrow> string \<Rightarrow> bool" where
  "handle_at_end h c \<longleftrightarrow> h = HandleAppend \<or> h = HandleAt (length c)"

lemma put_bytes_at_end: "handle_at_end h c \<Longrightarrow> put_bytes h c s = c @ s"
  by (auto simp: handle_at_end_def put_bytes_def)

lemma advance_at_end: "handle_at_end h c \<Longrightarrow> handle_at_end (advance h (length s)) (c @ s)"
  by (auto simp: handle_at_end_def advance_def)

lemma advance_take: "handle_at_end h c \<Longrightarrow> handle_at_end (advance h (min (length s) n)) (c @ take n s)"
  using advance_at_end [of h c "take n s"] by simp

text \<open>The invariant of the sink and its file, which failures keep too.\<close>

definition sink_inv :: "jsonl_sink \<Rightarrow> disk \<Rightarrow> bool" where
  "sink_inv s d \<longleftrightarrow> (case js_file s of
     None \<Rightarrow> True
   | Some h \<Rightarrow> (\<exists>c. dk_files d (js_path s) = Some c \<and> handle_at_end h c))"

lemma dk_files_next_op [simp]: "dk_files (next_op d) = dk_files d" "dk_ops (next_op d) = Suc (dk_ops d)"
  by (simp_all add: next_op_def)

lemma flush_file_files [simp]: "dk_files (snd (flush_file io d)) = dk_files d"
  by (simp add: flush_file_def simple_op_def)

lemma rotate_files_inv:
  "rotate_files io s d = (ok, s', d') \<Longrightarrow>
    sink_inv s' d' \<and> js_path s' = js_path s \<and> (ok \<longrightarrow> js_file s' \<noteq> None)"
  by (auto simp: rotate_files_def sink_inv_def open_truncate_def simple_op_def handle_at_end_def Let_def
      split: prod.splits bool.splits if_splits)

lemma ensure_file_inv:
  "ensure_file io s d = (ok, s', d') \<Longrightarrow> sink_inv s d \<Longrightarrow>
    sink_inv s' d' \<and> js_path s' = js_path s \<and> (ok \<longrightarrow> js_file s' \<noteq> None)"
  by (auto simp: ensure_file_def sink_inv_def open_append_def simple_op_def metadata_len_def handle_at_end_def
      split: prod.splits bool.splits if_splits option.splits)

lemma write_event_inv:
  assumes "write_event io payload s d = (ok, s', d')" "sink_inv s d"
  shows "sink_inv s' d' \<and> js_path s' = js_path s
    \<and> (ok \<longrightarrow> (\<exists>c. dk_files d' (js_path s) = Some (c @ payload)))"
proof (cases "js_file s")
  case None
  with assms show ?thesis by (simp add: write_event_def)
next
  case (Some h)
  with assms(2) obtain c where c: "dk_files d (js_path s) = Some c" "handle_at_end h c"
    by (auto simp: sink_inv_def)
  show ?thesis
    using assms(1) Some c advance_at_end [OF c(2)] advance_take [OF c(2)]
    by (auto simp: write_event_def write_all_def sink_inv_def put_bytes_at_end flush_file_def simple_op_def Let_def
        split: option.splits if_splits prod.splits)
qed

text \<open>
  C19: Success is reported truthfully on any disk, failing ones included: after any emission the handle
  stands at the end of the active file, and an emission that reports success has put the whole
  serialised event at the end of that file.
\<close>

theorem emit_success_is_written:
  assumes "sink_inv s d" "emit_payload io payload s d = (ok, s', d')"
  shows "sink_inv s' d' \<and> (ok \<longrightarrow> (\<exists>c. dk_files d' (js_path s') = Some (c @ payload)))"
proof -
  let ?first = "if js_max_bytes s < js_bytes_written s + length payload then rotate_files io s d else (True, s, d)"
  obtain ok1 s1 d1 where one: "?first = (ok1, s1, d1)"
    by (meson prod_cases3)
  have inv1: "sink_inv s1 d1"
    using one assms(1) rotate_files_inv [of io s d ok1 s1 d1] by (auto split: if_splits)
  show ?thesis
  proof (cases ok1)
    case False
    with assms(2) one inv1 show ?thesis by (auto simp: emit_payload_def)
  next
    case True
    obtain ok2 s2 d2 where two: "ensure_file io s1 d1 = (ok2, s2, d2)"
      by (meson prod_cases3)
    have inv2: "sink_inv s2 d2"
      using ensure_file_inv [OF two inv1] by simp
    show ?thesis
    proof (cases ok2)
      case False
      with assms(2) one two True inv2 show ?thesis by (auto simp: emit_payload_def)
    next
      case True2: True
      with assms(2) one two True have "write_event io payload s2 d2 = (ok, s', d')"
        by (simp add: emit_payload_def)
      from write_event_inv [OF this inv2] show ?thesis by auto
    qed
  qed
qed

definition sample_sink :: jsonl_sink where
  "sample_sink = \<lparr>js_path = ''a'', js_max_bytes = 20, js_max_files = 2, js_poisoned = False,
     js_file = Some HandleAppend, js_bytes_written = 3\<rparr>"

definition sample_disk :: disk where
  "sample_disk = \<lparr>dk_files = [''a'' \<mapsto> ''old''], dk_ops = 0\<rparr>"

lemma sample_emit:
  "\<exists>s' d'. emit_payload (\<lambda>_. None) ''line'' sample_sink sample_disk = (True, s', d') \<and> js_path s' = ''a''"
  by (simp add: emit_payload_def sample_sink_def sample_disk_def ensure_file_def write_event_def write_all_def
      flush_file_def simple_op_def Let_def)

theorem emit_success_is_written_witness:
  "\<exists>s' d' c. emit_payload (\<lambda>_. None) ''line'' sample_sink sample_disk = (True, s', d')
    \<and> dk_files d' ''a'' = Some (c @ ''line'')"
proof -
  have "sink_inv sample_sink sample_disk"
    by (simp add: sink_inv_def sample_sink_def sample_disk_def handle_at_end_def)
  with sample_emit show ?thesis
    using emit_success_is_written by fastforce
qed

section \<open>A healthy disk\<close>

text \<open>The sink knows the size of its file.\<close>

definition sink_synced :: "jsonl_sink \<Rightarrow> disk \<Rightarrow> bool" where
  "sink_synced s d \<longleftrightarrow> 0 < js_max_files s \<and> (\<exists>h c. js_file s = Some h
     \<and> dk_files d (js_path s) = Some c \<and> handle_at_end h c \<and> js_bytes_written s = length c)"

lemma flush_file_healthy: "healthy io d \<Longrightarrow> flush_file io d = (True, next_op d) \<and> healthy io (next_op d)"
  using simple_op_healthy [of io d "\<lambda>d. d"] by (simp add: flush_file_def)

lemma write_event_healthy:
  assumes "healthy io d" "js_file s = Some h" "dk_files d (js_path s) = Some c" "handle_at_end h c"
    and "js_bytes_written s = length c" "length c + length payload < 2 ^ 64" "0 < js_max_files s"
  shows "\<exists>s' d'. write_event io payload s d = (True, s', d') \<and> healthy io d' \<and> sink_synced s' d'
    \<and> dk_files d' = (dk_files d)(js_path s \<mapsto> c @ payload)
    \<and> js_path s' = js_path s \<and> js_max_files s' = js_max_files s \<and> js_max_bytes s' = js_max_bytes s"
proof -
  have now: "io (dk_ops d) = None" and later: "io (Suc (dk_ops d)) = None"
    using assms(1) by (simp_all add: healthy_def)
  have m: "min (length c + length payload) (2 ^ 64 - 1) = length c + length payload"
    using assms(6) by (intro min_absorb1) simp
  show ?thesis
    using assms(1-5,7) now later m advance_at_end [OF assms(4), of payload]
    by (simp add: write_event_def write_all_def flush_file_def simple_op_def sink_synced_def
        put_bytes_at_end healthy_def Let_def)
qed

lemma rotate_files_shifts:
  assumes "healthy io d" "js_file s \<noteq> None"
  shows "\<exists>s' d'. rotate_files io s d = (True, s', d') \<and> healthy io d' \<and> js_file s' = Some (HandleAt 0)
    \<and> js_bytes_written s' = 0 \<and> js_path s' = js_path s \<and> js_max_files s' = js_max_files s
    \<and> js_max_bytes s' = js_max_bytes s
    \<and> (\<forall>i. dk_files d' (generation (js_path s) i)
          = (if i = 0 then Some [] else shifted (dk_files d) (js_path s) (js_max_files s) i))"
proof -
  let ?p = "js_path s" and ?n = "js_max_files s"
  obtain hd0 where f: "js_file s = Some hd0"
    using assms(2) by auto
  have h0: "healthy io (next_op d)"
    using flush_file_healthy [OF assms(1)] by simp
  obtain d1 where loop: "rotate_loop io ?p ?n (next_op d) = (True, d1)" and h1: "healthy io d1"
    and files: "\<And>i. dk_files d1 (generation ?p i) = shifted (dk_files d) ?p ?n i"
    using rotate_loop_shift [OF h0, of ?p ?n] by auto
  let ?d2 = "next_op (d1\<lparr>dk_files := (dk_files d1)(?p \<mapsto> [])\<rparr>)"
  have op: "open_truncate io ?p d1 = (True, ?d2)" and h2: "healthy io ?d2"
    using simple_op_healthy [OF h1, of "\<lambda>d. d\<lparr>dk_files := (dk_files d)(?p \<mapsto> [])\<rparr>"]
    by (simp_all add: open_truncate_def)
  have gen: "dk_files ?d2 (generation ?p i) = (if i = 0 then Some [] else shifted (dk_files d) ?p ?n i)" for i
    using files [of i] by (cases i) (simp_all add: generation_def)
  then show ?thesis
    using f loop op h2 flush_file_healthy [OF assms(1)] by (simp add: rotate_files_def Let_def)
qed

lemma rotate_files_healthy:
  assumes "healthy io d" "sink_synced s d"
  shows "\<exists>s' d'. rotate_files io s d = (True, s', d') \<and> healthy io d' \<and> js_file s' = Some (HandleAt 0)
    \<and> js_bytes_written s' = 0 \<and> js_path s' = js_path s \<and> js_max_files s' = js_max_files s
    \<and> js_max_bytes s' = js_max_bytes s \<and> dk_files d' (js_path s) = Some []
    \<and> (\<exists>lost. archive (js_path s) (js_max_files s) (dk_files d) = lost @ archive (js_path s) (js_max_files s) (dk_files d')
        \<and> (lost = [] \<or> lost = content_of (dk_files d) (rotated_path (js_path s) (js_max_files s))))"
proof -
  let ?p = "js_path s" and ?n = "js_max_files s"
  have n: "0 < ?n" and f: "js_file s \<noteq> None"
    using assms(2) by (auto simp: sink_synced_def)
  obtain s' d' where r: "rotate_files io s d = (True, s', d')" "healthy io d'" "js_file s' = Some (HandleAt 0)"
      "js_bytes_written s' = 0" "js_path s' = ?p" "js_max_files s' = ?n" "js_max_bytes s' = js_max_bytes s"
    and gen: "\<And>i. dk_files d' (generation ?p i) = (if i = 0 then Some [] else shifted (dk_files d) ?p ?n i)"
    using rotate_files_shifts [OF assms(1) f] by blast
  have "\<exists>lost. archive ?p ?n (dk_files d) = lost @ archive ?p ?n (dk_files d')
      \<and> (lost = [] \<or> lost = content_of (dk_files d) (generation ?p ?n))"
    by (rule archive_shifted [OF n gen])
  moreover have "generation ?p ?n = rotated_path ?p ?n" "dk_files d' ?p = Some []"
    using n gen [of 0] by (simp_all add: generation_def)
  ultimately show ?thesis
    using r by simp
qed

lemma archive_append:
  assumes "f path = Some c"
  shows "archive path n (f(path \<mapsto> c @ payload)) = archive path n f @ payload"
proof -
  have "content_of (f(path \<mapsto> c @ payload)) (generation path (Suc i)) = content_of f (generation path (Suc i))" for i
    by (simp add: content_of_def generation_def)
  then show ?thesis
  proof (induction n)
    case 0
    show ?case using assms by (simp add: archive_def content_of_def generation_def)
  next
    case (Suc n)
    then show ?case by (simp add: archive_Suc)
  qed
qed

lemma emit_payload_synced:
  assumes "healthy io d" "sink_synced s d" "js_bytes_written s + length payload < 2 ^ 64"
  shows "\<exists>s' d' lost kept. emit_payload io payload s d = (True, s', d') \<and> healthy io d' \<and> sink_synced s' d'
    \<and> js_path s' = js_path s \<and> js_max_files s' = js_max_files s \<and> js_max_bytes s' = js_max_bytes s
    \<and> archive (js_path s) (js_max_files s) (dk_files d) = lost @ kept
    \<and> archive (js_path s) (js_max_files s) (dk_files d') = kept @ payload
    \<and> (lost = [] \<or> js_max_bytes s < js_bytes_written s + length payload
        \<and> lost = content_of (dk_files d) (rotated_path (js_path s) (js_max_files s)))
    \<and> js_bytes_written s' = (if js_max_bytes s < js_bytes_written s + length payload then length payload
        else js_bytes_written s + length payload)"
proof (cases "js_max_bytes s < js_bytes_written s + length payload")
  case False
  obtain h c where c: "js_file s = Some h" "dk_files d (js_path s) = Some c" "handle_at_end h c"
    "js_bytes_written s = length c" "0 < js_max_files s"
    using assms(2) by (auto simp: sink_synced_def)
  have len: "length c + length payload < 2 ^ 64"
    using assms(3) c(4) by simp
  obtain s' d' where w: "write_event io payload s d = (True, s', d')" "healthy io d'" "sink_synced s' d'"
    "dk_files d' = (dk_files d)(js_path s \<mapsto> c @ payload)"
    "js_path s' = js_path s" "js_max_files s' = js_max_files s" "js_max_bytes s' = js_max_bytes s"
    using write_event_healthy [OF assms(1) c(1-4) len c(5)] by blast
  have "js_bytes_written s' = length c + length payload"
    using w(3,4,5) by (auto simp: sink_synced_def)
  then show ?thesis
    using False w c archive_append [of "dk_files d" "js_path s" c, OF c(2)]
    by (intro exI [of _ s'] exI [of _ d'] exI [of _ "[]"]
        exI [of _ "archive (js_path s) (js_max_files s) (dk_files d)"])
      (simp add: emit_payload_def ensure_file_def)
next
  case True
  obtain s1 d1 lost where r: "rotate_files io s d = (True, s1, d1)" "healthy io d1" "js_file s1 = Some (HandleAt 0)"
    "js_bytes_written s1 = 0" "js_path s1 = js_path s" "js_max_files s1 = js_max_files s"
    "js_max_bytes s1 = js_max_bytes s" "dk_files d1 (js_path s) = Some []"
    and lost: "archive (js_path s) (js_max_files s) (dk_files d) = lost @ archive (js_path s) (js_max_files s) (dk_files d1)"
      "lost = [] \<or> lost = content_of (dk_files d) (rotated_path (js_path s) (js_max_files s))"
    using rotate_files_healthy [OF assms(1,2)] by blast
  have p: "0 < js_max_files s1"
    using assms(2) r(6) by (auto simp: sink_synced_def)
  obtain s' d' where w: "write_event io payload s1 d1 = (True, s', d')" "healthy io d'" "sink_synced s' d'"
    "dk_files d' = (dk_files d1)(js_path s1 \<mapsto> [] @ payload)"
    "js_path s' = js_path s1" "js_max_files s' = js_max_files s1" "js_max_bytes s' = js_max_bytes s1"
    using write_event_healthy [OF r(2,3) _ _ _ _ p, of "[]" payload] r(4,5,8) assms(3)
    by (auto simp: handle_at_end_def)
  have "archive (js_path s) (js_max_files s) (dk_files d')
      = archive (js_path s) (js_max_files s) (dk_files d1) @ payload"
    using archive_append [of "dk_files d1" "js_path s" "[]", OF r(8), of "js_max_files s" payload] w(4) r(5) by simp
  moreover have "js_bytes_written s' = length payload"
    using w(3,4,5) by (auto simp: sink_synced_def)
  ultimately show ?thesis
    using True r w lost
    by (intro exI [of _ s'] exI [of _ d'] exI [of _ lost]
        exI [of _ "archive (js_path s) (js_max_files s) (dk_files d1)"]) (auto simp: emit_payload_def ensure_file_def)
qed

text \<open>A sequence of emissions, and whether all of them succeeded.\<close>

fun emit_all :: "disk_io \<Rightarrow> string list \<Rightarrow> jsonl_sink \<Rightarrow> disk \<Rightarrow> bool \<times> jsonl_sink \<times> disk" where
  "emit_all io [] s d = (True, s, d)"
| "emit_all io (payload # ps) s d =
     (case emit_payload io payload s d of (ok, s1, d1) \<Rightarrow>
        case emit_all io ps s1 d1 of (oks, s2, d2) \<Rightarrow> (ok \<and> oks, s2, d2))"

lemma new_with_rotation_healthy:
  assumes "healthy io d"
  shows "\<exists>s d'. new_with_rotation io path max_bytes max_files d = (Some s, d') \<and> healthy io d' \<and> sink_synced s d'
    \<and> js_path s = path \<and> js_max_bytes s = max_bytes \<and> js_max_files s = max max_files 1
    \<and> js_bytes_written s = length (content_of (dk_files d) path)
    \<and> archive path n (dk_files d') = archive path n (dk_files d)"
proof -
  define d1 where "d1 = (if path = [] \<or> path = ''/'' then d else next_op d)"
  have f1: "dk_files d1 = dk_files d" and h1: "healthy io d1"
    and o1: "(if path = [] \<or> path = ''/'' then (True, d) else simple_op io (\<lambda>d. d) d) = (True, d1)"
    using simple_op_healthy [of io d "\<lambda>d. d"] assms by (simp_all add: d1_def)
  let ?g = "\<lambda>d. if dk_files d path = None then d\<lparr>dk_files := (dk_files d)(path \<mapsto> [])\<rparr> else d"
  define d2 where "d2 = next_op (?g d1)"
  have h2: "healthy io d2" and o2: "open_append io path d1 = (True, d2)"
    using simple_op_healthy [OF h1, of ?g] by (simp_all add: open_append_def d2_def)
  obtain c where c: "dk_files d2 path = Some c" "c = content_of (dk_files d) path"
    by (cases "dk_files d path") (simp_all add: d2_def f1 content_of_def)
  have "content_of (dk_files d2) p = content_of (dk_files d) p" for p
    by (simp add: d2_def f1 content_of_def split: option.splits)
  then have "archive path n (dk_files d2) = archive path n (dk_files d)"
    by (simp add: archive_def)
  moreover have "metadata_len io path d2 = (Some (length c), next_op d2)" "healthy io (next_op d2)"
    using c h2 by (simp_all add: metadata_len_def healthy_def)
  ultimately show ?thesis
    using c by (simp add: new_with_rotation_def o1 o2 sink_synced_def handle_at_end_def)
qed

lemma emit_all_synced:
  assumes "healthy io d" "sink_synced s d"
    and "js_bytes_written s + length (concat payloads) < 2 ^ 64"
  shows "\<exists>s' d' lost kept. emit_all io payloads s d = (True, s', d') \<and> sink_synced s' d' \<and> js_path s' = js_path s
    \<and> archive (js_path s) (js_max_files s) (dk_files d) @ concat payloads = lost @ kept
    \<and> archive (js_path s) (js_max_files s) (dk_files d') = kept
    \<and> (length (concat payloads) + js_bytes_written s \<le> js_max_bytes s \<longrightarrow> lost = [])"
  using assms
proof (induction payloads arbitrary: s d)
  case Nil
  then show ?case by (intro exI [of _ s] exI [of _ d]) simp
next
  case (Cons payload ps)
  obtain s1 d1 lost kept where e: "emit_payload io payload s d = (True, s1, d1)" "healthy io d1" "sink_synced s1 d1"
    "js_path s1 = js_path s" "js_max_files s1 = js_max_files s" "js_max_bytes s1 = js_max_bytes s"
    and before: "archive (js_path s) (js_max_files s) (dk_files d) = lost @ kept"
    and after: "archive (js_path s) (js_max_files s) (dk_files d1) = kept @ payload"
    and why: "lost = [] \<or> js_max_bytes s < js_bytes_written s + length payload"
    and size: "js_bytes_written s1 = (if js_max_bytes s < js_bytes_written s + length payload then length payload
        else js_bytes_written s + length payload)"
    using emit_payload_synced [OF Cons.prems(1,2), of payload] Cons.prems(3) by auto
  have "js_bytes_written s1 + length (concat ps) < 2 ^ 64"
    using Cons.prems(3) size by (simp split: if_splits)
  from Cons.IH [OF e(2,3) this] obtain s' d' lost2 kept2 where
    all: "emit_all io ps s1 d1 = (True, s', d')" "sink_synced s' d'" "js_path s' = js_path s1"
    and a1: "archive (js_path s1) (js_max_files s1) (dk_files d1) @ concat ps = lost2 @ kept2"
    and a2: "archive (js_path s1) (js_max_files s1) (dk_files d') = kept2"
    and a3: "length (concat ps) + js_bytes_written s1 \<le> js_max_bytes s1 \<longrightarrow> lost2 = []"
    by blast
  have "archive (js_path s) (js_max_files s) (dk_files d) @ concat (payload # ps) = (lost @ lost2) @ kept2"
    using before after a1 e(4,5) by simp
  moreover have "archive (js_path s) (js_max_files s) (dk_files d') = kept2"
    using a2 e(4,5) by simp
  moreover have "length (concat (payload # ps)) + js_bytes_written s \<le> js_max_bytes s \<longrightarrow> lost @ lost2 = []"
    using a3 why size e(6) by (auto split: if_splits)
  moreover have "emit_all io (payload # ps) s d = (True, s', d')"
    using e(1) all(1) by simp
  ultimately show ?case
    using all(2,3) e(4) by (intro exI [of _ s'] exI [of _ d'] exI [of _ "lost @ lost2"] exI [of _ kept2]) simp
qed



text \<open>
  A failing write leaves a torn record that the next event is glued to: when the disk fails in the
  middle of an event and then recovers, the next emission succeeds and the file holds the part of the
  first event with the second one behind it on the same line.
\<close>

theorem torn_record_corrupts_next_line:
  "\<exists>io s1 d1 s2 d2.
     emit_payload io (''first'' @ nl) sample_sink sample_disk = (False, s1, d1)
     \<and> emit_payload io (''second'' @ nl) s1 d1 = (True, s2, d2)
     \<and> dk_files d2 ''a'' = Some (''oldfir'' @ ''second'' @ nl)"
  by (intro exI [of _ "\<lambda>k. if k = 0 then Some 3 else None"])
    (simp add: emit_payload_def sample_sink_def sample_disk_def ensure_file_def write_event_def write_all_def
      put_bytes_def advance_def flush_file_def simple_op_def next_op_def nl_def Let_def)

end
