(* ===== verification/Secrets.thy ===== *)
theory Secrets
  imports Llmos_Prelude "HOL-Library.AList"
begin

text \<open>
  \<^verbatim>\<open>crates/secrets\<close> (the provider trait and its environment implementation in \<^verbatim>\<open>provider.rs\<close>, the store
  with its access control in \<^verbatim>\<open>store.rs\<close>) and the store that llmd builds
  (\<^verbatim>\<open>services/llmd/src/secrets.rs\<close>). The environment is a function from names to values, and
  \<open>str::to_uppercase\<close>, which needs the Unicode tables, is an argument.
\<close>

section \<open>Providers\<close>

datatype secret_error = SecretNotFound string | AccessDenied string string | ProviderError string

fun secret_error_display :: "secret_error \<Rightarrow> string" where
  "secret_error_display (SecretNotFound key) = ''secret not found: '' @ key"
| "secret_error_display (AccessDenied m key) =
     ''access denied for module '' @ [CHR 0x27] @ m @ [CHR 0x27] @ '' to secret '' @ [CHR 0x27] @ key @ [CHR 0x27]"
| "secret_error_display (ProviderError m) = ''provider error: '' @ m"

record env_secret_provider =
  esp_prefix :: string

definition env_provider_new :: env_secret_provider where
  "env_provider_new = \<lparr>esp_prefix = ''LLMOS_SECRET_''\<rparr>"

definition env_provider_with_prefix :: "string \<Rightarrow> env_secret_provider" where
  "env_provider_with_prefix p = \<lparr>esp_prefix = p\<rparr>"

definition resolve_key :: "(string \<Rightarrow> string) \<Rightarrow> env_secret_provider \<Rightarrow> string \<Rightarrow> string" where
  "resolve_key to_uppercase p key = esp_prefix p @ to_uppercase key"

definition env_get ::
  "(string \<Rightarrow> string) \<Rightarrow> (string \<Rightarrow> string option) \<Rightarrow> env_secret_provider \<Rightarrow> string \<Rightarrow> secret_error + string" where
  "env_get to_uppercase env p key = ok_or (SecretNotFound key) (env (resolve_key to_uppercase p key))"

definition env_exists ::
  "(string \<Rightarrow> string) \<Rightarrow> (string \<Rightarrow> string option) \<Rightarrow> env_secret_provider \<Rightarrow> string \<Rightarrow> secret_error + bool" where
  "env_exists to_uppercase env p key = Inr (env (resolve_key to_uppercase p key) \<noteq> None)"

section \<open>The store\<close>

record secret_entry =
  se_key :: string
  se_allowed_modules :: "string set"

record 'p secret_store =
  ss_provider :: 'p
  ss_entries :: "(string \<times> secret_entry) list"

definition store_new :: "'p \<Rightarrow> 'p secret_store" where
  "store_new p = \<lparr>ss_provider = p, ss_entries = []\<rparr>"

definition store_register :: "string \<Rightarrow> string set \<Rightarrow> 'p secret_store \<Rightarrow> 'p secret_store" where
  "store_register key allowed s =
     s\<lparr>ss_entries := AList.update key \<lparr>se_key = key, se_allowed_modules = allowed\<rparr> (ss_entries s)\<rparr>"

definition store_get ::
  "('p \<Rightarrow> string \<Rightarrow> secret_error + string) \<Rightarrow> 'p secret_store \<Rightarrow> string \<Rightarrow> string \<Rightarrow> secret_error + string" where
  "store_get provider_get s m key =
     and_then (ok_or (SecretNotFound key) (map_of (ss_entries s) key)) (\<lambda>entry.
       if m \<notin> se_allowed_modules entry then Inl (AccessDenied m key)
       else provider_get (ss_provider s) key)"

definition store_keys :: "'p secret_store \<Rightarrow> string list" where
  "store_keys s = sort (map fst (ss_entries s))"

record 'p scoped_secret_store =
  sc_module :: string
  sc_store :: "'p secret_store"

definition scoped_new :: "string \<Rightarrow> 'p secret_store \<Rightarrow> 'p scoped_secret_store" where
  "scoped_new m s = \<lparr>sc_module = m, sc_store = s\<rparr>"

definition scoped_get ::
  "('p \<Rightarrow> string \<Rightarrow> secret_error + string) \<Rightarrow> 'p scoped_secret_store \<Rightarrow> string \<Rightarrow> secret_error + string" where
  "scoped_get provider_get s key = store_get provider_get (sc_store s) (sc_module s) key"

definition build_llmd_secret_store :: "env_secret_provider scoped_secret_store" where
  "build_llmd_secret_store =
     (let llmd_module = ''runtime/model-runtime'';
          store = store_new env_provider_new;
          store = store_register ''openai_api_key'' {llmd_module} store;
          store = store_register ''anthropic_api_key'' {llmd_module} store;
          store = store_register ''local_model_path'' {llmd_module} store
      in scoped_new llmd_module store)"

section \<open>What a store needs of its provider\<close>

text \<open>
  The trait \<open>SecretProvider\<close>: \<open>exists\<close> tells whether \<open>get\<close> will find the key, and denying access is
  left to the store.
\<close>

locale secret_provider =
  fixes get :: "'p \<Rightarrow> string \<Rightarrow> secret_error + string"
    and exists :: "'p \<Rightarrow> string \<Rightarrow> secret_error + bool"
  assumes exists_get: "exists p key = Inr True \<longleftrightarrow> (\<exists>v. get p key = Inr v)"
    and get_error: "get p key = Inl err \<Longrightarrow> err = SecretNotFound key \<or> (\<exists>m. err = ProviderError m)"
begin

lemma store_denies_iff:
  "store_get get s m key = Inl (AccessDenied m' key') \<longleftrightarrow>
     m' = m \<and> key' = key \<and> (\<exists>entry. map_of (ss_entries s) key = Some entry \<and> m \<notin> se_allowed_modules entry)"
  using get_error [of "ss_provider s" key "AccessDenied m' key'"]
  by (auto simp: store_get_def result_simps split: if_splits)

lemma store_grants_iff:
  "(\<exists>v. store_get get s m key = Inr v) \<longleftrightarrow>
     (\<exists>entry. map_of (ss_entries s) key = Some entry \<and> m \<in> se_allowed_modules entry)
     \<and> exists (ss_provider s) key = Inr True"
  by (auto simp: store_get_def result_simps exists_get)

end

interpretation env: secret_provider "env_get to_uppercase env" "env_exists to_uppercase env"
  for to_uppercase :: "string \<Rightarrow> string" and env :: "string \<Rightarrow> string option"
  by unfold_locales (auto simp: env_get_def env_exists_def result_simps)

section \<open>Access control\<close>

text \<open>A store after a sequence of registrations; the last one of a key counts.\<close>

definition registered :: "'p \<Rightarrow> (string \<times> string set) list \<Rightarrow> 'p secret_store" where
  "registered p regs = fold (\<lambda>(key, allowed). store_register key allowed) regs (store_new p)"

lemma registered_provider [simp]: "ss_provider (fold (\<lambda>(key, allowed). store_register key allowed) regs s) = ss_provider s"
  by (induction regs arbitrary: s) (auto simp: store_register_def)

lemma store_register_lookup:
  "map_of (ss_entries (store_register k a s)) key =
     (if key = k then Some \<lparr>se_key = k, se_allowed_modules = a\<rparr> else map_of (ss_entries s) key)"
  by (simp add: store_register_def update_conv')

lemma fold_register_entries:
  "map_of (ss_entries (fold (\<lambda>(key, allowed). store_register key allowed) regs s)) key =
     (case map_of (rev regs) key of
        None \<Rightarrow> map_of (ss_entries s) key
      | Some allowed \<Rightarrow> Some \<lparr>se_key = key, se_allowed_modules = allowed\<rparr>)"
proof (induction regs arbitrary: s)
  case (Cons r regs)
  obtain k a where r: "r = (k, a)" by (cases r)
  show ?case
    by (auto simp: r Cons.IH store_register_lookup map_add_def split: option.splits)
qed simp

lemma fold_register_keys:
  "distinct (map fst (ss_entries s)) \<Longrightarrow>
     distinct (map fst (ss_entries (fold (\<lambda>(key, allowed). store_register key allowed) regs s)))"
  by (induction regs arbitrary: s) (auto simp: store_register_def distinct_update)

lemma dom_registered: "fst ` set (ss_entries (registered p regs)) = fst ` set regs"
proof -
  have "key \<in> dom (map_of (ss_entries (registered p regs))) \<longleftrightarrow> key \<in> dom (map_of (rev regs))" for key
    by (auto simp: registered_def fold_register_entries store_new_def dom_def split: option.splits)
  then show ?thesis
    by (simp add: dom_map_of_conv_image_fst set_eq_iff)
qed

text \<open>
  C13: Access control of the secret store. After any sequence of registrations, a request is answered by
  the last registration of its key: unknown keys are not found, a module that is not listed is denied,
  and only a listed module gets the value of the environment variable of the key; \<open>keys\<close> lists every
  registered key once, in order.
\<close>

theorem secret_access_control:
  "store_get (env_get up env) (registered p regs) m key =
     (case map_of (rev regs) key of
        None \<Rightarrow> Inl (SecretNotFound key)
      | Some allowed \<Rightarrow>
          if m \<notin> allowed then Inl (AccessDenied m key)
          else ok_or (SecretNotFound key) (env (esp_prefix p @ up key)))
   \<and> set (store_keys (registered p regs)) = fst ` set regs
   \<and> sorted_wrt (<) (store_keys (registered p regs))"
proof (intro conjI)
  show "store_get (env_get up env) (registered p regs) m key =
     (case map_of (rev regs) key of
        None \<Rightarrow> Inl (SecretNotFound key)
      | Some allowed \<Rightarrow>
          if m \<notin> allowed then Inl (AccessDenied m key)
          else ok_or (SecretNotFound key) (env (esp_prefix p @ up key)))"
    by (simp add: store_get_def registered_def fold_register_entries store_new_def env_get_def resolve_key_def
        split: option.splits)
  show "set (store_keys (registered p regs)) = fst ` set regs"
    using dom_registered [of p regs] by (simp add: store_keys_def)
  show "sorted_wrt (<) (store_keys (registered p regs))"
    using fold_register_keys [of "store_new p" regs]
    by (simp add: store_keys_def registered_def store_new_def strict_sorted_iff)
qed

text \<open>
  What the secret store of llmd can reveal: the value of one of three environment variables, and
  nothing else of the environment; every other key is not found.
\<close>

theorem llmd_secrets_confined:
  "scoped_get (env_get up env) build_llmd_secret_store key =
     (if key \<in> {''openai_api_key'', ''anthropic_api_key'', ''local_model_path''}
      then ok_or (SecretNotFound key) (env (''LLMOS_SECRET_'' @ up key)) else Inl (SecretNotFound key))"
  by (simp add: build_llmd_secret_store_def scoped_get_def scoped_new_def store_get_def store_register_def
      store_new_def env_get_def env_provider_new_def resolve_key_def Let_def)

end
