(* ===== verification/Llmd_Main.thy ===== *)
theory Llmd_Main
  imports Llmd Audit_Log Service_Bus Secrets
begin

text \<open>
  The llmd process: the audit sink on the service bus (\<^verbatim>\<open>services/llmd/src/bus.rs\<close>) and the start-up
  of \<^verbatim>\<open>services/llmd/src/main.rs\<close>, from the environment variables to the three requests it processes.
  The wall clock is a function from the number of the reading to nanoseconds, which may run backwards.
\<close>

section \<open>The audit sink on the bus\<close>

text \<open>
  \<open>ba_pending\<close> holds the envelopes of the spawned tasks that have not run yet; the runtime runs them in
  any order. \<open>ba_seq\<close> is the message counter of the service bus, \<open>ba_reads\<close> counts clock readings.
\<close>

record ('t, 'j) bus_audit_sink =
  ba_transport :: 't
  ba_source :: string
  ba_pending :: "'j envelope list"
  ba_seq :: u64
  ba_reads :: nat

definition bus_sink_new :: "'t \<Rightarrow> string \<Rightarrow> ('t, 'j) bus_audit_sink" where
  "bus_sink_new bus source =
     \<lparr>ba_transport = bus, ba_source = source, ba_pending = [], ba_seq = 1, ba_reads = 0\<rparr>"

definition bus_emit ::
  "(nat \<Rightarrow> int) \<Rightarrow> (audit_event \<Rightarrow> 'j option) \<Rightarrow> audit_event
     \<Rightarrow> ('t, 'j) bus_audit_sink \<times> runtime_metrics_cell \<Rightarrow> ('t, 'j) bus_audit_sink \<times> runtime_metrics_cell" where
  "bus_emit clock to_value event st =
     (case st of (s, cell) \<Rightarrow>
        case to_value event of
          None \<Rightarrow> (s, cell)
        | Some payload \<Rightarrow>
            (case envelope_new (clock (ba_reads s)) (clock (ba_reads s + 1)) ''audit.events'' (ba_source s) payload (ba_seq s) of
               (e, seq) \<Rightarrow>
                 (s\<lparr>ba_pending := ba_pending s @ [e], ba_seq := seq, ba_reads := ba_reads s + 2\<rparr>, cell)))"

text \<open>The spawned task with index \<open>k\<close> runs: a failing publish is only logged.\<close>

definition bus_task ::
  "('j envelope \<Rightarrow> 't \<Rightarrow> (transport_error + unit) \<times> 't) \<Rightarrow> nat \<Rightarrow> ('t, 'j) bus_audit_sink \<Rightarrow> ('t, 'j) bus_audit_sink" where
  "bus_task publish k s =
     (if length (ba_pending s) \<le> k then s
      else s\<lparr>ba_transport := snd (publish (ba_pending s ! k) (ba_transport s)),
             ba_pending := take k (ba_pending s) @ drop (Suc k) (ba_pending s)\<rparr>)"

datatype bus_event = BusEmit audit_event | BusTask nat

fun bus_step ::
  "(nat \<Rightarrow> int) \<Rightarrow> (audit_event \<Rightarrow> 'j option) \<Rightarrow> ('j envelope \<Rightarrow> 't \<Rightarrow> (transport_error + unit) \<times> 't)
     \<Rightarrow> bus_event \<Rightarrow> ('t, 'j) bus_audit_sink \<times> runtime_metrics_cell \<Rightarrow> ('t, 'j) bus_audit_sink \<times> runtime_metrics_cell" where
  "bus_step clock to_value publish (BusEmit event) st = bus_emit clock to_value event st"
| "bus_step clock to_value publish (BusTask k) st = (bus_task publish k (fst st), snd st)"

context transport begin

definition audit_unheard :: "('s, 'j) bus_audit_sink \<Rightarrow> bool" where
  "audit_unheard s \<longleftrightarrow> usable (ba_transport s) \<and> subscribers (ba_transport s) ''audit.events'' = []
     \<and> list_all (\<lambda>e. env_topic e = ''audit.events'') (ba_pending s)"

lemma bus_emit_unheard:
  assumes "audit_unheard s"
  shows "audit_unheard (fst (bus_emit clock to_value event (s, cell)))
    \<and> ba_transport (fst (bus_emit clock to_value event (s, cell))) = ba_transport s
    \<and> snd (bus_emit clock to_value event (s, cell)) = cell"
  using assms
  by (auto simp: bus_emit_def audit_unheard_def envelope_new_def split: option.splits prod.splits)

lemma bus_task_unheard:
  assumes "audit_unheard s"
  shows "audit_unheard (bus_task publish k s) \<and> ba_transport (bus_task publish k s) = ba_transport s"
proof (cases "length (ba_pending s) \<le> k")
  case False
  then have "env_topic (ba_pending s ! k) = ''audit.events''"
    using assms by (simp add: audit_unheard_def list_all_length)
  then have "publish (ba_pending s ! k) (ba_transport s) = (Inl (NoSubscribers ''audit.events''), ba_transport s)"
    using assms publish_no_subscribers [of "ba_transport s" "ba_pending s ! k"] by (simp add: audit_unheard_def)
  moreover have "list_all (\<lambda>e. env_topic e = ''audit.events'') (take k (ba_pending s) @ drop (Suc k) (ba_pending s))"
    using assms by (auto simp: audit_unheard_def list_all_iff dest: in_set_takeD in_set_dropD)
  ultimately show ?thesis
    using assms False by (simp add: bus_task_def audit_unheard_def)
qed (use assms in \<open>simp add: bus_task_def\<close>)

lemma bus_run_unheard:
  assumes "audit_unheard s"
  shows "audit_unheard (fst (fold (bus_step clock to_value publish) evs (s, cell)))
    \<and> ba_transport (fst (fold (bus_step clock to_value publish) evs (s, cell))) = ba_transport s
    \<and> snd (fold (bus_step clock to_value publish) evs (s, cell)) = cell"
  using assms
proof (induction evs arbitrary: s cell)
  case (Cons ev evs)
  show ?case
  proof (cases ev)
    case (BusEmit event)
    obtain s1 cell1 where st: "bus_emit clock to_value event (s, cell) = (s1, cell1)"
      by (meson surj_pair)
    with bus_emit_unheard [OF Cons.prems, of clock to_value event cell]
    have "audit_unheard s1" "ba_transport s1 = ba_transport s" "cell1 = cell" by simp_all
    with Cons.IH [of s1 cell] show ?thesis by (simp add: BusEmit st)
  next
    case (BusTask k)
    with Cons.IH [of "bus_task publish k s" cell] bus_task_unheard [OF Cons.prems, of k] show ?thesis
      by simp
  qed
qed simp

end

text \<open>
  With \<open>LLMOS_AUDIT_BUS\<close> the audit trail of llmd goes nowhere: the sink publishes on a bus that
  start-up has just created and to which nothing subscribes, so whatever is emitted and in whatever
  order the publishing tasks run, the bus stays as it was created and no metric counts a failure.
\<close>

theorem audit_bus_reaches_nobody:
  "let start = bus_sink_new (local_new q) source;
       (sink, cell') = fold (bus_step clock to_value (local_publish lib)) events (start, cell)
   in ba_transport sink = local_new q \<and> cell' = cell"
proof -
  have "local.audit_unheard (bus_sink_new (local_new q) source)"
    by (simp add: local.audit_unheard_def bus_sink_new_def local_new_def local_with_capacity_def local_subscribers_def)
  from local.bus_run_unheard [OF this, of clock to_value lib events cell] show ?thesis
    by (auto simp: bus_sink_new_def split: prod.splits)
qed

section \<open>Configuration\<close>

definition env_or :: "'a \<Rightarrow> (string \<Rightarrow> 'a option) \<Rightarrow> (string \<Rightarrow> string option) \<Rightarrow> string \<Rightarrow> 'a" where
  "env_or d parse env name = unwrap_or d (Option.bind (env name) parse)"

record 'addr llmd_config =
  lc_endpoint :: string
  lc_policy_config :: grpc_policy_client_config
  lc_health_interval_secs :: nat
  lc_audit_rotate_max_bytes :: nat
  lc_audit_rotate_max_files :: nat
  lc_metrics_listen :: 'addr

text \<open>\<open>usize\<close> has 64 bits. A variable that does not parse falls back to its default, except the address.\<close>

definition llmd_config_from_env ::
  "(string \<Rightarrow> string + 'addr) \<Rightarrow> (string \<Rightarrow> string option) \<Rightarrow> string + 'addr llmd_config" where
  "llmd_config_from_env parse_addr env =
     and_then (parse_addr (unwrap_or ''127.0.0.1:9090'' (env ''LLMOS_METRICS_LISTEN''))) (\<lambda>metrics_listen.
       Inr \<lparr>lc_endpoint = unwrap_or ''http://127.0.0.1:50051'' (env ''LLMOS_POLICY_ENDPOINT''),
            lc_policy_config =
              \<lparr>cfg_timeout_per_attempt = from_secs (env_or 2 parse_u64 env ''LLMOS_POLICY_TIMEOUT_SECS''),
               cfg_max_attempts = env_or 3 parse_u64 env ''LLMOS_POLICY_MAX_ATTEMPTS'',
               cfg_initial_backoff = from_millis (env_or 100 parse_u64 env ''LLMOS_POLICY_BACKOFF_INITIAL_MS''),
               cfg_max_backoff = from_millis (env_or 1000 parse_u64 env ''LLMOS_POLICY_BACKOFF_MAX_MS''),
               cfg_circuit_breaker_threshold = of_nat (env_or 3 parse_u32 env ''LLMOS_POLICY_BREAKER_THRESHOLD''),
               cfg_circuit_breaker_cooldown = from_secs (env_or 5 parse_u64 env ''LLMOS_POLICY_BREAKER_COOLDOWN_SECS'')\<rparr>,
            lc_health_interval_secs = env_or 30 parse_u64 env ''LLMOS_POLICY_HEALTH_INTERVAL_SECS'',
            lc_audit_rotate_max_bytes = env_or (10 * 1024 * 1024) parse_u64 env ''LLMOS_AUDIT_ROTATE_MAX_BYTES'',
            lc_audit_rotate_max_files = env_or 5 parse_u64 env ''LLMOS_AUDIT_ROTATE_MAX_FILES'',
            lc_metrics_listen = metrics_listen\<rparr>)"

section \<open>Identifiers and requests\<close>

definition llmd_generate_id :: "string \<Rightarrow> int \<Rightarrow> u64 \<Rightarrow> string \<times> u64" where
  "llmd_generate_id pre clock_ns seq = (seq_id pre (unix_millis clock_ns) seq, seq + 1)"

definition build_request :: "int \<Rightarrow> string \<Rightarrow> string \<Rightarrow> string \<Rightarrow> string \<Rightarrow> u64 \<Rightarrow> action_request \<times> u64" where
  "build_request clock_ns subject action resource correlation_id seq =
     (case llmd_generate_id ''req'' clock_ns seq of (request_id, seq') \<Rightarrow>
        (\<lparr>ar_version = ''v1'', ar_request_id = request_id, ar_correlation_id = correlation_id,
          ar_subject = subject, ar_action = action, ar_resource = resource\<rparr>, seq'))"

text \<open>
  The three requests of start-up. The health task draws identifiers from the same counter, and
  \<open>gap k\<close> counts those it takes before the \<open>k\<close>-th request.
\<close>

definition startup_requests :: "(nat \<Rightarrow> int) \<Rightarrow> (nat \<Rightarrow> nat) \<Rightarrow> string \<Rightarrow> u64 \<Rightarrow> action_request list" where
  "startup_requests wall gap correlation_id seq =
     (case build_request (wall 0) ''runtime/model-runtime'' ''network:connect'' ''api.openai.com'' correlation_id
        (seq + of_nat (gap 0)) of (r0, seq0) \<Rightarrow>
      case build_request (wall 1) ''runtime/mcp-runtime'' ''fs:write'' ''/'' correlation_id
        (seq0 + of_nat (gap 1)) of (r1, seq1) \<Rightarrow>
      case build_request (wall 2) ''runtime/model-runtime'' ''model:invoke'' ''Hello, world!'' correlation_id
        (seq1 + of_nat (gap 2)) of (r2, seq2) \<Rightarrow> [r0, r1, r2])"

record health_io =
  hio_connect :: "string \<Rightarrow> string + unit"
  hio_metadata :: "string \<Rightarrow> string + unit"
  hio_check :: "string \<Rightarrow> string \<Rightarrow> string \<Rightarrow> string + string \<times> string"

text \<open>\<open>hio_check\<close> is the call under its timeout, on service name, request and correlation identifier.\<close>

definition check_policy_health ::
  "health_io \<Rightarrow> string \<Rightarrow> string \<Rightarrow> int \<Rightarrow> u64 \<Rightarrow> (string + string \<times> string) \<times> u64" where
  "check_policy_health io endpoint correlation_id clock_ns seq =
     (case hio_connect io endpoint of
        Inl err \<Rightarrow> (Inl err, seq)
      | Inr _ \<Rightarrow>
          (case llmd_generate_id ''health-req'' clock_ns seq of (request_id, seq') \<Rightarrow>
             (and_then (hio_metadata io request_id) (\<lambda>_.
              and_then (hio_metadata io correlation_id) (\<lambda>_.
                hio_check io ''policy-engine'' request_id correlation_id)), seq')))"

section \<open>The audit sink\<close>

datatype ('t, 'j) audit_sink =
  JsonlSink jsonl_sink disk
| BusSink "('t, 'j) bus_audit_sink"
| StdoutSink "audit_event list"

definition create_audit_sink ::
  "disk_io \<Rightarrow> (string \<Rightarrow> string option) \<Rightarrow> 'addr llmd_config \<Rightarrow> 'q \<Rightarrow> disk
     \<Rightarrow> (('ch, 'q) local_channel, 'j) audit_sink option" where
  "create_audit_sink io env config q d =
     (case env ''LLMOS_AUDIT_JSONL_PATH'' of
        Some path \<Rightarrow>
          (case new_with_rotation io path (lc_audit_rotate_max_bytes config) (lc_audit_rotate_max_files config) d of
             (None, d') \<Rightarrow> None
           | (Some s, d') \<Rightarrow> Some (JsonlSink s d'))
      | None \<Rightarrow>
          if env ''LLMOS_AUDIT_BUS'' \<noteq> None then Some (BusSink (bus_sink_new (local_new q) ''llmd''))
          else Some (StdoutSink []))"

text \<open>The call through \<open>dyn AuditSink\<close>.\<close>

fun audit_emit ::
  "disk_io \<Rightarrow> (audit_event \<Rightarrow> string option) \<Rightarrow> (nat \<Rightarrow> int) \<Rightarrow> (audit_event \<Rightarrow> 'j option) \<Rightarrow> audit_event
     \<Rightarrow> ('t, 'j) audit_sink \<times> runtime_metrics_cell \<Rightarrow> ('t, 'j) audit_sink \<times> runtime_metrics_cell" where
  "audit_emit io to_json clock to_value event (JsonlSink s d, cell) =
     (case jsonl_emit io to_json event ((s, d), cell) of ((s', d'), cell') \<Rightarrow> (JsonlSink s' d', cell'))"
| "audit_emit io to_json clock to_value event (BusSink s, cell) =
     (case bus_emit clock to_value event (s, cell) of (s', cell') \<Rightarrow> (BusSink s', cell'))"
| "audit_emit io to_json clock to_value event (StdoutSink es, cell) =
     (case stdout_emit event (es, cell) of (es', cell') \<Rightarrow> (StdoutSink es', cell'))"

section \<open>Start-up\<close>

text \<open>The loop over the requests; a panic ends the process.\<close>

fun process_requests ::
  "(int \<Rightarrow> action_request \<Rightarrow> 'w \<Rightarrow> action_outcome \<times> 'w) \<Rightarrow> (nat \<Rightarrow> int) \<Rightarrow> nat \<Rightarrow> action_request list \<Rightarrow> 'w
     \<Rightarrow> action_outcome list \<times> 'w" where
  "process_requests process wall n [] w = ([], w)"
| "process_requests process wall n (request # requests) w =
     (case process (wall n) request w of
        (Panic, w1) \<Rightarrow> ([Panic], w1)
      | (Done r, w1) \<Rightarrow>
          (case process_requests process wall (Suc n) requests w1 of (rs, w2) \<Rightarrow> (Done r # rs, w2)))"

text \<open>What the process is given: its environment and the code that is not its own.\<close>

record ('addr, 'q, 'j) llmd_env =
  le_env :: "string \<Rightarrow> string option"
  le_parse_addr :: "string \<Rightarrow> string + 'addr"
  le_connect :: "string \<Rightarrow> string + unit"
  le_client :: client_io
  le_health :: health_io
  le_disk_io :: disk_io
  le_to_json :: "audit_event \<Rightarrow> string option"
  le_to_value :: "audit_event \<Rightarrow> 'j option"
  le_channels :: 'q
  le_wall :: "nat \<Rightarrow> int"
  le_bus_clock :: "nat \<Rightarrow> int"
  le_gap :: "nat \<Rightarrow> nat"

text \<open>The clock readings of the three requests come after those of the correlation and the preflight identifier.\<close>

definition startup_clock :: "('addr, 'q, 'j) llmd_env \<Rightarrow> nat \<Rightarrow> int" where
  "startup_clock le k = le_wall le (2 + k)"

type_synonym ('ch, 'q, 'j) llmd_state = "(mock_backend, (('ch, 'q) local_channel, 'j) audit_sink) llmd_world"

definition llmd_main ::
  "('addr, 'q, 'j) llmd_env \<Rightarrow> disk \<Rightarrow> string + action_outcome list \<times> ('ch, 'q, 'j) llmd_state" where
  "llmd_main le d =
     and_then (llmd_config_from_env (le_parse_addr le) (le_env le)) (\<lambda>config.
       case llmd_generate_id ''corr'' (le_wall le 0) 1 of (correlation_id, seq1) \<Rightarrow>
       and_then (ok_or ''failed to open audit log'' (create_audit_sink (le_disk_io le) (le_env le) config (le_channels le) d)) (\<lambda>sink.
       and_then (le_connect le (lc_endpoint config)) (\<lambda>_.
         case check_policy_health (le_health le) (lc_endpoint config) correlation_id (le_wall le 1) seq1 of (preflight, seq2) \<Rightarrow>
         let requests = startup_requests (startup_clock le) (le_gap le) correlation_id seq2;
             world = \<lparr>lw_client = connected_world (lc_policy_config config) 0, lw_backend = mock_new,
                      lw_sink = sink, lw_history = []\<rparr>
         in Inr (process_requests
              (llmd_process (le_client le) (model_execute mb_loaded mock_infer)
                (audit_emit (le_disk_io le) (le_to_json le) (le_bus_clock le) (le_to_value le)))
              (le_wall le) 5 requests world))))"

section \<open>What start-up does\<close>

lemma llmd_parts_backend [simp]:
  "lw_backend (snd (llmd_evaluate io request w)) = lw_backend w"
  "lw_backend (snd (llmd_execute ex request w)) = lw_backend w"
  "lw_backend (llmd_emit sink event w) = lw_backend w"
  "lw_backend (llmd_metric f w) = lw_backend w"
  by (simp_all add: llmd_evaluate_def llmd_execute_def llmd_emit_def llmd_metric_def split: prod.splits)

text \<open>A call keeps the backend, and a result it returns is the executor's.\<close>

definition executes :: "('b, 's) llmd_world \<Rightarrow> action_outcome \<Rightarrow> action_outcome \<times> ('b, 's) llmd_world \<Rightarrow> bool" where
  "executes w x r \<longleftrightarrow> lw_backend (snd r) = lw_backend w
     \<and> (\<forall>result. fst r = Done (Inr result) \<longrightarrow> x = Done (Inr result))"

lemma llmd_process_executes: "executes w (ex request (lw_backend w)) (llmd_process io ex sink t request w)"
proof -
  have kept: "lw_backend w1 = lw_backend w" if "llmd_evaluate io request w = (e, w1)" for e w1
    using llmd_parts_backend(1) [of io request w] that by simp
  have ran: "lw_backend w2 = lw_backend w1 \<and> o2 = ex request (lw_backend w1)"
    if "llmd_execute ex request w1 = (o2, w2)" for o2 w1 w2
    using that by (auto simp: llmd_execute_def)
  have "executes w (ex request (lw_backend w)) (llmd.process io ex sink t request w)"
  proof (cases rule: llmd.process_cases [of io request w ex sink t])
    case (finished decision w1 res w2)
    with kept [OF finished(1)] ran [OF finished(3)] show ?thesis by (simp add: executes_def)
  next
    case (exec_panic decision w1 w2)
    with kept [OF exec_panic(1)] ran [OF exec_panic(3)] show ?thesis by (simp add: executes_def)
  next
    case (exec_error decision w1 err w2)
    with kept [OF exec_error(1)] ran [OF exec_error(3)] show ?thesis by (simp add: executes_def)
  qed (auto simp: executes_def dest: kept)
  then show ?thesis
    by (simp add: llmd_process_eq)
qed

lemma process_requests_results:
  assumes "\<And>t r w. executes w (ex r (lw_backend w)) (process t r w)"
    and "process_requests process wall n requests w = (outs, w')"
  shows "lw_backend w' = lw_backend w \<and> length outs \<le> length requests
    \<and> (\<forall>i res. i < length outs \<longrightarrow> outs ! i = Done (Inr res) \<longrightarrow> ex (requests ! i) (lw_backend w) = Done (Inr res))"
  using assms(2)
proof (induction requests arbitrary: n w outs)
  case (Cons r rs)
  obtain o1 w1 where p: "process (wall n) r w = (o1, w1)"
    by (meson surj_pair)
  then have b: "lw_backend w1 = lw_backend w" "\<And>res. o1 = Done (Inr res) \<Longrightarrow> ex r (lw_backend w) = Done (Inr res)"
    using assms(1) [of w r "wall n"] by (simp_all add: executes_def)
  show ?case
  proof (cases o1)
    case Panic
    with Cons.prems p b show ?thesis by (auto simp: nth_Cons split: nat.splits)
  next
    case (Done x)
    obtain rest w2 where q: "process_requests process wall (Suc n) rs w1 = (rest, w2)"
      by (meson surj_pair)
    with Cons.prems p Done have o: "outs = Done x # rest" and q': "process_requests process wall (Suc n) rs w1 = (rest, w')"
      by auto
    with Cons.IH [OF q'] Done b show ?thesis
      by (auto simp: nth_Cons split: nat.splits)
  qed
qed simp

lemma llmd_main_parts:
  fixes le :: "('addr, 'q, 'j) llmd_env"
  assumes "llmd_main le d = Inr (outs, w)"
  obtains config :: "'addr llmd_config" and correlation_id seq sink where
    "llmd_config_from_env (le_parse_addr le) (le_env le) = Inr config"
    "create_audit_sink (le_disk_io le) (le_env le) config (le_channels le) d = Some sink"
    "process_requests (llmd_process (le_client le) (model_execute mb_loaded mock_infer)
        (audit_emit (le_disk_io le) (le_to_json le) (le_bus_clock le) (le_to_value le)))
      (le_wall le) 5 (startup_requests (startup_clock le) (le_gap le) correlation_id seq)
      \<lparr>lw_client = connected_world (lc_policy_config config) 0, lw_backend = mock_new, lw_sink = sink, lw_history = []\<rparr>
      = (outs, w)"
proof -
  obtain corr seq1 where corr: "llmd_generate_id ''corr'' (le_wall le 0) 1 = (corr, seq1)"
    by (meson surj_pair)
  obtain config :: "'addr llmd_config" and sink where parts:
      "llmd_config_from_env (le_parse_addr le) (le_env le) = Inr config"
      "create_audit_sink (le_disk_io le) (le_env le) config (le_channels le) d = Some sink"
    and run: "(case check_policy_health (le_health le) (lc_endpoint config) corr (le_wall le 1) seq1 of (preflight, seq2) \<Rightarrow>
      process_requests (llmd_process (le_client le) (model_execute mb_loaded mock_infer)
        (audit_emit (le_disk_io le) (le_to_json le) (le_bus_clock le) (le_to_value le)))
      (le_wall le) 5 (startup_requests (startup_clock le) (le_gap le) corr seq2)
      \<lparr>lw_client = connected_world (lc_policy_config config) 0, lw_backend = mock_new, lw_sink = sink, lw_history = []\<rparr>)
      = (outs, w)"
    using assms unfolding llmd_main_def Let_def corr prod.case
    by (auto simp: and_then_Inr_iff ok_or_Inr_iff case_prod_beta)
  show thesis
    using run by (cases "check_policy_health (le_health le) (lc_endpoint config) corr (le_wall le 1) seq1")
      (auto intro: that [OF parts])
qed

lemma llmd_main_Inr:
  fixes le :: "('addr, 'q, 'j) llmd_env"
  assumes "llmd_main le d = Inr (outs, w)"
  obtains config :: "'addr llmd_config" and correlation_id seq sink where
    "process_requests (llmd_process (le_client le) (model_execute mb_loaded mock_infer)
        (audit_emit (le_disk_io le) (le_to_json le) (le_bus_clock le) (le_to_value le)))
      (le_wall le) 5 (startup_requests (startup_clock le) (le_gap le) correlation_id seq)
      \<lparr>lw_client = connected_world (lc_policy_config config) 0, lw_backend = mock_new, lw_sink = sink, lw_history = []\<rparr>
      = (outs, w)"
  by (rule llmd_main_parts [OF assms]) (rule that)

definition startup_messages :: "string list" where
  "startup_messages =
     [''executed network:connect for subject runtime/model-runtime on api.openai.com'',
      ''executed fs:write for subject runtime/mcp-runtime on /'',
      ''model:invoke accepted (no model loaded; pass-through)'']"

lemma length_startup_requests [simp]: "length (startup_requests wall gap corr seq) = 3"
  by (simp add: startup_requests_def build_request_def llmd_generate_id_def)

lemma startup_request_executes:
  assumes "i < 3" "model_execute mb_loaded mock_infer (startup_requests wall gap corr seq ! i) mock_new = Done (Inr result)"
  shows "res_status result = Executed \<and> res_message result = startup_messages ! i"
proof -
  from assms(1) have "i = 0 \<or> i = 1 \<or> i = 2" by auto
  with assms(2) show ?thesis
    by (auto simp: startup_requests_def build_request_def llmd_generate_id_def model_execute_def
        executed_message_def mock_new_def startup_messages_def)
qed

text \<open>
  Start-up never runs a model: whatever the environment and the policy service answer, the backend
  stays the unloaded mock, and a request that is reported as executed only got a message; for
  \<open>model:invoke\<close> that message is the one of the pass-through.
\<close>

theorem startup_without_inference:
  fixes le :: "('addr, 'q, 'j) llmd_env"
  assumes "llmd_main le d = Inr (outs, w)"
  shows "lw_backend w = mock_new \<and> length outs \<le> 3 \<and>
    (\<forall>i result. i < length outs \<longrightarrow> outs ! i = Done (Inr result) \<longrightarrow>
      res_status result = Executed \<and> res_message result = startup_messages ! i)"
proof -
  obtain config :: "'addr llmd_config" and corr seq sink where "process_requests (llmd_process (le_client le) (model_execute mb_loaded mock_infer)
        (audit_emit (le_disk_io le) (le_to_json le) (le_bus_clock le) (le_to_value le)))
      (le_wall le) 5 (startup_requests (startup_clock le) (le_gap le) corr seq)
      \<lparr>lw_client = connected_world (lc_policy_config config) 0, lw_backend = mock_new, lw_sink = sink, lw_history = []\<rparr>
      = (outs, w)"
    by (rule llmd_main_Inr [OF assms])
  from process_requests_results [OF llmd_process_executes this]
  have res: "lw_backend w = mock_new" "length outs \<le> 3"
    "\<And>i result. i < length outs \<Longrightarrow> outs ! i = Done (Inr result) \<Longrightarrow>
      model_execute mb_loaded mock_infer (startup_requests (startup_clock le) (le_gap le) corr seq ! i) mock_new = Done (Inr result)"
    by simp_all
  moreover have "res_status result = Executed \<and> res_message result = startup_messages ! i"
    if "i < length outs" "outs ! i = Done (Inr result)" for i result
    using that res(2) by (intro startup_request_executes [OF _ res(3)]) simp_all
  ultimately show ?thesis
    by blast
qed

definition sample_llmd_env :: "(unit, unit, string) llmd_env" where
  "sample_llmd_env =
     \<lparr>le_env = (\<lambda>_. None), le_parse_addr = (\<lambda>_. Inr ()), le_connect = (\<lambda>_. Inr ()),
      le_client = sample_io sample_answer,
      le_health = \<lparr>hio_connect = (\<lambda>_. Inr ()), hio_metadata = (\<lambda>_. Inr ()),
                   hio_check = (\<lambda>_ _ _. Inr (''SERVING'', ''ok''))\<rparr>,
      le_disk_io = (\<lambda>_. None), le_to_json = (\<lambda>_. None), le_to_value = (\<lambda>_. None), le_channels = (),
      le_wall = (\<lambda>n. int n), le_bus_clock = (\<lambda>n. 0), le_gap = (\<lambda>_. 0)\<rparr>"

lemma sample_llmd_main:
  obtains outs and w :: "(unit, unit, string) llmd_state" where "llmd_main sample_llmd_env sample_disk = Inr (outs, w)"
proof -
  have "\<exists>r :: action_outcome list \<times> (unit, unit, string) llmd_state. llmd_main sample_llmd_env sample_disk = Inr r"
    by (simp add: llmd_main_def sample_llmd_env_def llmd_config_from_env_def create_audit_sink_def Let_def
        split: prod.splits)
  then show thesis
    using that by (metis surj_pair)
qed

theorem startup_without_inference_witness:
  "\<exists>outs (w :: (unit, unit, string) llmd_state).
     llmd_main sample_llmd_env sample_disk = Inr (outs, w) \<and> lw_backend w = mock_new"
  by (rule sample_llmd_main) (use startup_without_inference in blast)

end
