(* ===== verification/Audit_Trail.thy ===== *)
theory Audit_Trail
  imports Llmd_Main
begin

text \<open>
  The audit trail of a whole run of llmd: the pipeline of \<open>Llmd\<close>, the rotating file of \<open>Audit_Log\<close> and the start-up
  of \<open>Llmd_Main\<close> put together.
\<close>

section \<open>The events of a history\<close>

fun audit_events :: "pipeline_event list \<Rightarrow> audit_event list" where
  "audit_events [] = []"
| "audit_events (ActionRun request # h) = audit_events h"
| "audit_events (AuditEmitted event # h) = event # audit_events h"

lemma audit_events_append [simp]: "audit_events (h @ h') = audit_events h @ audit_events h'"
  by (induction h rule: audit_events.induct) simp_all

definition event_lines :: "(audit_event \<Rightarrow> string) \<Rightarrow> audit_event list \<Rightarrow> string" where
  "event_lines json events = concat (map (\<lambda>event. json event @ nl) events)"

lemma event_lines_append [simp]:
  "event_lines json [] = []" "event_lines json (es @ es') = event_lines json es @ event_lines json es'"
  "event_lines json [event] = json event @ nl"
  by (simp_all add: event_lines_def)

section \<open>One event for every request\<close>

definition event_about :: "action_request \<Rightarrow> (llmos_error + action_result) \<Rightarrow> audit_event \<Rightarrow> bool" where
  "event_about request r event \<longleftrightarrow> ae_request_id event = ar_request_id request
     \<and> ae_correlation_id event = ar_correlation_id request \<and> ae_subject event = ar_subject request
     \<and> ae_action event = ar_action request \<and> ae_resource event = ar_resource request
     \<and> (case r of
          Inl err \<Rightarrow> pd_effect (ae_decision event) = PolicyDeny \<and> ae_outcome event = Denied
            \<and> err = ActionDenied (pd_reason (ae_decision event))
        | Inr result \<Rightarrow> pd_effect (ae_decision event) = PolicyAllow \<and> ae_outcome event = res_status result)"

lemma llmd_evaluate_frame:
  "lw_history (snd (llmd_evaluate io request w)) = lw_history w"
  "lw_sink (snd (llmd_evaluate io request w)) = lw_sink w"
  by (simp_all add: llmd_evaluate_def split: prod.splits)

lemma process_one_event:
  assumes "ex request (lw_backend w) = Done (Inr result)" "llmd_process io ex sink t request w = (out, w')"
  shows "case out of Panic \<Rightarrow> lw_history w' = lw_history w
    | Done r \<Rightarrow> \<exists>event. event_about request r event
        \<and> audit_events (lw_history w') = audit_events (lw_history w) @ [event]"
proof -
  have h: "lw_history w1 = lw_history w \<and> lw_backend w1 = lw_backend w" if "llmd_evaluate io request w = (e, w1)" for e w1
    using llmd_evaluate_frame [of io request w] llmd_parts_backend(1) [of io request w] that by simp
  have x: "o2 = Done (Inr result) \<and> lw_history w2 = lw_history w @ [ActionRun request]"
    if "llmd_evaluate io request w = (e, w1)" "llmd_execute ex request w1 = (o2, w2)" for e w1 o2 w2
    using h [OF that(1)] that(2) assms(1) by (auto simp: llmd_execute_def)
  note frame = llmd.emit_history llmd.metric_history event_about_def build_audit_event_def
  show ?thesis
  proof (cases rule: llmd.process_cases [of io request w ex sink t])
    case (panic w1)
    with h [OF panic(1)] assms(2) show ?thesis by (simp add: llmd_process_eq)
  next
    case (unavailable message w1 reason)
    with h [OF unavailable(1)] assms(2) show ?thesis by (auto simp: llmd_process_eq frame)
  next
    case (denied decision w1)
    with h [OF denied(1)] assms(2) show ?thesis by (auto simp: llmd_process_eq frame)
  next
    case (exec_panic decision w1 w2)
    with x [OF exec_panic(1,3)] show ?thesis by simp
  next
    case (exec_error decision w1 err w2)
    with x [OF exec_error(1,3)] show ?thesis by simp
  next
    case (finished decision w1 result' w2)
    with x [OF finished(1,3)] assms(2) show ?thesis by (auto simp: llmd_process_eq frame)
  qed
qed

text \<open>The outcomes that returned, with the requests they answer.\<close>

fun returned :: "action_request list \<Rightarrow> action_outcome list \<Rightarrow> (action_request \<times> (llmos_error + action_result)) list" where
  "returned (request # requests) (Done r # outs) = (request, r) # returned requests outs"
| "returned requests outs = []"

lemma process_requests_events:
  assumes "\<forall>request\<in>set requests. \<exists>result. ex request (lw_backend w) = Done (Inr result)"
    and "process_requests (llmd_process io ex sink) wall n requests w = (outs, w')"
  shows "\<exists>events. audit_events (lw_history w') = audit_events (lw_history w) @ events
    \<and> list_all2 (\<lambda>(request, r) event. event_about request r event) (returned requests outs) events"
  using assms
proof (induction requests arbitrary: n w outs)
  case (Cons request requests)
  obtain o1 w1 where p: "llmd_process io ex sink (wall n) request w = (o1, w1)"
    by (meson surj_pair)
  obtain result where x: "ex request (lw_backend w) = Done (Inr result)"
    using Cons.prems(1) by auto
  have b: "lw_backend w1 = lw_backend w"
    using llmd_process_executes [of w ex request io sink "wall n"] p by (simp add: executes_def)
  show ?case
  proof (cases o1)
    case Panic
    with Cons.prems(2) p process_one_event [OF x p] show ?thesis by auto
  next
    case (Done r)
    then obtain event where ev: "event_about request r event"
      "audit_events (lw_history w1) = audit_events (lw_history w) @ [event]"
      using process_one_event [OF x p] by auto
    obtain rest where q: "process_requests (llmd_process io ex sink) wall (Suc n) requests w1 = (rest, w')"
      and o: "outs = Done r # rest"
      using Cons.prems(2) p Done by (auto split: prod.splits)
    from Cons.IH [OF _ q] Cons.prems(1) b obtain events where
      "audit_events (lw_history w') = audit_events (lw_history w1) @ events"
      "list_all2 (\<lambda>(request, r) event. event_about request r event) (returned requests rest) events"
      by auto
    with ev o show ?thesis
      by (intro exI [of _ "event # events"]) simp
  qed
qed simp

section \<open>The events in the file\<close>

lemma emit_payload_poisoned: "emit_payload io payload s d = (ok, s', d') \<Longrightarrow> js_poisoned s' = js_poisoned s"
  by (auto simp: emit_payload_def rotate_files_def ensure_file_def write_event_def Let_def
      split: prod.splits bool.splits if_splits option.splits)

text \<open>
  The file holds a tail of what it held before, followed by the lines of \<open>events\<close>; nothing of it is lost while
  it all fits.
\<close>

definition log_holds ::
  "disk_io \<Rightarrow> jsonl_sink \<Rightarrow> string \<Rightarrow> nat \<Rightarrow> string \<Rightarrow> jsonl_sink \<Rightarrow> disk \<Rightarrow> bool" where
  "log_holds io s0 old used new s d \<longleftrightarrow> healthy io d \<and> sink_synced s d \<and> \<not> js_poisoned s
     \<and> js_path s = js_path s0 \<and> js_max_files s = js_max_files s0 \<and> js_max_bytes s = js_max_bytes s0
     \<and> js_bytes_written s \<le> used + length new
     \<and> (\<exists>lost. old @ new = lost @ archive (js_path s0) (js_max_files s0) (dk_files d)
          \<and> (used + length new \<le> js_max_bytes s0 \<longrightarrow> lost = []))"

lemma log_holds_emit:
  assumes "log_holds io s0 old used new s d" "used + length (new @ payload) < 2 ^ 64"
    and "emit_payload io payload s d = (ok, s', d')"
  shows "ok \<and> log_holds io s0 old used (new @ payload) s' d'"
proof -
  obtain lost where old: "old @ new = lost @ archive (js_path s0) (js_max_files s0) (dk_files d)"
    and fits: "used + length new \<le> js_max_bytes s0 \<longrightarrow> lost = []"
    using assms(1) by (auto simp: log_holds_def)
  have h: "healthy io d" "sink_synced s d" "js_path s = js_path s0" "js_max_files s = js_max_files s0"
    "js_max_bytes s = js_max_bytes s0" "js_bytes_written s \<le> used + length new" "\<not> js_poisoned s"
    using assms(1) by (simp_all add: log_holds_def)
  then have "js_bytes_written s + length payload < 2 ^ 64"
    using assms(2) by simp
  from emit_payload_synced [OF h(1,2) this] obtain lost2 kept where
    e: "ok" "healthy io d'" "sink_synced s' d'" "js_path s' = js_path s" "js_max_files s' = js_max_files s"
      "js_max_bytes s' = js_max_bytes s"
    and before: "archive (js_path s) (js_max_files s) (dk_files d) = lost2 @ kept"
    and after: "archive (js_path s) (js_max_files s) (dk_files d') = kept @ payload"
    and why: "lost2 = [] \<or> js_max_bytes s < js_bytes_written s + length payload"
    and used: "js_bytes_written s' = (if js_max_bytes s < js_bytes_written s + length payload then length payload
        else js_bytes_written s + length payload)"
    unfolding assms(3) by auto
  have "old @ new @ payload = (lost @ lost2) @ archive (js_path s0) (js_max_files s0) (dk_files d')"
    using old before after h(3,4) by (metis append.assoc)
  moreover have "used + length (new @ payload) \<le> js_max_bytes s0 \<longrightarrow> lost @ lost2 = []"
    using fits why h(5,6) by auto
  ultimately show ?thesis
    using e h used emit_payload_poisoned [OF assms(3)] unfolding log_holds_def
    by (auto intro!: exI [of _ "lost @ lost2"])
qed

definition sink_holds ::
  "disk_io \<Rightarrow> (audit_event \<Rightarrow> string) \<Rightarrow> jsonl_sink \<Rightarrow> string \<Rightarrow> nat
     \<Rightarrow> ('b, ('t, 'j) audit_sink) llmd_world \<Rightarrow> bool" where
  "sink_holds io json s0 old used w \<longleftrightarrow> (\<exists>s d. lw_sink w = JsonlSink s d
     \<and> (used + length (event_lines json (audit_events (lw_history w))) < 2 ^ 64
          \<longrightarrow> log_holds io s0 old used (event_lines json (audit_events (lw_history w))) s d))"

lemma sink_holds_emit:
  assumes "sink_holds io json s0 old used w" "\<And>event. to_json event = Some (json event)"
  shows "sink_holds io json s0 old used (llmd_emit (audit_emit io to_json clock to_value) event w)"
proof -
  obtain s d where s: "lw_sink w = JsonlSink s d"
    and holds: "used + length (event_lines json (audit_events (lw_history w))) < 2 ^ 64
      \<longrightarrow> log_holds io s0 old used (event_lines json (audit_events (lw_history w))) s d"
    using assms(1) by (auto simp: sink_holds_def)
  obtain ok s' d' where e: "emit_payload io (json event @ nl) s d = (ok, s', d')"
    by (meson prod_cases3)
  show ?thesis
  proof (cases "used + length (event_lines json (audit_events (lw_history w)) @ json event @ nl) < 2 ^ 64")
    case True
    with holds have l: "log_holds io s0 old used (event_lines json (audit_events (lw_history w))) s d" by simp
    then have "\<not> js_poisoned s" by (simp add: log_holds_def)
    with log_holds_emit [OF l True e] s e show ?thesis
      by (simp add: sink_holds_def llmd_emit_def jsonl_emit_def assms(2))
  next
    case False
    with s e show ?thesis
      by (simp add: sink_holds_def llmd_emit_def jsonl_emit_def assms(2))
  qed
qed

lemma sink_holds_process:
  assumes "sink_holds io json s0 old used w" "\<And>event. to_json event = Some (json event)"
  shows "sink_holds io json s0 old used (snd (llmd_process cio ex (audit_emit io to_json clock to_value) t request w))"
  unfolding llmd_process_eq
proof (rule llmd.process_preserves [of "sink_holds io json s0 old used"])
  show "sink_holds io json s0 old used (llmd_emit (audit_emit io to_json clock to_value) event w)"
    if "sink_holds io json s0 old used w" for w event
    by (rule sink_holds_emit [OF that assms(2)])
qed (use assms(1) in \<open>simp_all add: sink_holds_def llmd_evaluate_frame llmd_execute_def llmd_metric_def\<close>)

lemma sink_holds_requests:
  assumes "\<And>event. to_json event = Some (json event)"
    and "process_requests (llmd_process cio ex (audit_emit io to_json clock to_value)) wall n requests w = (outs, w')"
    and "sink_holds io json s0 old used w"
  shows "sink_holds io json s0 old used w'"
  using assms(2,3)
proof (induction requests arbitrary: n w outs)
  case (Cons request requests)
  obtain o1 w1 where p: "llmd_process cio ex (audit_emit io to_json clock to_value) (wall n) request w = (o1, w1)"
    by (meson surj_pair)
  then have "sink_holds io json s0 old used w1"
    using sink_holds_process [OF Cons.prems(2) assms(1), of cio ex clock to_value "wall n" request] by simp
  with Cons.IH [of "Suc n" w1] Cons.prems(1) p show ?case
    by (cases o1) (auto split: prod.splits)
qed simp

section \<open>The trail of a run\<close>

lemma startup_executes:
  "request \<in> set (startup_requests wall gap corr seq) \<Longrightarrow>
    \<exists>result. model_execute mb_loaded mock_infer request mock_new = Done (Inr result)"
  by (auto simp: startup_requests_def build_request_def llmd_generate_id_def model_execute_def mock_new_def)

definition startup_actions :: "(string \<times> string \<times> string) list" where
  "startup_actions = [(''runtime/model-runtime'', ''network:connect'', ''api.openai.com''),
     (''runtime/mcp-runtime'', ''fs:write'', ''/''), (''runtime/model-runtime'', ''model:invoke'', ''Hello, world!'')]"

text \<open>What the log says about the outcomes of start-up: an event for each, in order, with its action and its verdict.\<close>

definition tells_of :: "audit_event \<Rightarrow> action_outcome \<Rightarrow> string \<times> string \<times> string \<Rightarrow> bool" where
  "tells_of event out act \<longleftrightarrow> (ae_subject event, ae_action event, ae_resource event) = act
     \<and> (case out of
          Panic \<Rightarrow> False
        | Done (Inl err) \<Rightarrow> ae_outcome event = Denied \<and> err = ActionDenied (pd_reason (ae_decision event))
        | Done (Inr result) \<Rightarrow> ae_outcome event = res_status result \<and> pd_effect (ae_decision event) = PolicyAllow)"

lemma about_tells:
  "event_about request r event \<Longrightarrow> tells_of event (Done r) (ar_subject request, ar_action request, ar_resource request)"
  by (auto simp: event_about_def tells_of_def split: sum.splits)

lemma startup_views:
  "map (\<lambda>r. (ar_subject r, ar_action r, ar_resource r)) (startup_requests wall gap corr seq) = startup_actions"
  by (simp add: startup_requests_def build_request_def llmd_generate_id_def startup_actions_def)

lemma returned_tells:
  assumes "list_all2 (\<lambda>(request, r) event. event_about request r event) (returned requests outs) events"
  shows "length events = length (takeWhile (\<lambda>out. out \<noteq> Panic) (take (length requests) outs))
    \<and> (\<forall>i<length events. tells_of (events ! i) (outs ! i)
         (map (\<lambda>r. (ar_subject r, ar_action r, ar_resource r)) requests ! i))"
  using assms
proof (induction requests outs arbitrary: events rule: returned.induct)
  case (1 request requests r outs)
  then obtain event rest where "events = event # rest" "event_about request r event"
    "list_all2 (\<lambda>(request, r) event. event_about request r event) (returned requests outs) rest"
    by (auto simp: list_all2_Cons1)
  with 1 about_tells show ?case
    by (auto simp: nth_Cons split: nat.splits)
qed (auto simp: take_Cons')

lemma run_events:
  fixes le :: "('addr, 'q, 'j) llmd_env" and w :: "('ch, 'q, 'j) llmd_state"
  assumes run: "llmd_main le d = Inr (outs, w)"
  shows "length (audit_events (lw_history w)) = length (takeWhile (\<lambda>out. out \<noteq> Panic) outs)
    \<and> (\<forall>i<length (audit_events (lw_history w)).
          tells_of (audit_events (lw_history w) ! i) (outs ! i) (startup_actions ! i))"
proof -
  obtain config :: "'addr llmd_config" and corr seq and sink :: "(('ch, 'q) local_channel, 'j) audit_sink" where
    proc: "process_requests (llmd_process (le_client le) (model_execute mb_loaded mock_infer)
        (audit_emit (le_disk_io le) (le_to_json le) (le_bus_clock le) (le_to_value le)))
      (le_wall le) 5 (startup_requests (startup_clock le) (le_gap le) corr seq)
      \<lparr>lw_client = connected_world (lc_policy_config config) 0, lw_backend = mock_new, lw_sink = sink, lw_history = []\<rparr>
      = (outs, w)"
    by (rule llmd_main_Inr [OF run])
  have ex: "\<forall>request\<in>set (startup_requests (startup_clock le) (le_gap le) corr seq). \<exists>result. model_execute mb_loaded mock_infer
      request (lw_backend \<lparr>lw_client = connected_world (lc_policy_config config) 0, lw_backend = mock_new, lw_sink = sink,
        lw_history = []\<rparr>) = Done (Inr result)"
    using startup_executes by simp
  have "list_all2 (\<lambda>(request, r) event. event_about request r event)
      (returned (startup_requests (startup_clock le) (le_gap le) corr seq) outs) (audit_events (lw_history w))"
    using process_requests_events [OF ex proc] by auto
  moreover have "length outs \<le> 3"
    using process_requests_results [OF llmd_process_executes proc] by simp
  ultimately show ?thesis
    using returned_tells by (fastforce simp: startup_views)
qed


definition audited_env :: "(unit, unit, string) llmd_env" where
  "audited_env = sample_llmd_env\<lparr>le_env := [''LLMOS_AUDIT_JSONL_PATH'' \<mapsto> ''a''], le_to_json := (\<lambda>event. Some ''{}'')\<rparr>"

lemma audited_run:
  obtains outs and w :: "(unit, unit, string) llmd_state" where "llmd_main audited_env sample_disk = Inr (outs, w)"
proof -
  have "new_with_rotation (\<lambda>_. None) ''a'' 10485760 5 sample_disk \<noteq> (None, d)" for d
    using new_with_rotation_healthy [of "\<lambda>_. None" sample_disk "''a''" 10485760 5] by (auto simp: healthy_def)
  then have "\<exists>r :: action_outcome list \<times> (unit, unit, string) llmd_state. llmd_main audited_env sample_disk = Inr r"
    by (simp add: llmd_main_def audited_env_def sample_llmd_env_def llmd_config_from_env_def create_audit_sink_def
        unwrap_or_def env_or_def Let_def split: prod.splits option.splits)
  then show thesis
    using that by (metis surj_pair)
qed

lemma event_lines_const: "length (event_lines (\<lambda>event. ''{}'') events) = 3 * length events"
  by (induction events) (simp_all add: event_lines_def nl_def)


end
