(* ===== verification/Sandbox.thy ===== *)
theory Sandbox
  imports Llmos_Prelude
begin

text \<open>
  \<^verbatim>\<open>crates/sandbox/src\<close> (seccomp, AppArmor, namespace and capability templates) and
  \<^verbatim>\<open>services/mcp-runtime/src/sandbox.rs\<close>, which picks a profile for a plugin from the capabilities
  that its manifest declares.
\<close>

section \<open>Templates\<close>

datatype seccomp_action = SeccompAllow | SeccompKill | SeccompLog | SeccompErrno

record syscall_rule =
  sr_names :: "string list"
  sr_action :: seccomp_action

record seccomp_profile =
  sp_default_action :: seccomp_action
  sp_rules :: "syscall_rule list"

definition seccomp_mcp_plugin :: seccomp_profile where
  "seccomp_mcp_plugin = \<lparr>sp_default_action = SeccompErrno,
     sp_rules =
       [\<lparr>sr_names = [''read'', ''write'', ''close'', ''fstat'', ''lseek'', ''mmap'', ''mprotect'', ''munmap'',
           ''brk'', ''exit_group'', ''exit'', ''futex'', ''clock_gettime'', ''getpid'', ''gettid''],
         sr_action = SeccompAllow\<rparr>,
        \<lparr>sr_names = [''openat'', ''newfstatat'', ''getdents64''], sr_action = SeccompAllow\<rparr>]\<rparr>"

definition network_syscalls :: "string list" where
  "network_syscalls = [''socket'', ''connect'', ''sendto'', ''recvfrom'', ''bind'', ''listen'', ''accept'',
     ''setsockopt'', ''getsockopt'', ''epoll_create1'', ''epoll_ctl'', ''epoll_wait'']"

definition seccomp_model_runtime :: seccomp_profile where
  "seccomp_model_runtime = seccomp_mcp_plugin\<lparr>sp_rules := sp_rules seccomp_mcp_plugin
     @ [\<lparr>sr_names = network_syscalls, sr_action = SeccompAllow\<rparr>]\<rparr>"

record apparmor_profile =
  aa_name :: string
  aa_read_paths :: "string list"
  aa_write_paths :: "string list"
  aa_network_access :: bool

definition apparmor_mcp_plugin :: "string \<Rightarrow> apparmor_profile" where
  "apparmor_mcp_plugin plugin_dir = \<lparr>aa_name = ''llmos-mcp-plugin'',
     aa_read_paths = [plugin_dir @ ''/**'', ''/usr/lib/**'', ''/lib/**''], aa_write_paths = [],
     aa_network_access = False\<rparr>"

definition apparmor_model_runtime :: "string \<Rightarrow> string \<Rightarrow> apparmor_profile" where
  "apparmor_model_runtime config_dir audit_dir = \<lparr>aa_name = ''llmos-model-runtime'',
     aa_read_paths = [config_dir @ ''/**'', ''/usr/lib/**'', ''/lib/**''],
     aa_write_paths = [audit_dir @ ''/**''], aa_network_access = True\<rparr>"

record namespace_config =
  ns_pid :: bool
  ns_net :: bool
  ns_mount :: bool
  ns_ipc :: bool
  ns_user :: bool

definition namespace_full :: namespace_config where
  "namespace_full = \<lparr>ns_pid = True, ns_net = True, ns_mount = True, ns_ipc = True, ns_user = True\<rparr>"

definition namespace_network_only :: namespace_config where
  "namespace_network_only =
     \<lparr>ns_pid = False, ns_net = True, ns_mount = False, ns_ipc = False, ns_user = False\<rparr>"

definition namespace_none :: namespace_config where
  "namespace_none = \<lparr>ns_pid = False, ns_net = False, ns_mount = False, ns_ipc = False, ns_user = False\<rparr>"

record capability_set =
  cs_allowed :: "string list"
  cs_denied :: "string list"

definition capability_minimal :: capability_set where
  "capability_minimal = \<lparr>cs_allowed = [], cs_denied = [''CAP_NET_RAW'', ''CAP_NET_ADMIN'', ''CAP_SYS_ADMIN'',
     ''CAP_SYS_PTRACE'', ''CAP_SYS_MODULE'', ''CAP_MKNOD'']\<rparr>"

definition capability_model_runtime :: capability_set where
  "capability_model_runtime = \<lparr>cs_allowed = [''CAP_NET_BIND_SERVICE''],
     cs_denied = [''CAP_SYS_ADMIN'', ''CAP_SYS_PTRACE'', ''CAP_SYS_MODULE'', ''CAP_MKNOD'']\<rparr>"

section \<open>Resolving a plugin's sandbox\<close>

datatype plugin_capability = ModelInvoke | McpSpawn | NetworkEgress | FsRead | FsWrite | AuditEmit

record plugin_sandbox_config =
  psc_seccomp :: seccomp_profile
  psc_apparmor :: apparmor_profile
  psc_namespaces :: namespace_config
  psc_capabilities :: capability_set

definition resolve_sandbox :: "string \<Rightarrow> plugin_capability list \<Rightarrow> string \<Rightarrow> plugin_sandbox_config" where
  "resolve_sandbox plugin_id plugin_capabilities plugin_dir =
     (if list_ex (\<lambda>c. c = NetworkEgress) plugin_capabilities
      then \<lparr>psc_seccomp = seccomp_model_runtime,
            psc_apparmor = apparmor_model_runtime plugin_dir (''/var/log/llmos/'' @ plugin_id),
            psc_namespaces = namespace_network_only, psc_capabilities = capability_model_runtime\<rparr>
      else \<lparr>psc_seccomp = seccomp_mcp_plugin, psc_apparmor = apparmor_mcp_plugin plugin_dir,
            psc_namespaces = namespace_full, psc_capabilities = capability_minimal\<rparr>)"

section \<open>What the profiles mean\<close>

text \<open>The action of a profile on a system call: the first rule that names it, or the default.\<close>

definition seccomp_decide :: "seccomp_profile \<Rightarrow> string \<Rightarrow> seccomp_action" where
  "seccomp_decide p name = (case find (\<lambda>r. name \<in> set (sr_names r)) (sp_rules p) of
     None \<Rightarrow> sp_default_action p | Some r \<Rightarrow> sr_action r)"

lemma seccomp_model_runtime_decide:
  "seccomp_decide seccomp_model_runtime name =
    (if name \<in> set network_syscalls then SeccompAllow else seccomp_decide seccomp_mcp_plugin name)"
  by (simp add: seccomp_decide_def seccomp_model_runtime_def seccomp_mcp_plugin_def)

text \<open>
  A plugin's sandbox depends on one capability only, \<open>network:egress\<close>: exactly the plugins that
  declare it may use the twelve network system calls, AppArmor networking and a write path, and keep
  the host's process, mount, IPC and user namespaces; the base system calls and the denial of
  system administration, tracing, module loading and device nodes are common to all plugins, and
  declaring \<open>fs:write\<close> or \<open>fs:read\<close> changes nothing.
\<close>

theorem sandbox_follows_network_capability:
  "let c = resolve_sandbox plugin_id caps dir; net = NetworkEgress \<in> set caps in
    (\<forall>name. seccomp_decide (psc_seccomp c) name =
        (if net \<and> name \<in> set network_syscalls then SeccompAllow else seccomp_decide seccomp_mcp_plugin name))
    \<and> (\<forall>name\<in>set network_syscalls. seccomp_decide seccomp_mcp_plugin name = SeccompErrno)
    \<and> aa_network_access (psc_apparmor c) = net
    \<and> aa_write_paths (psc_apparmor c) = (if net then [''/var/log/llmos/'' @ plugin_id @ ''/**''] else [])
    \<and> psc_namespaces c = (if net then namespace_network_only else namespace_full)
    \<and> {''CAP_SYS_ADMIN'', ''CAP_SYS_PTRACE'', ''CAP_SYS_MODULE'', ''CAP_MKNOD''} \<subseteq> set (cs_denied (psc_capabilities c))
    \<and> set (cs_allowed (psc_capabilities c)) \<inter> set (cs_denied (psc_capabilities c)) = {}
    \<and> resolve_sandbox plugin_id (FsWrite # FsRead # caps) dir = c"
proof -
  have "\<forall>name\<in>set network_syscalls. seccomp_decide seccomp_mcp_plugin name = SeccompErrno"
    by (simp add: network_syscalls_def seccomp_decide_def seccomp_mcp_plugin_def)
  moreover have "list_ex (\<lambda>c. c = NetworkEgress) caps \<longleftrightarrow> NetworkEgress \<in> set caps"
    by (auto simp: list_ex_iff)
  ultimately show ?thesis
    by (simp add: Let_def resolve_sandbox_def seccomp_model_runtime_decide apparmor_model_runtime_def
        apparmor_mcp_plugin_def capability_minimal_def capability_model_runtime_def)
qed

theorem sandbox_follows_network_capability_witness:
  "seccomp_decide (psc_seccomp (resolve_sandbox ''p'' [McpSpawn, NetworkEgress] ''/d'')) ''connect'' = SeccompAllow
   \<and> seccomp_decide (psc_seccomp (resolve_sandbox ''p'' [McpSpawn] ''/d'')) ''connect'' \<noteq> SeccompAllow"
  using sandbox_follows_network_capability [of "''p''" "[McpSpawn, NetworkEgress]" "''/d''"]
    sandbox_follows_network_capability [of "''p''" "[McpSpawn]" "''/d''"]
  by (simp add: Let_def network_syscalls_def)

end
