(* ===== verification/Mcp_Runtime.thy ===== *)
theory Mcp_Runtime
  imports Sandbox "HOL-Library.AList" "HOL-Library.Multiset"
begin

text \<open>
  \<^verbatim>\<open>services/mcp-runtime/src\<close>: plugin manifests and their validation, the \<open>RuntimeManager\<close> that starts
  and stops plugin processes (\<^verbatim>\<open>lib.rs\<close>), and the admin loop (\<^verbatim>\<open>main.rs\<close>). Processes are those of
  tokio: spawning, probing, killing and waiting are oracles of the world, indexed by the number of
  operations done before. A \<open>HashMap\<close> is an association list in the order of its iteration.
\<close>

section \<open>Manifests\<close>

record plugin_manifest =
  pm_id :: string
  pm_version :: string
  pm_entrypoint :: string
  pm_description :: "string option"
  pm_capabilities :: "plugin_capability list"

definition plugin_id_char :: "char \<Rightarrow> bool" where
  "plugin_id_char ch \<longleftrightarrow> is_ascii_lowercase ch \<or> is_ascii_digit ch \<or> ch = CHR ''.'' \<or> ch = CHR ''_'' \<or> ch = CHR ''-''"

definition validate_plugin_id :: "string \<Rightarrow> string + unit" where
  "validate_plugin_id i =
     (if i = [] then Inl ''plugin id cannot be empty''
      else if list_all plugin_id_char i then Inr ()
      else Inl ''plugin id must match ^[a-z0-9._-]+$'')"

definition quoted :: "string \<Rightarrow> string" where
  "quoted s = [CHR 0x27] @ s @ [CHR 0x27]"

text \<open>The loop with the set of the capabilities seen so far.\<close>

fun has_duplicate :: "plugin_capability list \<Rightarrow> plugin_capability list \<Rightarrow> bool" where
  "has_duplicate [] seen = False"
| "has_duplicate (c # cs) seen = (if c \<in> set seen then True else has_duplicate cs (c # seen))"

definition parse_manifest_json ::
  "(string \<Rightarrow> string + plugin_manifest) \<Rightarrow> string \<Rightarrow> string \<Rightarrow> string + plugin_manifest" where
  "parse_manifest_json from_json raw source =
     and_then (map_err (\<lambda>_. ''failed to parse JSON manifest at '' @ source) (from_json raw)) (\<lambda>manifest.
     and_then (map_err (\<lambda>_. ''manifest '' @ source @ '' has invalid plugin id '' @ quoted (pm_id manifest)) (validate_plugin_id (pm_id manifest))) (\<lambda>_.
       if pm_capabilities manifest = []
       then Inl (''manifest '' @ source @ '' has empty capabilities; at least one capability is required'')
       else if trim (pm_entrypoint manifest) = []
       then Inl (''manifest '' @ source @ '' has an empty entrypoint; a command is required'')
       else if has_duplicate (pm_capabilities manifest) []
       then Inl (''manifest '' @ source @ '' contains duplicate capability entries'')
       else Inr manifest))"

text \<open>A directory listing: for each entry an error, or its path, whether it is a file, its extension and content.\<close>

record dir_entry =
  de_path :: string
  de_is_file :: bool
  de_extension :: "string option"
  de_content :: "string option"

datatype directory = Absent | Unreadable | Listing "(string + dir_entry) list"

definition load_manifest_file :: "(string \<Rightarrow> string + plugin_manifest) \<Rightarrow> dir_entry \<Rightarrow> string + plugin_manifest" where
  "load_manifest_file from_json entry =
     and_then (ok_or (''failed to read manifest file '' @ de_path entry) (de_content entry))
       (\<lambda>raw. parse_manifest_json from_json raw (de_path entry))"

type_synonym manifests = "(string \<times> plugin_manifest) list"

fun load_entries ::
  "(string \<Rightarrow> string + plugin_manifest) \<Rightarrow> (string + dir_entry) list \<Rightarrow> manifests \<Rightarrow> string + manifests" where
  "load_entries from_json [] ms = Inr ms"
| "load_entries from_json (Inl err # es) ms = Inl err"
| "load_entries from_json (Inr entry # es) ms =
     (if \<not> de_is_file entry then load_entries from_json es ms
      else if de_extension entry \<noteq> Some ''json'' then load_entries from_json es ms
      else case load_manifest_file from_json entry of
        Inl err \<Rightarrow> Inl err
      | Inr manifest \<Rightarrow>
          if map_of ms (pm_id manifest) \<noteq> None
          then Inl (''duplicate plugin id in manifests directory: '' @ de_path entry)
          else load_entries from_json es (AList.update (pm_id manifest) manifest ms))"

definition load_manifests :: "(string \<Rightarrow> string + plugin_manifest) \<Rightarrow> string \<Rightarrow> directory \<Rightarrow> string + manifests" where
  "load_manifests from_json dir d =
     (case d of
        Absent \<Rightarrow> Inr []
      | Unreadable \<Rightarrow> Inl (''failed to read '' @ dir)
      | Listing entries \<Rightarrow> load_entries from_json entries [])"

definition default_manifest_dir :: "(string \<Rightarrow> string option) \<Rightarrow> string" where
  "default_manifest_dir env = (case env ''LLMOS_MCP_MANIFEST_DIR'' of None \<Rightarrow> ''sdk/plugin-api/manifests'' | Some d \<Rightarrow> d)"

section \<open>Processes\<close>

datatype wait_end = WaitExited string | WaitFailed | WaitTimedOut

record process_io =
  pio_windows :: bool
  pio_spawn :: "nat \<Rightarrow> string list \<Rightarrow> nat option"
  pio_try_wait :: "nat \<Rightarrow> nat \<Rightarrow> string + string option"
  pio_start_kill :: "nat \<Rightarrow> nat \<Rightarrow> bool"
  pio_wait :: "nat \<Rightarrow> nat \<Rightarrow> wait_end"

text \<open>
  \<open>pw_spawned\<close> and \<open>pw_reaped\<close> are ghosts: the processes started so far, with the plugin they run, and
  those whose exit has been seen.
\<close>

record process_world =
  pw_ops :: nat
  pw_spawned :: "(string \<times> nat) list"
  pw_reaped :: "nat list"

record runtime_manager =
  rm_manifests :: manifests
  rm_running :: "(string \<times> nat) list"
  rm_sandbox_configs :: "(string \<times> plugin_sandbox_config) list"
  rm_world :: process_world

record plugin_runtime_status =
  prs_id :: string
  prs_version :: string
  prs_entrypoint :: string
  prs_running :: bool
  prs_pid :: "nat option"

definition runtime_manager_new :: "manifests \<Rightarrow> process_world \<Rightarrow> runtime_manager" where
  "runtime_manager_new ms w = \<lparr>rm_manifests = ms, rm_running = [], rm_sandbox_configs = [], rm_world = w\<rparr>"

definition manifests_len :: "runtime_manager \<Rightarrow> nat" where
  "manifests_len m = length (rm_manifests m)"

definition tick :: "process_world \<Rightarrow> process_world" where
  "tick w = w\<lparr>pw_ops := pw_ops w + 1\<rparr>"

definition shell_command :: "bool \<Rightarrow> string \<Rightarrow> string list" where
  "shell_command windows command =
     (if windows then [''cmd'', ''/C'', command] else [''sh'', ''-c'', command])"

definition spawn_process ::
  "process_io \<Rightarrow> plugin_manifest \<Rightarrow> process_world \<Rightarrow> (string + nat) \<times> process_world" where
  "spawn_process io manifest w =
     (case pio_spawn io (pw_ops w) (shell_command (pio_windows io) (pm_entrypoint manifest)) of
        None \<Rightarrow> (Inl (''failed to spawn plugin '' @ quoted (pm_id manifest) @ '' with entrypoint ''
                  @ quoted (pm_entrypoint manifest)), tick w)
      | Some pid \<Rightarrow> (Inr pid, (tick w)\<lparr>pw_spawned := pw_spawned w @ [(pm_id manifest, pid)]\<rparr>))"

definition stop_process :: "process_io \<Rightarrow> nat \<Rightarrow> process_world \<Rightarrow> (string + unit) \<times> process_world" where
  "stop_process io pid w =
     (if \<not> pio_start_kill io (pw_ops w) pid then (Inl ''failed to signal plugin process'', tick w)
      else case pio_wait io (pw_ops (tick w)) pid of
        WaitExited status \<Rightarrow> (Inr (), (tick (tick w))\<lparr>pw_reaped := pw_reaped w @ [pid]\<rparr>)
      | WaitFailed \<Rightarrow> (Inl ''failed while waiting for process to exit'', tick (tick w))
      | WaitTimedOut \<Rightarrow> (Inl ''timed out waiting for plugin process to exit'', tick (tick w)))"

section \<open>The manager\<close>

text \<open>The probing loop of \<open>reconcile_exited\<close>: the plugins whose process has exited.\<close>

fun probe_running ::
  "process_io \<Rightarrow> (string \<times> nat) list \<Rightarrow> process_world \<Rightarrow> string list \<times> process_world" where
  "probe_running io [] w = ([], w)"
| "probe_running io ((i, pid) # ps) w =
     (case pio_try_wait io (pw_ops w) pid of
        Inr (Some status) \<Rightarrow>
          (case probe_running io ps ((tick w)\<lparr>pw_reaped := pw_reaped w @ [pid]\<rparr>) of
             (exited, w') \<Rightarrow> (i # exited, w'))
      | Inr None \<Rightarrow> probe_running io ps (tick w)
      | Inl err \<Rightarrow> probe_running io ps (tick w))"

definition reconcile_exited :: "process_io \<Rightarrow> runtime_manager \<Rightarrow> runtime_manager" where
  "reconcile_exited io m =
     (case probe_running io (rm_running m) (rm_world m) of
        (exited, w) \<Rightarrow> m\<lparr>rm_running := foldl (\<lambda>r i. AList.delete i r) (rm_running m) exited, rm_world := w\<rparr>)"

definition manager_start :: "process_io \<Rightarrow> string \<Rightarrow> runtime_manager \<Rightarrow> (string + unit) \<times> runtime_manager" where
  "manager_start io i m0 =
     (let m = reconcile_exited io m0 in
      if map_of (rm_running m) i \<noteq> None then (Inr (), m)
      else case map_of (rm_manifests m) i of
        None \<Rightarrow> (Inl (''plugin '' @ quoted i @ '' was not found in loaded manifests''), m)
      | Some manifest \<Rightarrow>
          let sandbox = resolve_sandbox (pm_id manifest) (pm_capabilities manifest) ''/opt/llmos/plugins'';
              m1 = m\<lparr>rm_sandbox_configs := AList.update i sandbox (rm_sandbox_configs m)\<rparr>
          in (case spawn_process io manifest (rm_world m1) of
                (Inl err, w) \<Rightarrow> (Inl err, m1\<lparr>rm_world := w\<rparr>)
              | (Inr pid, w) \<Rightarrow>
                  (Inr (), m1\<lparr>rm_running := AList.update i pid (rm_running m1), rm_world := w\<rparr>)))"

definition manager_stop :: "process_io \<Rightarrow> string \<Rightarrow> runtime_manager \<Rightarrow> (string + unit) \<times> runtime_manager" where
  "manager_stop io i m0 =
     (let m = reconcile_exited io m0 in
      case map_of (rm_running m) i of
        None \<Rightarrow> (Inr (), m)
      | Some pid \<Rightarrow>
          let m1 = m\<lparr>rm_running := AList.delete i (rm_running m)\<rparr> in
          (case stop_process io pid (rm_world m1) of
             (Inl err, w) \<Rightarrow> (Inl err, m1\<lparr>rm_world := w\<rparr>)
           | (Inr _, w) \<Rightarrow>
               (Inr (), m1\<lparr>rm_sandbox_configs := AList.delete i (rm_sandbox_configs m1), rm_world := w\<rparr>)))"

text \<open>\<open>?\<close> after an operation of the manager.\<close>

definition and_step ::
  "(string + unit) \<times> 'm \<Rightarrow> ('m \<Rightarrow> (string + unit) \<times> 'm) \<Rightarrow> (string + unit) \<times> 'm" where
  "and_step r f = (case r of (Inl err, m) \<Rightarrow> (Inl err, m) | (Inr _, m) \<Rightarrow> f m)"

definition manager_restart :: "process_io \<Rightarrow> string \<Rightarrow> runtime_manager \<Rightarrow> (string + unit) \<times> runtime_manager" where
  "manager_restart io i m = and_step (manager_stop io i m) (manager_start io i)"

fun for_each ::
  "(string \<Rightarrow> 'm \<Rightarrow> (string + unit) \<times> 'm) \<Rightarrow> string list \<Rightarrow> 'm \<Rightarrow> (string + unit) \<times> 'm" where
  "for_each f [] m = (Inr (), m)"
| "for_each f (i # is) m = and_step (f i m) (for_each f is)"

definition manager_start_all :: "process_io \<Rightarrow> runtime_manager \<Rightarrow> (string + unit) \<times> runtime_manager" where
  "manager_start_all io m = for_each (manager_start io) (sort (map fst (rm_manifests m))) m"

definition manager_stop_all :: "process_io \<Rightarrow> runtime_manager \<Rightarrow> (string + unit) \<times> runtime_manager" where
  "manager_stop_all io m = for_each (manager_stop io) (sort (map fst (rm_running m))) m"

definition manager_list :: "process_io \<Rightarrow> runtime_manager \<Rightarrow> plugin_runtime_status list \<times> runtime_manager" where
  "manager_list io m0 =
     (let m = reconcile_exited io m0 in
      (List.map_filter (\<lambda>i. map_option (\<lambda>manifest.
           let pid = map_of (rm_running m) i in
           \<lparr>prs_id = i, prs_version = pm_version manifest, prs_entrypoint = pm_entrypoint manifest,
            prs_running = (pid \<noteq> None), prs_pid = pid\<rparr>) (map_of (rm_manifests m) i))
         (sort (map fst (rm_manifests m))), m))"

definition manager_sandbox_config :: "runtime_manager \<Rightarrow> string \<Rightarrow> plugin_sandbox_config option" where
  "manager_sandbox_config m i = map_of (rm_sandbox_configs m) i"

section \<open>The admin loop\<close>

datatype admin_command = AdminStart string | AdminStop string | AdminRestart string | AdminList | AdminHelp | AdminQuit

definition parse_admin_command :: "string \<Rightarrow> string + admin_command" where
  "parse_admin_command raw =
     (case split_whitespace raw of
        [] \<Rightarrow> Inl ''command cannot be empty''
      | word # args \<Rightarrow>
          let command = to_ascii_lowercase word;
              arg = (case args of [] \<Rightarrow> None | a # _ \<Rightarrow> Some a)
          in if command = ''start'' then ok_or ''start requires a plugin id'' (map_option AdminStart arg)
             else if command = ''stop'' then ok_or ''stop requires a plugin id'' (map_option AdminStop arg)
             else if command = ''restart'' then ok_or ''restart requires a plugin id'' (map_option AdminRestart arg)
             else if command = ''list'' then Inr AdminList
             else if command = ''help'' then Inr AdminHelp
             else if command = ''quit'' \<or> command = ''exit'' then Inr AdminQuit
             else Inl (''unknown command '' @ quoted command))"

text \<open>What the loop receives: an interrupt, a line of standard input, or its end (the list runs out).\<close>

datatype admin_event = CtrlC | AdminLine string

text \<open>The task that reads standard input trims lines and drops empty ones.\<close>

definition admin_lines :: "string list \<Rightarrow> string list" where
  "admin_lines input = filter (\<lambda>line. line \<noteq> []) (map trim input)"

fun admin_loop :: "process_io \<Rightarrow> admin_event list \<Rightarrow> runtime_manager \<Rightarrow> (string + unit) \<times> runtime_manager" where
  "admin_loop io [] m = manager_stop_all io m"
| "admin_loop io (CtrlC # es) m = manager_stop_all io m"
| "admin_loop io (AdminLine line # es) m =
     (case parse_admin_command line of
        Inl err \<Rightarrow> admin_loop io es m
      | Inr (AdminStart i) \<Rightarrow> and_step (manager_start io i m) (admin_loop io es)
      | Inr (AdminStop i) \<Rightarrow> and_step (manager_stop io i m) (admin_loop io es)
      | Inr (AdminRestart i) \<Rightarrow> and_step (manager_restart io i m) (admin_loop io es)
      | Inr AdminList \<Rightarrow> admin_loop io es (snd (manager_list io m))
      | Inr AdminHelp \<Rightarrow> admin_loop io es m
      | Inr AdminQuit \<Rightarrow> manager_stop_all io m)"

definition run_runtime ::
  "process_io \<Rightarrow> bool \<Rightarrow> admin_event list \<Rightarrow> manifests \<Rightarrow> process_world \<Rightarrow> (string + unit) \<times> runtime_manager" where
  "run_runtime io autostart events ms w =
     (let m = runtime_manager_new ms w in
      and_step (if autostart then manager_start_all io m else (Inr (), m)) (admin_loop io events))"

section \<open>The subcommands\<close>

definition resolve_manifest_dir :: "(string \<Rightarrow> string option) \<Rightarrow> string option \<Rightarrow> string" where
  "resolve_manifest_dir env path = (case path of None \<Rightarrow> default_manifest_dir env | Some d \<Rightarrow> d)"

text \<open>The lines \<open>validate\<close> prints; \<open>read_dir\<close> is what the file system holds at a path.\<close>

definition validate_manifests ::
  "(string \<Rightarrow> string + plugin_manifest) \<Rightarrow> (string \<Rightarrow> directory) \<Rightarrow> (string \<Rightarrow> string option) \<Rightarrow> string option
     \<Rightarrow> string + string list" where
  "validate_manifests from_json read_dir env path =
     (let dir = resolve_manifest_dir env path in
      case load_manifests from_json dir (read_dir dir) of
        Inl err \<Rightarrow> Inl err
      | Inr ms \<Rightarrow> Inr [''manifest_dir: '' @ dir, ''manifest_count: '' @ show_nat (length ms), ''validation: ok''])"

definition status_line :: "plugin_runtime_status \<Rightarrow> string" where
  "status_line s = prs_id s @ ''@'' @ prs_version s @ '' running='' @ (if prs_running s then ''true'' else ''false'')
     @ '' pid='' @ (case prs_pid s of None \<Rightarrow> ''-'' | Some pid \<Rightarrow> show_nat pid)"

definition list_manifests ::
  "process_io \<Rightarrow> (string \<Rightarrow> string + plugin_manifest) \<Rightarrow> (string \<Rightarrow> directory) \<Rightarrow> (string \<Rightarrow> string option)
     \<Rightarrow> string option \<Rightarrow> process_world \<Rightarrow> string + string list" where
  "list_manifests io from_json read_dir env path w =
     (let dir = resolve_manifest_dir env path in
      case load_manifests from_json dir (read_dir dir) of
        Inl err \<Rightarrow> Inl err
      | Inr ms \<Rightarrow> Inr (map (\<lambda>s. status_line s @ '' entrypoint='' @ prs_entrypoint s)
                     (fst (manager_list io (runtime_manager_new ms w)))))"

text \<open>\<open>run\<close>: the runtime over the manifests of the directory, fed by the admin lines.\<close>

definition run_subcommand ::
  "process_io \<Rightarrow> (string \<Rightarrow> string + plugin_manifest) \<Rightarrow> (string \<Rightarrow> directory) \<Rightarrow> (string \<Rightarrow> string option)
     \<Rightarrow> string option \<Rightarrow> bool \<Rightarrow> admin_event list \<Rightarrow> process_world \<Rightarrow> (string + unit) \<times> process_world" where
  "run_subcommand io from_json read_dir env path autostart events w =
     (let dir = resolve_manifest_dir env path in
      case load_manifests from_json dir (read_dir dir) of
        Inl err \<Rightarrow> (Inl err, w)
      | Inr ms \<Rightarrow> (case run_runtime io autostart events ms w of (r, m) \<Rightarrow> (r, rm_world m)))"

datatype mcp_command = McpValidate "string option" | McpList "string option" | McpRun "string option" bool

text \<open>A run returns the lines printed by \<open>validate\<close> and \<open>list\<close>; \<open>run\<close> prints none of its own.\<close>

fun mcp_main ::
  "process_io \<Rightarrow> (string \<Rightarrow> string + plugin_manifest) \<Rightarrow> (string \<Rightarrow> directory) \<Rightarrow> (string \<Rightarrow> string option)
     \<Rightarrow> admin_event list \<Rightarrow> mcp_command \<Rightarrow> process_world \<Rightarrow> (string + string list) \<times> process_world" where
  "mcp_main io from_json read_dir env events (McpValidate path) w = (validate_manifests from_json read_dir env path, w)"
| "mcp_main io from_json read_dir env events (McpList path) w = (list_manifests io from_json read_dir env path w, w)"
| "mcp_main io from_json read_dir env events (McpRun path autostart) w =
     (case run_subcommand io from_json read_dir env path autostart events w of
        (r, w') \<Rightarrow> (and_then r (\<lambda>_. Inr []), w'))"

section \<open>Manifests: what loading promises\<close>

definition manifest_wf :: "plugin_manifest \<Rightarrow> bool" where
  "manifest_wf m \<longleftrightarrow> pm_id m \<noteq> [] \<and> list_all plugin_id_char (pm_id m) \<and> pm_capabilities m \<noteq> []
     \<and> distinct (pm_capabilities m) \<and> trim (pm_entrypoint m) \<noteq> []"

lemma has_duplicate_iff: "has_duplicate cs seen \<longleftrightarrow> \<not> distinct cs \<or> set cs \<inter> set seen \<noteq> {}"
  by (induction cs seen rule: has_duplicate.induct) auto

lemma parse_manifest_json_Inr_iff:
  "parse_manifest_json from_json raw source = Inr m \<longleftrightarrow> from_json raw = Inr m \<and> manifest_wf m"
  by (auto simp: parse_manifest_json_def result_simps validate_plugin_id_def manifest_wf_def has_duplicate_iff
      split: if_splits)

definition manifests_ok :: "manifests \<Rightarrow> bool" where
  "manifests_ok ms \<longleftrightarrow> (\<forall>i m. map_of ms i = Some m \<longrightarrow> pm_id m = i \<and> manifest_wf m) \<and> distinct (map fst ms)"

lemma load_entries_ok:
  "load_entries from_json es ms = Inr ms' \<Longrightarrow> manifests_ok ms \<Longrightarrow> manifests_ok ms'"
proof (induction from_json es ms rule: load_entries.induct)
  case (3 from_json entry es ms)
  show ?case
  proof (cases "de_is_file entry \<and> de_extension entry = Some ''json''")
    case False
    with "3.prems"(1) have "load_entries from_json es ms = Inr ms'"
      by (auto split: if_splits)
    with "3.IH"(1,2) "3.prems"(2) False show ?thesis
      by (cases "de_is_file entry") auto
  next
    case True
    with "3.prems"(1) obtain m where m: "load_manifest_file from_json entry = Inr m"
      "map_of ms (pm_id m) = None"
      and rest: "load_entries from_json es (AList.update (pm_id m) m ms) = Inr ms'"
      by (auto split: sum.splits if_splits)
    have "manifest_wf m"
      using m(1) by (auto simp: load_manifest_file_def result_simps parse_manifest_json_Inr_iff)
    then have "manifests_ok (AList.update (pm_id m) m ms)"
      using "3.prems"(2) by (auto simp: manifests_ok_def update_conv' distinct_update)
    with "3.IH"(3) True m rest show ?thesis by auto
  qed
qed simp_all

lemma load_manifests_ok: "load_manifests from_json dir d = Inr ms \<Longrightarrow> manifests_ok ms"
  using load_entries_ok [of from_json _ "[]" ms]
  by (auto simp: load_manifests_def manifests_ok_def split: directory.splits)


definition sample_manifest :: plugin_manifest where
  "sample_manifest = \<lparr>pm_id = ''a.b'', pm_version = ''1'', pm_entrypoint = ''true'', pm_description = None,
     pm_capabilities = [McpSpawn]\<rparr>"

lemma sample_manifest_wf: "manifest_wf sample_manifest"
  by code_simp

lemma sample_load:
  "load_manifests (\<lambda>_. Inr sample_manifest) ''d'' (Listing [Inr \<lparr>de_path = ''x'', de_is_file = True,
     de_extension = Some ''json'', de_content = Some ''{}''\<rparr>]) = Inr [(''a.b'', sample_manifest)]"
proof -
  have "parse_manifest_json (\<lambda>_. Inr sample_manifest) ''{}'' ''x'' = Inr sample_manifest"
    by (simp add: parse_manifest_json_Inr_iff sample_manifest_wf)
  then show ?thesis
    by (simp add: load_manifests_def load_manifest_file_def sample_manifest_def)
qed


text \<open>
  A plugin called \<open>..\<close> passes the validation and is granted write access outside its log directory:
  with network egress its AppArmor write path is \<open>/var/log/llmos/../**\<close>.
\<close>

theorem dotdot_plugin_escapes_log_directory:
  "validate_plugin_id ''..'' = Inr ()
    \<and> aa_write_paths (psc_apparmor (resolve_sandbox ''..'' [NetworkEgress] ''/opt/llmos/plugins''))
      = [''/var/log/llmos/../**'']"
  by (simp add: validate_plugin_id_def plugin_id_char_def resolve_sandbox_def apparmor_model_runtime_def)

section \<open>The manager's invariant\<close>

definition manager_inv :: "runtime_manager \<Rightarrow> bool" where
  "manager_inv m \<longleftrightarrow> manifests_ok (rm_manifests m) \<and> distinct (map fst (rm_running m))
     \<and> (\<forall>i pid. map_of (rm_running m) i = Some pid \<longrightarrow>
          (\<exists>manifest. map_of (rm_manifests m) i = Some manifest
            \<and> map_of (rm_sandbox_configs m) i
                = Some (resolve_sandbox i (pm_capabilities manifest) ''/opt/llmos/plugins'')))"

text \<open>
  The processes started are, counted with multiplicity, those still tracked and those whose exit has been
  seen: a process id that the system hands out twice has to be accounted for twice.
\<close>

definition all_tracked :: "runtime_manager \<Rightarrow> bool" where
  "all_tracked m \<longleftrightarrow>
     mset (map snd (pw_spawned (rm_world m))) = mset (pw_reaped (rm_world m)) + mset (map snd (rm_running m))"

lemma tick_simps [simp]: "pw_spawned (tick w) = pw_spawned w" "pw_reaped (tick w) = pw_reaped w"
  by (simp_all add: tick_def)

lemma foldl_delete: "map_of (foldl (\<lambda>r i. AList.delete i r) r is) i = (if i \<in> set is then None else map_of r i)"
  by (induction "is" arbitrary: r) (auto simp: delete_conv')

lemma distinct_foldl_delete: "distinct (map fst r) \<Longrightarrow> distinct (map fst (foldl (\<lambda>r i. AList.delete i r) r is))"
  by (induction "is" arbitrary: r) (simp_all add: distinct_delete)

lemma foldl_delete_filter: "foldl (\<lambda>r i. AList.delete i r) r is = filter (\<lambda>(i, _). i \<notin> set is) r"
proof (induction "is" arbitrary: r)
  case (Cons a "is")
  have "filter (\<lambda>(i, _). i \<notin> set is) (AList.delete a r) = filter (\<lambda>(i, _). i \<notin> set (a # is)) r"
    by (auto simp: AList.delete_eq intro!: filter_cong)
  with Cons show ?case by simp
qed simp

lemma mset_delete:
  assumes "distinct (map fst r)" "map_of r i = Some pid"
  shows "mset (map snd r) = add_mset pid (mset (map snd (AList.delete i r)))"
  using assms
proof (induction r)
  case (Cons p r)
  obtain k v where p: "p = (k, v)" by (cases p)
  show ?case
  proof (cases "k = i")
    case True
    with Cons.prems p have "v = pid" "i \<notin> dom (map_of r)"
      by (auto simp: dom_map_of_conv_image_fst)
    then show ?thesis
      using True p by (simp add: AList.delete_idem dom_map_of_conv_image_fst)
  next
    case False
    with Cons p show ?thesis by simp
  qed
qed simp

lemma probe_running_spec:
  "probe_running io ps w = (exited, w') \<Longrightarrow> pw_spawned w' = pw_spawned w \<and> set exited \<subseteq> fst ` set ps"
proof (induction io ps w arbitrary: exited rule: probe_running.induct)
  case (2 io i pid ps w)
  then show ?case
    by (fastforce split: sum.splits option.splits prod.splits)
qed simp

lemma probe_running_mset:
  "probe_running io ps w = (exited, w') \<Longrightarrow> distinct (map fst ps) \<Longrightarrow>
    mset (pw_reaped w') + mset (map snd (filter (\<lambda>(i, _). i \<notin> set exited) ps)) = mset (pw_reaped w) + mset (map snd ps)"
proof (induction io ps w arbitrary: exited rule: probe_running.induct)
  case (2 io i pid ps w)
  show ?case
  proof (cases "\<exists>status. pio_try_wait io (pw_ops w) pid = Inr (Some status)")
    case True
    then obtain status where st: "pio_try_wait io (pw_ops w) pid = Inr (Some status)" by blast
    let ?w = "(tick w)\<lparr>pw_reaped := pw_reaped w @ [pid]\<rparr>"
    from 2(4) st obtain ex where ex: "probe_running io ps ?w = (ex, w')" "exited = i # ex"
      by (auto split: prod.splits)
    have "filter (\<lambda>(j, _). j \<notin> set exited) ps = filter (\<lambda>(j, _). j \<notin> set ex) ps"
      using 2(5) ex(2) by (intro filter_cong) (auto simp: image_iff)
    with 2(3) [OF st refl ex(1)] 2(5) ex(2) show ?thesis by simp
  next
    case False
    with 2(4) have r: "probe_running io ps (tick w) = (exited, w')"
      by (auto split: sum.splits option.splits)
    then have "i \<notin> set exited"
      using probe_running_spec [OF r] 2(5) by auto
    moreover have "mset (pw_reaped w') + mset (map snd (filter (\<lambda>(i, _). i \<notin> set exited) ps))
        = mset (pw_reaped (tick w)) + mset (map snd ps)"
      using False r 2(1,2,5) by (cases "pio_try_wait io (pw_ops w) pid") (auto split: option.splits)
    ultimately show ?thesis by (simp add: tick_def)
  qed
qed simp

lemma reconcile_fields [simp]:
  "rm_manifests (reconcile_exited io m) = rm_manifests m"
  "rm_sandbox_configs (reconcile_exited io m) = rm_sandbox_configs m"
  "pw_spawned (rm_world (reconcile_exited io m)) = pw_spawned (rm_world m)"
  using probe_running_spec [of io "rm_running m" "rm_world m"]
  by (auto simp: reconcile_exited_def split: prod.splits)

lemma reconcile_running:
  "map_of (rm_running (reconcile_exited io m)) i = Some pid \<Longrightarrow> map_of (rm_running m) i = Some pid"
  by (auto simp: reconcile_exited_def foldl_delete split: prod.splits if_splits)

lemma reconcile_inv: "manager_inv m \<Longrightarrow> manager_inv (reconcile_exited io m)"
  unfolding manager_inv_def
  by (auto dest: reconcile_running simp: distinct_foldl_delete)
    (simp add: reconcile_exited_def distinct_foldl_delete split: prod.splits)

lemma reconcile_tracked:
  assumes "manager_inv m" "all_tracked m"
  shows "all_tracked (reconcile_exited io m)"
proof -
  obtain exited w where p: "probe_running io (rm_running m) (rm_world m) = (exited, w)"
    by (meson surj_pair)
  have "distinct (map fst (rm_running m))"
    using assms(1) by (simp add: manager_inv_def)
  from probe_running_mset [OF p this] probe_running_spec [OF p] assms(2) show ?thesis
    by (simp add: all_tracked_def reconcile_exited_def p foldl_delete_filter)
qed

lemma update_new: "map_of r i = None \<Longrightarrow> AList.update i p r = r @ [(i, p)]"
  by (induction r) (auto split: if_splits)

text \<open>What every operation keeps: the invariant always, the tracking when it succeeds.\<close>

definition keeps :: "(runtime_manager \<Rightarrow> (string + unit) \<times> runtime_manager) \<Rightarrow> bool" where
  "keeps f \<longleftrightarrow> (\<forall>m. manager_inv m \<longrightarrow> manager_inv (snd (f m))
     \<and> (all_tracked m \<longrightarrow> fst (f m) = Inr () \<longrightarrow> all_tracked (snd (f m))))"

lemma keeps_and_step:
  assumes "keeps f" "keeps g"
  shows "keeps (\<lambda>m. and_step (f m) g)"
proof -
  have "manager_inv (snd (and_step (f m) g))
      \<and> (all_tracked m \<longrightarrow> fst (and_step (f m) g) = Inr () \<longrightarrow> all_tracked (snd (and_step (f m) g)))"
    if inv: "manager_inv m" for m
  proof -
    obtain r m' where p: "f m = (r, m')"
      by (meson surj_pair)
    have f: "manager_inv m'" "all_tracked m \<Longrightarrow> r = Inr () \<Longrightarrow> all_tracked m'"
      using assms(1) inv p unfolding keeps_def by (metis fst_conv snd_conv)+
    have g: "manager_inv (snd (g m'))" "all_tracked m' \<Longrightarrow> fst (g m') = Inr () \<Longrightarrow> all_tracked (snd (g m'))"
      using assms(2) f(1) unfolding keeps_def by blast+
    from p f g show ?thesis
      by (cases r) (simp_all add: and_step_def)
  qed
  then show ?thesis by (simp add: keeps_def)
qed

lemma keeps_skip: "keeps (\<lambda>m. (r, m))"
  by (simp add: keeps_def)

lemma keeps_for_each: "(\<And>i. keeps (f i)) \<Longrightarrow> keeps (for_each f is)"
proof (induction "is")
  case Nil
  then show ?case by (simp add: keeps_def)
next
  case (Cons i "is")
  have "keeps (\<lambda>m. and_step (f i m) (for_each f is))"
    using Cons by (intro keeps_and_step) auto
  then show ?case by (simp add: keeps_def)
qed

lemma keeps_start: "keeps (manager_start io i)"
  unfolding keeps_def
proof (intro allI impI)
  fix m0 assume inv0: "manager_inv m0"
  define m where "m = reconcile_exited io m0"
  have inv: "manager_inv m"
    unfolding m_def by (rule reconcile_inv [OF inv0])
  have tr: "all_tracked m" if "all_tracked m0"
    unfolding m_def by (rule reconcile_tracked [OF inv0 that])
  note st = manager_start_def Let_def m_def [symmetric]
  show "manager_inv (snd (manager_start io i m0))
      \<and> (all_tracked m0 \<longrightarrow> fst (manager_start io i m0) = Inr () \<longrightarrow> all_tracked (snd (manager_start io i m0)))"
  proof (cases "map_of (rm_running m) i")
    case (Some pid)
    with inv tr show ?thesis by (simp add: st)
  next
    case None
    show ?thesis
    proof (cases "map_of (rm_manifests m) i")
      case None2: None
      with None inv tr show ?thesis by (simp add: st)
    next
      case (Some manifest)
      have pid: "pm_id manifest = i"
        using inv Some by (simp add: manager_inv_def manifests_ok_def)
      let ?sb = "AList.update i (resolve_sandbox i (pm_capabilities manifest) ''/opt/llmos/plugins'') (rm_sandbox_configs m)"
      have sb: "map_of ?sb j = (if j = i then Some (resolve_sandbox i (pm_capabilities manifest) ''/opt/llmos/plugins'')
          else map_of (rm_sandbox_configs m) j)" for j
        by (simp add: update_conv')
      have inv1: "manager_inv (m\<lparr>rm_sandbox_configs := ?sb, rm_world := w\<rparr>)" for w
        using inv Some by (auto simp: manager_inv_def sb)
      have inv2: "manager_inv (m\<lparr>rm_sandbox_configs := ?sb, rm_running := AList.update i p (rm_running m), rm_world := w\<rparr>)" for p w
        using inv Some by (auto simp: manager_inv_def sb update_conv' distinct_update)
      show ?thesis
      proof (cases "pio_spawn io (pw_ops (rm_world m)) (shell_command (pio_windows io) (pm_entrypoint manifest))")
        case spawn_fails: None
        with None Some pid inv1 show ?thesis
          by (simp add: st spawn_process_def)
      next
        case (Some p)
        let ?m' = "m\<lparr>rm_sandbox_configs := ?sb, rm_running := AList.update i p (rm_running m),
            rm_world := (tick (rm_world m))\<lparr>pw_spawned := pw_spawned (rm_world m) @ [(i, p)]\<rparr>\<rparr>"
        have r: "manager_start io i m0 = (Inr (), ?m')"
          using None Some \<open>map_of (rm_manifests m) i = Some manifest\<close> pid by (simp add: st spawn_process_def)
        have "all_tracked ?m'" if "all_tracked m0"
          using None tr [OF that] by (simp add: all_tracked_def update_new)
        with r inv2 show ?thesis by simp
      qed
    qed
  qed
qed

lemma keeps_stop: "keeps (manager_stop io i)"
  unfolding keeps_def
proof (intro allI impI)
  fix m0 assume inv0: "manager_inv m0"
  define m where "m = reconcile_exited io m0"
  have inv: "manager_inv m"
    unfolding m_def by (rule reconcile_inv [OF inv0])
  have tr: "all_tracked m" if "all_tracked m0"
    unfolding m_def by (rule reconcile_tracked [OF inv0 that])
  note st = manager_stop_def Let_def m_def [symmetric]
  show "manager_inv (snd (manager_stop io i m0))
      \<and> (all_tracked m0 \<longrightarrow> fst (manager_stop io i m0) = Inr () \<longrightarrow> all_tracked (snd (manager_stop io i m0)))"
  proof (cases "map_of (rm_running m) i")
    case None
    with inv tr show ?thesis by (simp add: st)
  next
    case (Some pid)
    have inv1: "manager_inv (m\<lparr>rm_running := AList.delete i (rm_running m), rm_world := w\<rparr>)" for w
      using inv by (auto simp: manager_inv_def delete_conv' distinct_delete)
    have inv2: "manager_inv (m\<lparr>rm_running := AList.delete i (rm_running m),
        rm_sandbox_configs := AList.delete i (rm_sandbox_configs m), rm_world := w\<rparr>)" for w
      using inv by (auto simp: manager_inv_def delete_conv' distinct_delete)
    show ?thesis
    proof (cases "stop_process io pid (rm_world m)")
      case (Pair r w)
      show ?thesis
      proof (cases r)
        case (Inl err)
        with Pair Some inv1 show ?thesis by (simp add: st)
      next
        case (Inr u)
        have w: "pw_spawned w = pw_spawned (rm_world m)" "pw_reaped w = pw_reaped (rm_world m) @ [pid]"
          using Pair Inr by (auto simp: stop_process_def split: if_splits wait_end.splits)
        have "all_tracked (m\<lparr>rm_running := AList.delete i (rm_running m),
            rm_sandbox_configs := AList.delete i (rm_sandbox_configs m), rm_world := w\<rparr>)" if "all_tracked m0"
          using mset_delete [OF _ Some] inv w tr [OF that] by (simp add: all_tracked_def manager_inv_def)
        with Pair Inr Some inv2 show ?thesis by (simp add: st)
      qed
    qed
  qed
qed

lemma keeps_list: "manager_inv m \<Longrightarrow> manager_inv (snd (manager_list io m))
    \<and> (all_tracked m \<longrightarrow> all_tracked (snd (manager_list io m)))"
  by (simp add: manager_list_def reconcile_inv reconcile_tracked Let_def)

lemma keeps_restart: "keeps (manager_restart io i)"
  unfolding manager_restart_def [abs_def] by (intro keeps_and_step keeps_start keeps_stop)

lemma keeps_start_all: "keeps (manager_start_all io)"
proof -
  have "keeps (for_each (manager_start io) is)" for "is"
    by (intro keeps_for_each keeps_start)
  then show ?thesis by (simp add: keeps_def manager_start_all_def)
qed

lemma keeps_stop_all: "keeps (manager_stop_all io)"
proof -
  have "keeps (for_each (manager_stop io) is)" for "is"
    by (intro keeps_for_each keeps_stop)
  then show ?thesis by (simp add: keeps_def manager_stop_all_def)
qed

lemma keeps_admin_loop: "keeps (admin_loop io es)"
proof (induction es)
  case Nil
  then show ?case using keeps_stop_all by (simp add: keeps_def)
next
  case (Cons e es)
  show ?case
  proof (cases e)
    case CtrlC
    then show ?thesis using keeps_stop_all by (simp add: keeps_def)
  next
    case (AdminLine line)
    show ?thesis
    proof (cases "parse_admin_command line")
      case (Inl err)
      with AdminLine Cons show ?thesis by (simp add: keeps_def)
    next
      case (Inr c)
      show ?thesis
      proof (cases c)
        case (AdminStart i)
        have "keeps (\<lambda>m. and_step (manager_start io i m) (admin_loop io es))"
          by (intro keeps_and_step keeps_start Cons)
        with AdminLine Inr AdminStart show ?thesis by (simp add: keeps_def)
      next
        case (AdminStop i)
        have "keeps (\<lambda>m. and_step (manager_stop io i m) (admin_loop io es))"
          by (intro keeps_and_step keeps_stop Cons)
        with AdminLine Inr AdminStop show ?thesis by (simp add: keeps_def)
      next
        case (AdminRestart i)
        have "keeps (\<lambda>m. and_step (manager_restart io i m) (admin_loop io es))"
          by (intro keeps_and_step keeps_restart Cons)
        with AdminLine Inr AdminRestart show ?thesis by (simp add: keeps_def)
      next
        case AdminList
        with AdminLine Inr Cons keeps_list show ?thesis by (simp add: keeps_def)
      next
        case AdminHelp
        with AdminLine Inr Cons show ?thesis by (simp add: keeps_def)
      next
        case AdminQuit
        with AdminLine Inr show ?thesis using keeps_stop_all by (simp add: keeps_def)
      qed
    qed
  qed
qed

section \<open>Shutting down\<close>

lemma stop_running:
  assumes "manager_stop io i m = (Inr (), m')"
  shows "map_of (rm_running m') j = Some pid \<Longrightarrow> j \<noteq> i \<and> map_of (rm_running m) j = Some pid"
  using assms reconcile_running [of io m j pid]
  by (auto simp: manager_stop_def Let_def delete_conv' split: option.splits prod.splits sum.splits if_splits)

lemma stop_all_running:
  assumes "for_each (manager_stop io) is m = (Inr (), m')"
  shows "map_of (rm_running m') j = Some pid \<Longrightarrow> j \<notin> set is \<and> map_of (rm_running m) j = Some pid"
  using assms
proof (induction "is" arbitrary: m)
  case (Cons i "is")
  from Cons.prems(2) obtain m1 where s: "manager_stop io i m = (Inr (), m1)"
    and r: "for_each (manager_stop io) is m1 = (Inr (), m')"
    by (cases "manager_stop io i m") (auto simp: and_step_def split: sum.splits)
  from Cons.IH [OF Cons.prems(1) r] stop_running [OF s] show ?case
    by auto
qed simp

lemma stop_all_empties: "manager_stop_all io m = (Inr (), m') \<Longrightarrow> rm_running m' = []"
proof (rule ccontr)
  assume s: "manager_stop_all io m = (Inr (), m')" and "rm_running m' \<noteq> []"
  then obtain j pid where "map_of (rm_running m') j = Some pid"
    by (cases "rm_running m'") (auto, metis map_of_Cons_code(2) prod.exhaust)
  with stop_all_running [OF s [unfolded manager_stop_all_def]]
  have "j \<notin> set (sort (map fst (rm_running m)))" and "map_of (rm_running m) j = Some pid"
    by blast+
  then show False
    by (auto dest!: map_of_SomeD simp: image_iff)
qed

lemma admin_loop_empties: "admin_loop io es m = (Inr (), m') \<Longrightarrow> rm_running m' = []"
proof (induction io es m rule: admin_loop.induct)
  case (3 io line es m)
  show ?case
  proof (cases "parse_admin_command line")
    case (Inl err)
    with 3 show ?thesis by simp
  next
    case (Inr c)
    show ?thesis
      using 3 Inr stop_all_empties
      by (cases c) (auto simp: and_step_def split: prod.splits sum.splits)
  qed
qed (auto dest: stop_all_empties)

text \<open>
  C15: A clean exit leaves no process behind: for every set of valid manifests, whatever commands come in
  and whatever the operating system answers, when \<open>run_runtime\<close> returns without an error then no plugin
  is running and the processes whose exit has been seen are, with multiplicity, all that were ever started; and in every case the
  running plugins are known ones with the sandbox configuration of their own manifest.
\<close>

theorem clean_exit_leaves_no_process:
  assumes "load_manifests from_json dir d = Inr ms" "pw_spawned w = []" "pw_reaped w = []"
    and "run_runtime io autostart events ms w = (r, m)"
  shows "manager_inv m \<and> (r = Inr () \<longrightarrow> rm_running m = [] \<and>
    mset (map snd (pw_spawned (rm_world m))) = mset (pw_reaped (rm_world m)))"
proof -
  let ?m0 = "runtime_manager_new ms w"
  have "manifests_ok ms"
    by (rule load_manifests_ok [OF assms(1)])
  then have inv0: "manager_inv ?m0" and tr0: "all_tracked ?m0"
    using assms(2,3) by (simp_all add: manager_inv_def all_tracked_def runtime_manager_new_def)
  have "keeps (\<lambda>m. and_step (if autostart then manager_start_all io m else (Inr (), m)) (admin_loop io events))"
    by (cases autostart) (simp_all add: keeps_and_step keeps_start_all keeps_admin_loop keeps_skip)
  then have inv: "manager_inv m" and tr: "r = Inr () \<Longrightarrow> all_tracked m"
    using inv0 tr0 assms(4) unfolding keeps_def run_runtime_def Let_def by (metis fst_conv snd_conv)+
  have empty: "rm_running m = []" if "r = Inr ()"
    using assms(4) that admin_loop_empties [of io events _ m]
    by (auto simp: run_runtime_def and_step_def Let_def split: prod.splits sum.splits if_splits)
  show ?thesis
    using inv tr empty by (auto simp: all_tracked_def)
qed

definition sample_process_io :: process_io where
  "sample_process_io = \<lparr>pio_windows = False, pio_spawn = (\<lambda>n cmd. Some (100 + n)), pio_try_wait = (\<lambda>n pid. Inr None),
     pio_start_kill = (\<lambda>n pid. True), pio_wait = (\<lambda>n pid. WaitExited ''0'')\<rparr>"

definition fresh_processes :: process_world where
  "fresh_processes = \<lparr>pw_ops = 0, pw_spawned = [], pw_reaped = []\<rparr>"

lemmas manager_defs = run_runtime_def runtime_manager_new_def manager_start_all_def manager_stop_all_def
  manager_start_def manager_stop_def reconcile_exited_def spawn_process_def stop_process_def and_step_def tick_def
  Let_def

lemma sample_autostart:
  "run_runtime sample_process_io True [CtrlC] [(''a.b'', sample_manifest)] fresh_processes
    = (Inr (), \<lparr>rm_manifests = [(''a.b'', sample_manifest)], rm_running = [], rm_sandbox_configs = [],
        rm_world = \<lparr>pw_ops = 4, pw_spawned = [(''a.b'', 100)], pw_reaped = [100]\<rparr>\<rparr>)"
  by (simp add: manager_defs sample_process_io_def fresh_processes_def sample_manifest_def)

theorem clean_exit_leaves_no_process_witness:
  "fst (run_runtime sample_process_io True [CtrlC] [(''a.b'', sample_manifest)] fresh_processes) = Inr ()
    \<and> mset (map snd [(''a.b'', 100 :: nat)]) = mset [100 :: nat]"
proof -
  have "pw_spawned fresh_processes = []" "pw_reaped fresh_processes = []"
    by (simp_all add: fresh_processes_def)
  from clean_exit_leaves_no_process [OF sample_load this sample_autostart] sample_autostart show ?thesis
    by simp
qed

lemma start_nope_command: "parse_admin_command ''start nope'' = Inr (AdminStart ''nope'')"
  by code_simp

text \<open>
  A mistyped plugin name takes the whole runtime down without stopping anything: with a plugin
  running, the command \<open>start nope\<close> ends \<open>run_runtime\<close> with an error, the plugin's process is never
  killed and stays alive unobserved.
\<close>

theorem unknown_plugin_aborts_runtime:
  "\<exists>m. run_runtime sample_process_io True [AdminLine ''start nope'']
        [(''a.b'', sample_manifest)] fresh_processes
      = (Inl (''plugin '' @ quoted ''nope'' @ '' was not found in loaded manifests''), m)
    \<and> rm_running m = [(''a.b'', 100)] \<and> pw_spawned (rm_world m) = [(''a.b'', 100)] \<and> pw_reaped (rm_world m) = []"
  using start_nope_command
  by (simp add: manager_defs sample_process_io_def fresh_processes_def sample_manifest_def)

text \<open>
  A stop that times out loses track of a living process: the manager forgets the plugin, so that
  the next start of the same plugin spawns a second process next to the first.
\<close>

theorem failed_stop_loses_process:
  "\<exists>io m1 m2 m3.
     manager_start io ''a.b'' (runtime_manager_new [(''a.b'', sample_manifest)] fresh_processes) = (Inr (), m1)
     \<and> manager_stop io ''a.b'' m1 = (Inl ''timed out waiting for plugin process to exit'', m2)
     \<and> rm_running m2 = [] \<and> manager_start io ''a.b'' m2 = (Inr (), m3)
     \<and> length (pw_spawned (rm_world m3)) = 2 \<and> pw_reaped (rm_world m3) = []"
  by (intro exI [of _ "sample_process_io\<lparr>pio_wait := \<lambda>n pid. WaitTimedOut\<rparr>"])
    (simp add: manager_defs sample_process_io_def fresh_processes_def sample_manifest_def)

text \<open>
  Starting a plugin that runs and is alive changes nothing but the clock: no second process is
  spawned, whatever the operating system answers.
\<close>

theorem start_is_idempotent:
  assumes "map_of (rm_running (reconcile_exited io m)) i = Some pid"
  shows "manager_start io i m = (Inr (), reconcile_exited io m)
    \<and> pw_spawned (rm_world (snd (manager_start io i m))) = pw_spawned (rm_world m)
    \<and> map_of (rm_running m) i = Some pid"
  using assms reconcile_running [OF assms] by (simp add: manager_start_def Let_def)

theorem start_is_idempotent_witness:
  "pw_spawned (rm_world (snd (manager_start sample_process_io ''a.b''
     \<lparr>rm_manifests = [], rm_running = [(''a.b'', 7)], rm_sandbox_configs = [], rm_world = fresh_processes\<rparr>))) = []"
proof -
  have "map_of (rm_running (reconcile_exited sample_process_io \<lparr>rm_manifests = [], rm_running = [(''a.b'', 7)],
      rm_sandbox_configs = [], rm_world = fresh_processes\<rparr>)) ''a.b'' = Some 7"
    by (simp add: reconcile_exited_def sample_process_io_def)
  from start_is_idempotent [OF this] show ?thesis
    by (simp add: fresh_processes_def)
qed

end
