(* ===== verification/Mcp_Refinement.thy ===== *)
theory Mcp_Refinement
  imports Mcp_Runtime
begin

text \<open>
  What \<open>mcp-runtime run\<close> promises its operator, and that the process manager keeps it. The abstract supervisor knows
  only which plugins run and which were started, in order; on a system whose processes start when spawned, live until they
  are killed and end when they are, a run of the code is a run of the supervisor.
\<close>

section \<open>The abstract supervisor\<close>

text \<open>Its state: the running plugins and the log of the plugins started so far. A step also says whether it succeeds.\<close>

type_synonym supervisor = "string set \<times> string list"

definition sup_then :: "bool \<times> supervisor \<Rightarrow> (supervisor \<Rightarrow> bool \<times> supervisor) \<Rightarrow> bool \<times> supervisor" where
  "sup_then r f = (if fst r then f (snd r) else r)"

definition sup_start :: "string set \<Rightarrow> string \<Rightarrow> supervisor \<Rightarrow> bool \<times> supervisor" where
  "sup_start known i s =
     (if i \<in> fst s then (True, s)
      else if i \<in> known then (True, insert i (fst s), snd s @ [i])
      else (False, s))"

definition sup_stop :: "string \<Rightarrow> supervisor \<Rightarrow> bool \<times> supervisor" where
  "sup_stop i s = (True, fst s - {i}, snd s)"

definition sup_restart :: "string set \<Rightarrow> string \<Rightarrow> supervisor \<Rightarrow> bool \<times> supervisor" where
  "sup_restart known i s = sup_then (sup_stop i s) (sup_start known i)"

definition sup_shutdown :: "supervisor \<Rightarrow> bool \<times> supervisor" where
  "sup_shutdown s = (True, {}, snd s)"

fun supervise :: "string set \<Rightarrow> admin_event list \<Rightarrow> supervisor \<Rightarrow> bool \<times> supervisor" where
  "supervise known [] s = sup_shutdown s"
| "supervise known (CtrlC # es) s = sup_shutdown s"
| "supervise known (AdminLine line # es) s =
     (case parse_admin_command line of
        Inr (AdminStart i) \<Rightarrow> sup_then (sup_start known i s) (supervise known es)
      | Inr (AdminStop i) \<Rightarrow> sup_then (sup_stop i s) (supervise known es)
      | Inr (AdminRestart i) \<Rightarrow> sup_then (sup_restart known i s) (supervise known es)
      | Inr AdminQuit \<Rightarrow> sup_shutdown s
      | _ \<Rightarrow> supervise known es s)"

definition supervisor_run :: "string set \<Rightarrow> bool \<Rightarrow> admin_event list \<Rightarrow> bool \<times> supervisor" where
  "supervisor_run known autostart events =
     supervise known events (if autostart then (known, sorted_list_of_set known) else ({}, []))"

section \<open>Abstraction\<close>

definition obedient :: "process_io \<Rightarrow> bool" where
  "obedient io \<longleftrightarrow> (\<forall>n command. pio_spawn io n command \<noteq> None)
     \<and> (\<forall>n pid status. pio_try_wait io n pid \<noteq> Inr (Some status))
     \<and> (\<forall>n pid. pio_start_kill io n pid) \<and> (\<forall>n pid. \<exists>status. pio_wait io n pid = WaitExited status)"

definition running_ids :: "runtime_manager \<Rightarrow> string set" where
  "running_ids m = dom (map_of (rm_running m))"

definition started_ids :: "runtime_manager \<Rightarrow> string list" where
  "started_ids m = map fst (pw_spawned (rm_world m))"

definition supervisor_of :: "runtime_manager \<Rightarrow> supervisor" where
  "supervisor_of m = (running_ids m, started_ids m)"

text \<open>The states that the simulation goes through: exactly the running plugins have a sandbox.\<close>

definition sandboxed :: "manifests \<Rightarrow> runtime_manager \<Rightarrow> bool" where
  "sandboxed ms m \<longleftrightarrow> manager_inv m \<and> rm_manifests m = ms \<and> dom (map_of (rm_sandbox_configs m)) = running_ids m"

definition implements ::
  "manifests \<Rightarrow> (runtime_manager \<Rightarrow> (string + unit) \<times> runtime_manager) \<Rightarrow> (supervisor \<Rightarrow> bool \<times> supervisor) \<Rightarrow> bool" where
  "implements ms f g \<longleftrightarrow> (\<forall>m. sandboxed ms m \<longrightarrow>
     sandboxed ms (snd (f m)) \<and> g (supervisor_of m) = (fst (f m) = Inr (), supervisor_of (snd (f m))))"

lemma implementsD:
  assumes "implements ms f g" "sandboxed ms m" "f m = (r, m')"
  shows "sandboxed ms m'" "g (supervisor_of m) = (r = Inr (), supervisor_of m')"
  using assms unfolding implements_def by (metis fst_conv snd_conv)+

lemma implements_skip: "implements ms (\<lambda>m. (Inr (), m)) (\<lambda>s. (True, s))"
  by (simp add: implements_def)

lemma implements_then:
  assumes "implements ms f g" "implements ms f' g'"
  shows "implements ms (\<lambda>m. and_step (f m) f') (\<lambda>s. sup_then (g s) g')"
  unfolding implements_def
proof (intro allI impI)
  fix m assume s: "sandboxed ms m"
  obtain r m1 where p: "f m = (r, m1)" by (meson surj_pair)
  obtain r' m2 where p': "f' m1 = (r', m2)" by (meson surj_pair)
  note one = implementsD [OF assms(1) s p]
  note two = implementsD [OF assms(2) one(1) p']
  show "sandboxed ms (snd (and_step (f m) f'))
      \<and> sup_then (g (supervisor_of m)) g' = (fst (and_step (f m) f') = Inr (), supervisor_of (snd (and_step (f m) f')))"
    using p p' one two by (cases r) (simp_all add: and_step_def sup_then_def)
qed

section \<open>The operations\<close>

lemma obedient_probe:
  "obedient io \<Longrightarrow> probe_running io ps w = (exited, w') \<Longrightarrow> exited = []"
  by (induction io ps w arbitrary: exited rule: probe_running.induct)
    (auto simp: obedient_def split: sum.splits option.splits)

lemma obedient_reconcile:
  assumes "obedient io"
  shows "rm_running (reconcile_exited io m) = rm_running m"
  using obedient_probe [OF assms, of "rm_running m" "rm_world m"]
  by (auto simp: reconcile_exited_def split: prod.splits)

lemma reconcile_sandboxed:
  assumes "obedient io" "sandboxed ms m"
  shows "sandboxed ms (reconcile_exited io m)" "supervisor_of (reconcile_exited io m) = supervisor_of m"
  using assms reconcile_inv [of m io]
  by (simp_all add: sandboxed_def supervisor_of_def running_ids_def started_ids_def obedient_reconcile)

lemma running_known:
  assumes "sandboxed ms m"
  shows "running_ids m \<subseteq> dom (map_of ms)"
  using assms unfolding sandboxed_def manager_inv_def running_ids_def by blast

lemma implements_start:
  assumes "obedient io"
  shows "implements ms (manager_start io i) (sup_start (dom (map_of ms)) i)"
  unfolding implements_def
proof (intro allI impI)
  fix m0 assume s0: "sandboxed ms m0"
  define m where "m = reconcile_exited io m0"
  have s: "sandboxed ms m" and abs: "supervisor_of m0 = supervisor_of m"
    using reconcile_sandboxed [OF assms s0] by (simp_all add: m_def)
  note st = manager_start_def Let_def m_def [symmetric]
  have inv: "manager_inv (snd (manager_start io i m0))"
    using keeps_start [of io i] s0 unfolding keeps_def sandboxed_def by blast
  consider (runs) pid where "map_of (rm_running m) i = Some pid"
    | (unknown) "map_of (rm_running m) i = None" "map_of ms i = None"
    | (starts) manifest pid where "map_of (rm_running m) i = None" "map_of ms i = Some manifest"
        "pio_spawn io (pw_ops (rm_world m)) (shell_command (pio_windows io) (pm_entrypoint manifest)) = Some pid"
    using assms unfolding obedient_def by (metis not_None_eq)
  then show "sandboxed ms (snd (manager_start io i m0))
      \<and> sup_start (dom (map_of ms)) i (supervisor_of m0)
          = (fst (manager_start io i m0) = Inr (), supervisor_of (snd (manager_start io i m0)))"
  proof cases
    case starts
    have known: "map_of (rm_manifests m) i = Some manifest" and "pm_id manifest = i"
      using s starts(2) by (auto simp: sandboxed_def manager_inv_def manifests_ok_def)
    with starts inv s abs show ?thesis
      by (auto simp: st spawn_process_def sandboxed_def sup_start_def supervisor_of_def running_ids_def started_ids_def
          update_conv' domIff)
  qed (use inv s abs in \<open>auto simp: st sandboxed_def sup_start_def supervisor_of_def running_ids_def\<close>)
qed

lemma implements_stop:
  assumes "obedient io"
  shows "implements ms (manager_stop io i) (sup_stop i)"
  unfolding implements_def
proof (intro allI impI)
  fix m0 assume s0: "sandboxed ms m0"
  define m where "m = reconcile_exited io m0"
  have s: "sandboxed ms m" and abs: "supervisor_of m0 = supervisor_of m"
    using reconcile_sandboxed [OF assms s0] by (simp_all add: m_def)
  note st = manager_stop_def Let_def m_def [symmetric]
  have inv: "manager_inv (snd (manager_stop io i m0))"
    using keeps_stop [of io i] s0 unfolding keeps_def sandboxed_def by blast
  show "sandboxed ms (snd (manager_stop io i m0))
      \<and> sup_stop i (supervisor_of m0) = (fst (manager_stop io i m0) = Inr (), supervisor_of (snd (manager_stop io i m0)))"
  proof (cases "map_of (rm_running m) i")
    case None
    with inv s abs show ?thesis
      by (auto simp: st sandboxed_def sup_stop_def supervisor_of_def running_ids_def)
  next
    case (Some pid)
    obtain w where w: "stop_process io pid (rm_world m) = (Inr (), w)" "pw_spawned w = pw_spawned (rm_world m)"
    proof -
      obtain status where "pio_wait io (pw_ops (tick (rm_world m))) pid = WaitExited status"
        using assms unfolding obedient_def by blast
      with assms that show thesis
        by (auto simp: stop_process_def obedient_def)
    qed
    with Some inv s abs show ?thesis
      by (auto simp: st sandboxed_def sup_stop_def supervisor_of_def running_ids_def started_ids_def delete_conv' domIff)
  qed
qed

lemma implements_restart:
  "obedient io \<Longrightarrow> implements ms (manager_restart io i) (sup_restart (dom (map_of ms)) i)"
  unfolding manager_restart_def [abs_def] sup_restart_def [abs_def]
  by (intro implements_then implements_start implements_stop)


section \<open>Loops over plugins\<close>

fun sup_each :: "(string \<Rightarrow> supervisor \<Rightarrow> bool \<times> supervisor) \<Rightarrow> string list \<Rightarrow> supervisor \<Rightarrow> bool \<times> supervisor" where
  "sup_each g [] s = (True, s)"
| "sup_each g (i # is) s = sup_then (g i s) (sup_each g is)"

lemma implements_each:
  assumes "\<And>i. implements ms (f i) (g i)"
  shows "implements ms (for_each f is) (sup_each g is)"
proof (induction "is")
  case Nil
  then show ?case using implements_skip by (simp add: implements_def)
next
  case (Cons i "is")
  from implements_then [OF assms this, of i] show ?case
    by (simp add: implements_def)
qed

lemma sup_each_stop: "sup_each sup_stop is s = (True, fst s - set is, snd s)"
  by (induction "is" arbitrary: s) (auto simp: sup_then_def sup_stop_def)

lemma sup_each_start:
  "distinct is \<Longrightarrow> set is \<inter> fst s = {} \<Longrightarrow> set is \<subseteq> known \<Longrightarrow>
    sup_each (sup_start known) is s = (True, fst s \<union> set is, snd s @ is)"
  by (induction "is" arbitrary: s) (auto simp: sup_then_def sup_start_def)

lemma implements_stop_all:
  assumes "obedient io"
  shows "implements ms (manager_stop_all io) sup_shutdown"
  unfolding implements_def
proof (intro allI impI)
  fix m assume s: "sandboxed ms m"
  let ?is = "sort (map fst (rm_running m))"
  have "implements ms (for_each (manager_stop io) ?is) (sup_each sup_stop ?is)"
    by (intro implements_each implements_stop assms)
  moreover have "sup_each sup_stop ?is (supervisor_of m) = sup_shutdown (supervisor_of m)"
    by (simp add: sup_each_stop sup_shutdown_def supervisor_of_def running_ids_def dom_map_of_conv_image_fst)
  ultimately show "sandboxed ms (snd (manager_stop_all io m))
      \<and> sup_shutdown (supervisor_of m) = (fst (manager_stop_all io m) = Inr (), supervisor_of (snd (manager_stop_all io m)))"
    using s by (simp add: implements_def manager_stop_all_def)
qed

lemma start_all_fresh:
  assumes "obedient io" "sandboxed ms m" "supervisor_of m = ({}, [])" "manager_start_all io m = (r, m')"
  shows "r = Inr () \<and> sandboxed ms m' \<and> supervisor_of m' = (set (map fst ms), sorted_list_of_set (set (map fst ms)))"
proof -
  let ?is = "sort (map fst (rm_manifests m))"
  have ms: "rm_manifests m = ms" "distinct (map fst ms)"
    using assms(2) by (auto simp: sandboxed_def manager_inv_def manifests_ok_def)
  have "implements ms (for_each (manager_start io) ?is) (sup_each (sup_start (dom (map_of ms))) ?is)"
    by (intro implements_each implements_start assms)
  note run = implementsD [OF this assms(2)]
  have "sup_each (sup_start (dom (map_of ms))) ?is ({}, []) = (True, set ?is, ?is)"
    using ms sup_each_start [of ?is "({}, [])" "dom (map_of ms)"] by (simp add: dom_map_of_conv_image_fst)
  moreover have "?is = sorted_list_of_set (set (map fst ms))"
    using ms by (simp only: sorted_list_of_set_sort_remdups distinct_remdups_id)
  ultimately show ?thesis
    using run assms(3,4) ms(1) by (auto simp: manager_start_all_def)
qed

section \<open>The admin loop and a whole run\<close>

lemma list_sandboxed:
  assumes "obedient io" "sandboxed ms m"
  shows "sandboxed ms (snd (manager_list io m))" "supervisor_of (snd (manager_list io m)) = supervisor_of m"
  using reconcile_sandboxed [OF assms] by (simp_all add: manager_list_def Let_def)

lemma implements_list:
  assumes "obedient io" "implements ms f g"
  shows "implements ms (\<lambda>m. f (snd (manager_list io m))) g"
  using assms(2) list_sandboxed [OF assms(1)] unfolding implements_def by metis

lemma implements_admin_loop:
  assumes "obedient io"
  shows "implements ms (admin_loop io es) (supervise (dom (map_of ms)) es)"
proof (induction es)
  case Nil
  then show ?case
    using implements_stop_all [OF assms, of ms] by (simp add: implements_def)
next
  case (Cons e es)
  note stop_all = implements_stop_all [OF assms, of ms]
  note chain = implements_then [OF _ Cons.IH]
  show ?case
  proof (cases e)
    case CtrlC
    with stop_all show ?thesis by (simp add: implements_def)
  next
    case (AdminLine line)
    show ?thesis
    proof (cases "parse_admin_command line")
      case (Inl err)
      with AdminLine Cons.IH show ?thesis by (simp add: implements_def)
    next
      case (Inr c)
      with AdminLine Cons.IH stop_all chain [OF implements_start [OF assms]] chain [OF implements_stop [OF assms]]
        chain [OF implements_restart [OF assms]] implements_list [OF assms Cons.IH] show ?thesis
        by (cases c) (simp_all add: implements_def)
    qed
  qed
qed


lemma sample_obedient: "obedient sample_process_io"
  by (simp add: obedient_def sample_process_io_def)


end
