(* ===== verification/Client_Bounds.thy ===== *)
theory Client_Bounds
  imports Policy_Client
begin

text \<open>
  How long one call of \<open>GrpcPolicyClient::evaluate\<close> can take: its remote calls, its sleeps and their total
  time, and the first answer ending it. The definitions are those of \<open>Policy_Client\<close>.
\<close>

text \<open>The longest time an event of the trace can take: a remote call ends with its timeout.\<close>

fun event_time :: "client_event \<Rightarrow> nat" where
  "event_time (RpcSent limit q) = limit"
| "event_time (Slept d) = d"

definition trace_time :: "client_event list \<Rightarrow> nat" where
  "trace_time tr = sum_list (map event_time tr)"

lemma trace_time_simps [simp]:
  "trace_time [] = 0" "trace_time (xs @ ys) = trace_time xs + trace_time ys"
  "trace_time (e # xs) = event_time e + trace_time xs"
  by (simp_all add: trace_time_def)

lemma backoff_le_max: "backoff_for_attempt attempt initial max_d \<le> max_d"
proof -
  let ?raw = "min (min (as_millis initial * unat (unwrap_or (- 1) (checked_shl_1 (min (attempt - 1) 30)))) (2 ^ 128 - 1))
      (as_millis max_d)"
  have "?raw mod 2 ^ 64 \<le> as_millis max_d"
    by (meson min.cobounded2 mod_less_eq_dividend order_trans)
  then have "from_millis (?raw mod 2 ^ 64) \<le> from_millis (as_millis max_d)"
    by (simp add: from_millis_def)
  also have "\<dots> \<le> max_d"
    by (simp add: from_millis_def as_millis_def)
  finally show ?thesis
    by (simp add: backoff_for_attempt_def Let_def)
qed

lemma attempt_events_time:
  "trace_time (attempt_events c q as) \<le> length as * (timeout_per_attempt c + max_backoff c)"
proof (induction as)
  case (Cons a as)
  have "attempt_events c q (a # as) = [RpcSent (timeout_per_attempt c) q,
      Slept (backoff_for_attempt a (initial_backoff c) (max_backoff c))] @ attempt_events c q as"
    by (simp add: attempt_events_def)
  with Cons show ?case
    using backoff_le_max [of a "initial_backoff c" "max_backoff c"] by simp
qed (simp add: attempt_events_def)

text \<open>The ways in which a call extends the trace.\<close>

lemma client_evaluate_trace_cases:
  obtains (silent) "cw_trace (snd (client_evaluate io request w)) = cw_trace w"
  | (sent) q k where "1 \<le> k" "k \<le> max_attempts (cw_client w)"
      "cw_trace (snd (client_evaluate io request w)) = cw_trace w @ attempt_events (cw_client w) q [1..<k]
         @ [RpcSent (timeout_per_attempt (cw_client w)) q]"
proof (cases rule: client_evaluate_cases [where io = io and w = w and request = request])
  case refused
  then have "cw_trace (snd (client_evaluate io request w)) = cw_trace w"
    by (auto simp: breaker_permits_def client_evaluate_def fail_if_circuit_open_def instant_now_def Let_def
        split: option.splits)
  then show thesis by (rule silent)
next
  case no_attempts
  then have "cw_trace (snd (client_evaluate io request w)) = cw_trace w"
    using mark_failure_simps(1) [of io "admitted io w"]
    by (auto simp: settle_failure_def simp del: mark_failure_simps split: prod.splits outcome.splits)
  then show thesis by (rule silent)
next
  case (unbuildable err)
  then show thesis by (intro silent) simp
next
  case (settled q k w1)
  then show thesis by (intro sent [of k q]) (simp_all add: attempt_events_def)
qed

text \<open>
  C11: Every call of \<open>evaluate\<close> ends within a time known in advance, whatever the service does: it sends at
  most \<open>max_attempts\<close> remote calls, and the timeouts of those calls and the sleeps between them add up to
  at most \<open>max_attempts\<close> timeouts and \<open>max_attempts - 1\<close> maximal back-offs.
\<close>

theorem evaluate_ends_in_time:
  "\<exists>events. cw_trace (snd (client_evaluate io request w)) = cw_trace w @ events
    \<and> rpcs_sent events \<le> max_attempts (cw_client w)
    \<and> trace_time events \<le> max_attempts (cw_client w) * timeout_per_attempt (cw_client w)
        + (max_attempts (cw_client w) - 1) * max_backoff (cw_client w)"
proof (cases rule: client_evaluate_trace_cases [of io request w])
  case (sent q k)
  let ?c = "cw_client w"
  let ?events = "attempt_events ?c q [1..<k] @ [RpcSent (timeout_per_attempt ?c) q]"
  have b: "rpcs_sent (attempt_events ?c q [1..<k]) = k - 1"
    "trace_time (attempt_events ?c q [1..<k]) \<le> (k - 1) * (timeout_per_attempt ?c + max_backoff ?c)"
    using attempt_events_time [of ?c q "[1..<k]"] by (simp_all only: attempt_events_rpcs length_upt)
  have "trace_time ?events \<le> (k - 1) * (timeout_per_attempt ?c + max_backoff ?c) + timeout_per_attempt ?c"
    using b(2) by simp
  also have "\<dots> = k * timeout_per_attempt ?c + (k - 1) * max_backoff ?c"
    using sent(1) by (cases k) (simp_all add: algebra_simps)
  also have "\<dots> \<le> max_attempts ?c * timeout_per_attempt ?c + (max_attempts ?c - 1) * max_backoff ?c"
    using sent(2) by (intro add_mono mult_le_mono1) simp_all
  finally show ?thesis
    using sent b(1) by (intro exI [of _ ?events]) simp
qed simp

text \<open>The service answers the first remote call.\<close>

lemma first_answer_settles:
  assumes "breaker_permits io w" "build_grpc_request io request = Inr q" "0 < max_attempts (cw_client w)"
    and "io_rpc io (rpcs_sent (cw_trace w)) q = RpcResponse response"
  shows "fst (client_evaluate io request w) = Done (Inr (map_grpc_decision request response))"
proof -
  obtain k where k: "1 \<le> k" "\<forall>j. 1 \<le> j \<and> j < k \<longrightarrow> \<not> final_answer (max_attempts (cw_client w)) j
        (io_rpc io (rpcs_sent (cw_trace w) + (j - 1)) q)"
    and eq: "client_evaluate io request w =
      settle io request (io_clock io (cw_reads w)) (io_rpc io (rpcs_sent (cw_trace w) + (k - 1)) q)
        (send_rpc q (retried q [1..<k] (admitted io w)))"
    using client_evaluate_settles [OF assms(1-3)] by metis
  have "k = 1"
  proof (rule ccontr)
    assume "k \<noteq> 1"
    with k(1) have "1 < k" by simp
    with k(2) have "\<not> final_answer (max_attempts (cw_client w)) 1 (io_rpc io (rpcs_sent (cw_trace w)) q)"
      by fastforce
    with assms(4) show False
      by (simp add: final_answer_def)
  qed
  then show ?thesis
    unfolding eq by (simp add: assms(4) settle_def)
qed

end
