(* ===== verification/Benchmark.thy ===== *)
theory Benchmark
  imports Common_Types Histogram
begin

text \<open>
  \<^verbatim>\<open>crates/benchmark-ingest\<close>: the CSV parser (\<^verbatim>\<open>parser.rs\<close>), the record (\<^verbatim>\<open>record.rs\<close>), filtering and
  summaries (\<^verbatim>\<open>query.rs\<close>). The type \<open>f64\<close> and its operations are a parameter. An error is the list
  of the messages that the code attaches to it, outermost first; the cause that the standard library
  adds at the inner end is left out.
\<close>

section \<open>Records and floating point numbers\<close>

record 'f float_ops =
  fl_parse :: "string \<Rightarrow> 'f option"
  fl_zero :: "'f"
  fl_sum_start :: "'f"
  fl_add :: "'f \<Rightarrow> 'f \<Rightarrow> 'f"
  fl_div :: "'f \<Rightarrow> 'f \<Rightarrow> 'f"
  fl_of_nat :: "nat \<Rightarrow> 'f"

record 'f benchmark_record =
  br_run_id :: string
  br_date_utc :: string
  br_host_id :: string
  br_ram_class_gb :: "'f"
  br_cpu_model :: string
  br_backend :: string
  br_model_name :: string
  br_model_arch :: string
  br_total_params_b :: "'f"
  br_active_params_b :: "'f"
  br_quantization :: string
  br_context_tokens :: u64
  br_output_tokens :: u64
  br_concurrency :: u32
  br_compression_profile :: string
  br_compression_codec :: string
  br_compression_target_pct :: u32
  br_zswap_enabled :: bool
  br_tokens_per_sec :: "'f"
  br_ttft_ms :: "'f"
  br_p95_token_latency_ms :: "'f"
  br_peak_rss_gb :: "'f"
  br_swap_used_gb :: "'f"
  br_psi_mem_some_avg10 :: "'f"
  br_psi_mem_full_avg10 :: "'f"
  br_cpu_avg_pct :: "'f"
  br_cpu_peak_pct :: "'f"
  br_oom_events :: u32
  br_run_success :: bool
  br_notes :: string

type_synonym error_chain = "string list"

section \<open>Rows\<close>

text \<open>The loop over the characters of a row; a quote and a comma are single bytes of UTF-8.\<close>

fun split_csv :: "bool \<Rightarrow> string \<Rightarrow> string \<Rightarrow> string list" where
  "split_csv in_quotes current [] = [trim current]"
| "split_csv in_quotes current (ch # cs) =
     (if ch = CHR 0x22 then split_csv (\<not> in_quotes) current cs
      else if ch = CHR '','' \<and> \<not> in_quotes then trim current # split_csv in_quotes [] cs
      else split_csv in_quotes (current @ [ch]) cs)"

definition split_csv_row :: "string \<Rightarrow> string list" where
  "split_csv_row line = split_csv False [] line"

definition quote_text :: "string \<Rightarrow> string" where
  "quote_text s = [CHR 0x27] @ s @ [CHR 0x27]"

definition field_error :: "string \<Rightarrow> string \<Rightarrow> string \<Rightarrow> error_chain" where
  "field_error kind field s = [''invalid '' @ kind @ '' for field '' @ quote_text field @ '': '' @ quote_text s]"

definition parse_f64 :: "'f float_ops \<Rightarrow> string \<Rightarrow> string \<Rightarrow> error_chain + 'f" where
  "parse_f64 ops s field = ok_or (field_error ''float'' field s) (fl_parse ops s)"

definition parse_u64_field :: "string \<Rightarrow> string \<Rightarrow> error_chain + u64" where
  "parse_u64_field s field = ok_or (field_error ''u64'' field s) (map_option of_nat (parse_u64 s))"

definition parse_u32_field :: "string \<Rightarrow> string \<Rightarrow> error_chain + u32" where
  "parse_u32_field s field = ok_or (field_error ''u32'' field s) (map_option of_nat (parse_u32 s))"

text \<open>
  \<open>to_lowercase\<close> is Unicode's; no character outside ASCII lowers to a letter of the words compared
  with, so that lowering ASCII alone decides the same.
\<close>

definition parse_bool :: "string \<Rightarrow> string \<Rightarrow> error_chain + bool" where
  "parse_bool s field =
     (let w = to_ascii_lowercase s in
      if w \<in> {''true'', ''1'', ''yes''} then Inr True
      else if w \<in> {''false'', ''0'', ''no''} then Inr False
      else Inl (field_error ''boolean'' field s))"

definition parse_row :: "'f float_ops \<Rightarrow> string \<Rightarrow> error_chain + 'f benchmark_record" where
  "parse_row ops line =
     (let f = split_csv_row line in
      if length f < 30 then Inl [''expected at least 30 fields, found '' @ show_nat (length f)]
      else
      and_then (parse_f64 ops (f ! 3) ''ram_class_gb'') (\<lambda>ram_class_gb.
      and_then (parse_f64 ops (f ! 8) ''total_params_b'') (\<lambda>total_params_b.
      and_then (parse_f64 ops (f ! 9) ''active_params_b'') (\<lambda>active_params_b.
      and_then (parse_u64_field (f ! 11) ''context_tokens'') (\<lambda>context_tokens.
      and_then (parse_u64_field (f ! 12) ''output_tokens'') (\<lambda>output_tokens.
      and_then (parse_u32_field (f ! 13) ''concurrency'') (\<lambda>concurrency.
      and_then (parse_u32_field (f ! 16) ''compression_target_pct'') (\<lambda>compression_target_pct.
      and_then (parse_bool (f ! 17) ''zswap_enabled'') (\<lambda>zswap_enabled.
      and_then (parse_f64 ops (f ! 18) ''tokens_per_sec'') (\<lambda>tokens_per_sec.
      and_then (parse_f64 ops (f ! 19) ''ttft_ms'') (\<lambda>ttft_ms.
      and_then (parse_f64 ops (f ! 20) ''p95_token_latency_ms'') (\<lambda>p95_token_latency_ms.
      and_then (parse_f64 ops (f ! 21) ''peak_rss_gb'') (\<lambda>peak_rss_gb.
      and_then (parse_f64 ops (f ! 22) ''swap_used_gb'') (\<lambda>swap_used_gb.
      and_then (parse_f64 ops (f ! 23) ''psi_mem_some_avg10'') (\<lambda>psi_mem_some_avg10.
      and_then (parse_f64 ops (f ! 24) ''psi_mem_full_avg10'') (\<lambda>psi_mem_full_avg10.
      and_then (parse_f64 ops (f ! 25) ''cpu_avg_pct'') (\<lambda>cpu_avg_pct.
      and_then (parse_f64 ops (f ! 26) ''cpu_peak_pct'') (\<lambda>cpu_peak_pct.
      and_then (parse_u32_field (f ! 27) ''oom_events'') (\<lambda>oom_events.
      and_then (parse_bool (f ! 28) ''run_success'') (\<lambda>run_success.
      Inr \<lparr>br_run_id = f ! 0, br_date_utc = f ! 1, br_host_id = f ! 2, br_ram_class_gb = ram_class_gb, br_cpu_model
         = f ! 4, br_backend = f ! 5, br_model_name = f ! 6, br_model_arch = f ! 7, br_total_params_b =
         total_params_b, br_active_params_b = active_params_b, br_quantization = f ! 10, br_context_tokens =
         context_tokens, br_output_tokens = output_tokens, br_concurrency = concurrency, br_compression_profile =
         f ! 14, br_compression_codec = f ! 15, br_compression_target_pct = compression_target_pct,
         br_zswap_enabled = zswap_enabled, br_tokens_per_sec = tokens_per_sec, br_ttft_ms = ttft_ms,
         br_p95_token_latency_ms = p95_token_latency_ms, br_peak_rss_gb = peak_rss_gb, br_swap_used_gb =
         swap_used_gb, br_psi_mem_some_avg10 = psi_mem_some_avg10, br_psi_mem_full_avg10 = psi_mem_full_avg10,
         br_cpu_avg_pct = cpu_avg_pct, br_cpu_peak_pct = cpu_peak_pct, br_oom_events = oom_events, br_run_success
         = run_success, br_notes = f ! 29\<rparr>))))))))))))))))))))"

section \<open>Files\<close>

text \<open>\<open>str::lines\<close>: lines end with a line feed, and a carriage return before it is dropped.\<close>

definition strip_cr :: "string \<Rightarrow> string" where
  "strip_cr s = (case strip_suffix s [CHR 0x0D] of None \<Rightarrow> s | Some t \<Rightarrow> t)"

fun lines_from :: "string \<Rightarrow> string \<Rightarrow> string list" where
  "lines_from current [] = (if current = [] then [] else [current])"
| "lines_from current (c # cs) =
     (if c = CHR 0x0A then strip_cr current # lines_from [] cs else lines_from (current @ [c]) cs)"

definition str_lines :: "string \<Rightarrow> string list" where
  "str_lines s = lines_from [] s"

definition validate_header :: "string \<Rightarrow> error_chain + unit" where
  "validate_header header =
     (let fields = split_csv_row header in
      if length fields < 30 then Inl [''expected at least 30 columns in header, found '' @ show_nat (length fields)]
      else if fields ! 0 \<noteq> ''run_id''
      then Inl [''first column must be '' @ quote_text ''run_id'' @ '', found '' @ quote_text (fields ! 0)]
      else Inr ())"

text \<open>The loop over the lines after the header, with their index.\<close>

fun parse_rows :: "'f float_ops \<Rightarrow> nat \<Rightarrow> string list \<Rightarrow> error_chain + 'f benchmark_record list" where
  "parse_rows ops line_num [] = Inr []"
| "parse_rows ops line_num (line # ls) =
     (if trim line = [] then parse_rows ops (line_num + 1) ls
      else
        and_then (map_err (\<lambda>e. (''failed to parse CSV row '' @ show_nat (line_num + 2)) # e) (parse_row ops (trim line)))
          (\<lambda>record. and_then (parse_rows ops (line_num + 1) ls) (\<lambda>records. Inr (record # records))))"

definition parse_benchmark_csv :: "'f float_ops \<Rightarrow> string \<Rightarrow> error_chain + 'f benchmark_record list" where
  "parse_benchmark_csv ops content =
     (case str_lines content of
        [] \<Rightarrow> Inl [''CSV is empty; expected a header row'']
      | header # ls \<Rightarrow> and_then (validate_header header) (\<lambda>_. parse_rows ops 0 ls))"

section \<open>Queries\<close>

record run_filter =
  rf_model_name :: "string option"
  rf_compression_profile :: "string option"
  rf_context_tokens :: "u64 option"
  rf_success_only :: bool

definition filter_runs :: "'f benchmark_record list \<Rightarrow> run_filter \<Rightarrow> 'f benchmark_record list" where
  "filter_runs records flt =
     filter (\<lambda>r.
       if rf_success_only flt \<and> \<not> br_run_success r then False
       else if (case rf_model_name flt of None \<Rightarrow> False | Some name \<Rightarrow> br_model_name r \<noteq> name) then False
       else if (case rf_compression_profile flt of None \<Rightarrow> False | Some p \<Rightarrow> br_compression_profile r \<noteq> p) then False
       else if (case rf_context_tokens flt of None \<Rightarrow> False | Some ctx \<Rightarrow> br_context_tokens r \<noteq> ctx) then False
       else True) records"

record 'f run_summary =
  rsm_count :: nat
  rsm_avg_tokens_per_sec :: "'f"
  rsm_avg_ttft_ms :: "'f"
  rsm_avg_p95_latency_ms :: "'f"
  rsm_avg_peak_rss_gb :: "'f"
  rsm_total_oom_events :: u32

text \<open>\<open>Iterator::sum\<close> on \<open>u32\<close>; \<open>checked\<close> says whether the build checks for overflow.\<close>

fun sum_u32 :: "bool \<Rightarrow> u32 \<Rightarrow> u32 list \<Rightarrow> u32 outcome" where
  "sum_u32 checked acc [] = Done acc"
| "sum_u32 checked acc (x # xs) =
     (if checked \<and> 2 ^ 32 \<le> unat acc + unat x then Panic else sum_u32 checked (acc + x) xs)"

definition fl_sum :: "'f float_ops \<Rightarrow> 'f list \<Rightarrow> 'f" where
  "fl_sum ops xs = foldl (fl_add ops) (fl_sum_start ops) xs"

definition summarize_group :: "bool \<Rightarrow> 'f float_ops \<Rightarrow> 'f benchmark_record list \<Rightarrow> 'f run_summary outcome" where
  "summarize_group checked ops records =
     (if records = []
      then Done \<lparr>rsm_count = 0, rsm_avg_tokens_per_sec = fl_zero ops, rsm_avg_ttft_ms = fl_zero ops,
             rsm_avg_p95_latency_ms = fl_zero ops, rsm_avg_peak_rss_gb = fl_zero ops, rsm_total_oom_events = 0\<rparr>
      else
        let count = length records;
            avg = (\<lambda>g. fl_div ops (fl_sum ops (map g records)) (fl_of_nat ops count))
        in case sum_u32 checked 0 (map br_oom_events records) of
             Panic \<Rightarrow> Panic
           | Done oom \<Rightarrow>
               Done \<lparr>rsm_count = count, rsm_avg_tokens_per_sec = avg br_tokens_per_sec,
                 rsm_avg_ttft_ms = avg br_ttft_ms, rsm_avg_p95_latency_ms = avg br_p95_token_latency_ms,
                 rsm_avg_peak_rss_gb = avg br_peak_rss_gb, rsm_total_oom_events = oom\<rparr>)"

section \<open>Writing records\<close>

text \<open>
  The form in which the benchmark scripts write their files: every field in quotes. It is not code of
  the crate but what its parser is for; \<open>show_f\<close> prints a number.
\<close>

definition show_bool :: "bool \<Rightarrow> string" where
  "show_bool b = (if b then ''true'' else ''false'')"

definition record_columns :: "('f \<Rightarrow> string) \<Rightarrow> 'f benchmark_record \<Rightarrow> string list" where
  "record_columns show_f r =
     [br_run_id r, br_date_utc r, br_host_id r, show_f (br_ram_class_gb r), br_cpu_model r, br_backend r,
         br_model_name r, br_model_arch r, show_f (br_total_params_b r), show_f (br_active_params_b r),
         br_quantization r, show_u64 (br_context_tokens r), show_u64 (br_output_tokens r), show_nat (unat
         (br_concurrency r)), br_compression_profile r, br_compression_codec r, show_nat (unat
         (br_compression_target_pct r)), show_bool (br_zswap_enabled r), show_f (br_tokens_per_sec r), show_f
         (br_ttft_ms r), show_f (br_p95_token_latency_ms r), show_f (br_peak_rss_gb r), show_f (br_swap_used_gb
         r), show_f (br_psi_mem_some_avg10 r), show_f (br_psi_mem_full_avg10 r), show_f (br_cpu_avg_pct r), show_f
         (br_cpu_peak_pct r), show_nat (unat (br_oom_events r)), show_bool (br_run_success r), br_notes r]"

definition csv_header :: "string list" where
  "csv_header =
     [''run_id'', ''date_utc'', ''host_id'', ''ram_class_gb'', ''cpu_model'', ''backend'', ''model_name'',
         ''model_arch'', ''total_params_b'', ''active_params_b'', ''quantization'', ''context_tokens'',
         ''output_tokens'', ''concurrency'', ''compression_profile'', ''compression_codec'',
         ''compression_target_pct'', ''zswap_enabled'', ''tokens_per_sec'', ''ttft_ms'', ''p95_token_latency_ms'',
         ''peak_rss_gb'', ''swap_used_gb'', ''psi_mem_some_avg10'', ''psi_mem_full_avg10'', ''cpu_avg_pct'',
         ''cpu_peak_pct'', ''oom_events'', ''run_success'', ''notes'']"

definition quoted_field :: "string \<Rightarrow> string" where
  "quoted_field s = [CHR 0x22] @ s @ [CHR 0x22]"

definition csv_line :: "string list \<Rightarrow> string" where
  "csv_line cols = join '','' (map quoted_field cols)"

definition csv_file :: "('f \<Rightarrow> string) \<Rightarrow> 'f benchmark_record list \<Rightarrow> string" where
  "csv_file show_f records =
     concat (map (\<lambda>cols. csv_line cols @ nl) (csv_header # map (record_columns show_f) records))"

section \<open>Reading back what was written\<close>

text \<open>A field that survives the parser: no quote, no line feed, no white space at its ends.\<close>

definition clean_field :: "string \<Rightarrow> bool" where
  "clean_field s \<longleftrightarrow> CHR 0x22 \<notin> set s \<and> CHR 0x0A \<notin> set s \<and> trim s = s"

lemma split_csv_quoted:
  "CHR 0x22 \<notin> set s \<Longrightarrow> split_csv True current (s @ CHR 0x22 # rest) = split_csv False (current @ s) rest"
  by (induction s arbitrary: current) auto

lemma split_csv_line:
  assumes "cols \<noteq> []" "\<forall>s\<in>set cols. clean_field s"
  shows "split_csv False [] (csv_line cols) = cols"
  using assms
proof (induction cols rule: induct_list012)
  case (2 s)
  then show ?case
    using split_csv_quoted [of s "[]" "[]"] by (simp add: csv_line_def quoted_field_def clean_field_def)
next
  case (3 s t ss)
  then have "split_csv False [] (csv_line (t # ss)) = t # ss"
    by simp
  with 3(4) split_csv_quoted [of s "[]" "CHR '','' # csv_line (t # ss)"] show ?case
    by (simp add: csv_line_def quoted_field_def clean_field_def)
qed simp

lemma csv_line_shape:
  assumes "cols \<noteq> []"
  obtains body where "csv_line cols = CHR 0x22 # body @ [CHR 0x22]"
proof -
  have "\<exists>body. csv_line cols = CHR 0x22 # body @ [CHR 0x22]"
    using assms
  proof (induction cols rule: induct_list012)
    case (3 s t ss)
    then obtain body where b: "csv_line (t # ss) = CHR 0x22 # body @ [CHR 0x22]"
      by auto
    have "csv_line (s # t # ss) = CHR 0x22 # (s @ CHR 0x22 # CHR '','' # CHR 0x22 # body) @ [CHR 0x22]"
      using b by (simp add: csv_line_def quoted_field_def)
    then show ?case by blast
  qed (simp_all add: csv_line_def quoted_field_def)
  then show thesis
    using that by blast
qed

lemma csv_line_no_newline: "\<forall>s\<in>set cols. clean_field s \<Longrightarrow> CHR 0x0A \<notin> set (csv_line cols)"
  by (induction cols rule: induct_list012) (auto simp: csv_line_def quoted_field_def clean_field_def)

lemma quote_not_space: "w \<in> set white_space \<Longrightarrow> hd w \<noteq> CHR 0x22 \<and> last w \<noteq> CHR 0x22 \<and> w \<noteq> []"
  by (auto simp: white_space_eval)

lemma trim_quoted_line: "trim (CHR 0x22 # body @ [CHR 0x22]) = CHR 0x22 # body @ [CHR 0x22]"
proof (rule trim_id)
  show "no_leading_space (CHR 0x22 # body @ [CHR 0x22])"
    by (auto simp: no_leading_space_iff prefix_def dest!: quote_not_space) (metis hd_append2 list.sel(1))
  have "\<not> suffix w ((CHR 0x22 # body) @ [CHR 0x22])" if "w \<in> set white_space" for w
  proof
    assume "suffix w ((CHR 0x22 # body) @ [CHR 0x22])"
    then have "last w = CHR 0x22"
      using quote_not_space [OF that] by (metis last_appendR last_snoc suffix_def)
    with quote_not_space [OF that] show False by simp
  qed
  then show "no_trailing_space (CHR 0x22 # body @ [CHR 0x22])"
    by (simp add: no_trailing_space_iff)
qed

lemma strip_cr_quoted: "strip_cr (CHR 0x22 # body @ [CHR 0x22]) = CHR 0x22 # body @ [CHR 0x22]"
proof -
  have "strip_suffix (CHR 0x22 # body @ [CHR 0x22]) [CHR 0x0D] = None"
    by (auto simp: strip_suffix_None_iff suffix_def)
  then show ?thesis
    by (simp add: strip_cr_def)
qed

lemma lines_from_line:
  "CHR 0x0A \<notin> set s \<Longrightarrow> lines_from current (s @ CHR 0x0A # rest) = strip_cr (current @ s) # lines_from [] rest"
  by (induction s arbitrary: current) auto

lemma str_lines_csv:
  assumes "\<forall>cols\<in>set table. cols \<noteq> [] \<and> (\<forall>s\<in>set cols. clean_field s)"
  shows "str_lines (concat (map (\<lambda>cols. csv_line cols @ nl) table)) = map csv_line table"
  using assms unfolding str_lines_def
proof (induction table)
  case (Cons cols table)
  obtain body where b: "csv_line cols = CHR 0x22 # body @ [CHR 0x22]"
    using Cons.prems by (auto intro: csv_line_shape [of cols])
  have "CHR 0x0A \<notin> set (csv_line cols)"
    using Cons.prems by (intro csv_line_no_newline) auto
  with Cons lines_from_line [of "csv_line cols" "[]" "concat (map (\<lambda>cols. csv_line cols @ nl) table)"] show ?case
    by (simp add: nl_def strip_cr_quoted b)
qed simp

text \<open>Characters that neither quote nor space a field.\<close>

definition plain_char :: "char \<Rightarrow> bool" where
  "plain_char c \<longleftrightarrow> c \<noteq> CHR 0x22 \<and> c \<noteq> CHR 0x0A \<and> (\<forall>w\<in>set white_space. c \<noteq> hd w \<and> c \<noteq> last w)"

lemma plain_clean:
  assumes "\<forall>c\<in>set s. plain_char c"
  shows "clean_field s"
proof -
  have "\<not> prefix w s" if w: "w \<in> set white_space" for w
  proof
    assume "prefix w s"
    with white_space_nonempty [OF w] have "hd w \<in> set s"
      using hd_in_set set_mono_prefix by blast
    with assms w show False by (auto simp: plain_char_def)
  qed
  moreover have "\<not> suffix w s" if w: "w \<in> set white_space" for w
  proof
    assume "suffix w s"
    with white_space_nonempty [OF w] have "last w \<in> set s"
      using last_in_set set_mono_suffix by blast
    with assms w show False by (auto simp: plain_char_def)
  qed
  ultimately have "trim s = s"
    by (intro trim_id) (simp_all add: no_leading_space_iff no_trailing_space_iff)
  then show ?thesis
    using assms by (auto simp: clean_field_def plain_char_def)
qed

lemma digit_plain: "is_ascii_digit c \<Longrightarrow> plain_char c"
  by (auto simp: plain_char_def is_ascii_digit_def white_space_eval)

lemma show_nat_clean: "clean_field (show_nat n)"
  by (rule plain_clean) (auto intro: digit_plain show_nat_digits)

lemma show_bool_clean: "clean_field (show_bool b)"
  by (rule plain_clean) (simp add: show_bool_def plain_char_def white_space_eval)

definition clean_record :: "'f benchmark_record \<Rightarrow> bool" where
  "clean_record r \<longleftrightarrow> list_all clean_field
     [br_run_id r, br_date_utc r, br_host_id r, br_cpu_model r, br_backend r,
      br_model_name r, br_model_arch r, br_quantization r, br_compression_profile r, br_compression_codec r,
      br_notes r]"

text \<open>A printer of numbers that the parser of the standard library undoes.\<close>

definition prints_floats :: "'f float_ops \<Rightarrow> ('f \<Rightarrow> string) \<Rightarrow> bool" where
  "prints_floats ops show_f \<longleftrightarrow> (\<forall>x. fl_parse ops (show_f x) = Some x \<and> clean_field (show_f x))"

lemma record_columns_clean:
  "clean_record r \<Longrightarrow> prints_floats ops show_f \<Longrightarrow> \<forall>s\<in>set (record_columns show_f r). clean_field s"
  by (simp add: clean_record_def prints_floats_def record_columns_def show_u64_def show_nat_clean show_bool_clean)

definition snake_chars :: string where
  "snake_chars = ''abcdefghijklmnopqrstuvwxyz0123456789_''"

lemma snake_plain: "list_all plain_char snake_chars"
  by code_simp

lemma csv_header_snake: "list_all (list_all (\<lambda>c. c \<in> set snake_chars)) csv_header"
  by code_simp

lemma csv_header_clean: "\<forall>s\<in>set csv_header. clean_field s"
  using csv_header_snake snake_plain by (auto simp: list_all_iff intro: plain_clean)

lemma parse_shown:
  "parse_u64_field (show_u64 x) field = Inr x"
  "parse_u32_field (show_nat (unat y)) field = Inr y"
  "parse_bool (show_bool b) field = Inr b"
proof -
  have "parse_u64 (show_u64 x) = Some (unat x)"
    using unsigned_less [of x] unfolding parse_u64_def show_u64_def by (intro from_str_radix_show_nat) simp
  then show "parse_u64_field (show_u64 x) field = Inr x"
    by (simp add: parse_u64_field_def)
  have "parse_u32 (show_nat (unat y)) = Some (unat y)"
    using unsigned_less [of y] unfolding parse_u32_def by (intro from_str_radix_show_nat) simp
  then show "parse_u32_field (show_nat (unat y)) field = Inr y"
    by (simp add: parse_u32_field_def)
  have "to_ascii_lowercase ''true'' = ''true''" "to_ascii_lowercase ''false'' = ''false''"
    by code_simp+
  then show "parse_bool (show_bool b) field = Inr b"
    by (simp add: parse_bool_def show_bool_def)
qed

lemma parse_row_written:
  assumes "clean_record r" "prints_floats ops show_f"
  shows "parse_row ops (csv_line (record_columns show_f r)) = Inr r"
proof -
  have "split_csv_row (csv_line (record_columns show_f r)) = record_columns show_f r"
    using record_columns_clean [OF assms] unfolding split_csv_row_def
    by (intro split_csv_line) (simp_all add: record_columns_def)
  moreover have "parse_f64 ops (show_f x) field = Inr x" for x field
    using assms(2) by (simp add: parse_f64_def prints_floats_def)
  ultimately show ?thesis
    by (simp add: parse_row_def record_columns_def parse_shown Let_def)
qed

lemma record_columns_nonempty: "record_columns show_f r \<noteq> []" "csv_header \<noteq> []"
  by (simp_all add: record_columns_def csv_header_def)

lemma parse_rows_written:
  assumes "\<forall>r\<in>set records. clean_record r" "prints_floats ops show_f"
  shows "parse_rows ops n (map (\<lambda>r. csv_line (record_columns show_f r)) records) = Inr records"
  using assms(1)
proof (induction records arbitrary: n)
  case (Cons r records)
  obtain body where b: "csv_line (record_columns show_f r) = CHR 0x22 # body @ [CHR 0x22]"
    by (rule csv_line_shape [OF record_columns_nonempty(1)])
  have "trim (csv_line (record_columns show_f r)) = csv_line (record_columns show_f r)"
    by (simp only: b trim_quoted_line)
  with Cons parse_row_written [of r ops show_f] assms(2) show ?case
    by (simp add: b)
qed simp

text \<open>
  C23: Reading a benchmark file back: for every list of records whose texts have no quotes, line feeds or
  outer white space (commas are fine), and every way to print numbers that \<open>parse::<f64>\<close> undoes, the
  parser returns exactly the records of the file that was written from them.
\<close>

theorem benchmark_csv_roundtrip:
  assumes "\<forall>r\<in>set records. clean_record r" "prints_floats ops show_f"
  shows "parse_benchmark_csv ops (csv_file show_f records) = Inr records"
proof -
  have "\<forall>cols\<in>set (csv_header # map (record_columns show_f) records). cols \<noteq> [] \<and> (\<forall>s\<in>set cols. clean_field s)"
    using assms(1) csv_header_clean record_columns_clean [OF _ assms(2)] by (auto simp: record_columns_nonempty)
  from str_lines_csv [OF this] have lines: "str_lines (csv_file show_f records)
      = csv_line csv_header # map (\<lambda>r. csv_line (record_columns show_f r)) records"
    by (simp add: csv_file_def comp_def)
  have "split_csv_row (csv_line csv_header) = csv_header"
    unfolding split_csv_row_def by (intro split_csv_line csv_header_clean record_columns_nonempty)
  then have "validate_header (csv_line csv_header) = Inr ()"
    by (simp add: validate_header_def csv_header_def)
  with lines parse_rows_written [OF assms] show ?thesis
    by (simp add: parse_benchmark_csv_def)
qed

section \<open>Errors\<close>

definition line_fine :: "'f float_ops \<Rightarrow> string \<Rightarrow> bool" where
  "line_fine ops l \<longleftrightarrow> trim l = [] \<or> is_ok (parse_row ops (trim l))"

text \<open>The line with index \<open>n\<close> is the first bad one, \<open>e\<close> its error.\<close>

definition first_bad_line :: "'f float_ops \<Rightarrow> string list \<Rightarrow> nat \<Rightarrow> error_chain \<Rightarrow> bool" where
  "first_bad_line ops ls n e \<longleftrightarrow> n < length ls \<and> (\<forall>m<n. line_fine ops (ls ! m))
     \<and> trim (ls ! n) \<noteq> [] \<and> parse_row ops (trim (ls ! n)) = Inl e"

lemma first_bad_line_Cons:
  "first_bad_line ops (l # ls) 0 e \<longleftrightarrow> trim l \<noteq> [] \<and> parse_row ops (trim l) = Inl e"
  "first_bad_line ops (l # ls) (Suc n) e \<longleftrightarrow> line_fine ops l \<and> first_bad_line ops ls n e"
  unfolding first_bad_line_def All_less_Suc2 nth_Cons_0 nth_Cons_Suc by (simp_all, argo)

lemma parse_rows_error:
  "parse_rows ops k ls = Inl err \<longleftrightarrow>
     (\<exists>n e. err = (''failed to parse CSV row '' @ show_nat (k + n + 2)) # e \<and> first_bad_line ops ls n e)"
proof (induction ls arbitrary: k)
  case Nil
  then show ?case by (simp add: first_bad_line_def)
next
  case (Cons l ls)
  let ?err = "\<lambda>n e. err = (''failed to parse CSV row '' @ show_nat n) # e"
  have split: "(\<exists>n e. ?err (k + n + 2) e \<and> first_bad_line ops (l # ls) n e) \<longleftrightarrow>
      (\<exists>e. ?err (k + 2) e \<and> trim l \<noteq> [] \<and> parse_row ops (trim l) = Inl e)
      \<or> line_fine ops l \<and> (\<exists>n e. ?err (Suc k + n + 2) e \<and> first_bad_line ops ls n e)"
    (is "?lhs \<longleftrightarrow> ?now \<or> ?later")
  proof
    assume ?lhs
    then obtain n e where ne: "?err (k + n + 2) e" "first_bad_line ops (l # ls) n e" by blast
    then show "?now \<or> ?later"
      by (cases n) (auto simp: first_bad_line_Cons)
  next
    assume "?now \<or> ?later"
    then show ?lhs
    proof
      assume ?now
      then obtain e where "?err (k + 0 + 2) e" "first_bad_line ops (l # ls) 0 e"
        by (auto simp: first_bad_line_Cons)
      then show ?lhs by blast
    next
      assume ?later
      then obtain n e where "?err (k + Suc n + 2) e" "first_bad_line ops (l # ls) (Suc n) e"
        by (auto simp: first_bad_line_Cons)
      then show ?lhs by blast
    qed
  qed
  show ?case
  proof (cases "trim l = []")
    case True
    with Cons.IH [of "Suc k"] show ?thesis
      unfolding split by (simp add: line_fine_def)
  next
    case False
    with Cons.IH [of "Suc k"] show ?thesis
      unfolding split by (cases "parse_row ops (trim l)") (auto simp: result_simps line_fine_def)
  qed
qed

text \<open>
  C24: What a failing parse reports: for a file with a valid header, parsing fails exactly when some line
  is not blank and not a row, and the error names the number of the first such line, counted from 1
  with blank lines, together with the error of that row.
\<close>

theorem benchmark_error_names_first_bad_line:
  assumes "str_lines content = header # ls" "validate_header header = Inr ()"
  shows "parse_benchmark_csv ops content = Inl err \<longleftrightarrow>
     (\<exists>n e. err = (''failed to parse CSV row '' @ show_nat (n + 2)) # e \<and> first_bad_line ops ls n e)"
  using parse_rows_error [of ops 0 ls err] by (simp add: parse_benchmark_csv_def assms)

text \<open>The byte order mark that PowerShell writes in front of a file.\<close>

definition bom :: string where
  "bom = [CHR 0xEF, CHR 0xBB, CHR 0xBF]"

lemma split_csv_head: "\<exists>t. split_csv q current cs \<noteq> [] \<and> hd (split_csv q current cs) = trim (current @ t)"
proof (induction q current cs rule: split_csv.induct)
  case (1 q current)
  show ?case by (auto intro: exI [of _ "[]"])
next
  case (2 q current ch cs)
  then show ?case
    by (auto intro: exI [of _ "[]"])
qed

lemma trim_end_bom: "prefix bom s \<Longrightarrow> prefix bom (trim_end s)"
proof (induction s rule: trim_end.induct)
  case (1 s)
  show ?case
  proof (cases "find (\<lambda>w. suffix w s) white_space")
    case None
    with 1 show ?thesis by (subst trim_end.simps) simp
  next
    case (Some w)
    then have w: "w \<in> set white_space" "suffix w s"
      by (auto simp: find_Some_iff)
    obtain r where s: "s = bom @ r"
      using 1(2) by (auto simp: prefix_def)
    have "length w \<le> length r"
    proof (rule ccontr)
      assume "\<not> length w \<le> length r"
      moreover obtain x where "bom @ r = x @ w"
        using w(2) s by (auto simp: suffix_def)
      ultimately obtain y zs where "w = y @ r" "y \<noteq> []" "bom = zs @ y"
        by (auto simp: append_eq_append_conv2)
      with w(1) show False
        by (auto simp: white_space_eval bom_def append_eq_Cons_conv Cons_eq_append_conv)
    qed
    then have "prefix bom (take (length s - length w) s)"
      by (simp add: s)
    with 1(1) Some show ?thesis
      by (subst trim_end.simps) simp
  qed
qed

lemma trim_bom: "prefix bom (trim (bom @ t))"
proof -
  have "\<not> prefix w (bom @ t)" if "w \<in> set white_space" for w
    using that by (auto simp: white_space_eval bom_def)
  then have "trim_start (bom @ t) = bom @ t"
    by (intro trim_start_id) (simp add: no_leading_space_iff)
  then show ?thesis
    by (simp add: trim_def trim_end_bom)
qed

text \<open>
  A file with a byte order mark is never read: whatever follows the mark, the parser returns an error,
  because the mark stays in front of the name of the first column.
\<close>

lemma benchmark_bom_rejected: "\<exists>err. parse_benchmark_csv ops (bom @ content) = Inl err"
proof -
  obtain header ls x where lines: "str_lines (bom @ content) = header # ls" and h: "header = bom @ x"
  proof -
    have "\<exists>x ls. lines_from (bom @ c) cs = (bom @ x) # ls" for c cs
    proof (induction cs arbitrary: c)
      case Nil
      then show ?case by (simp add: bom_def)
    next
      case (Cons ch cs)
      have "\<exists>x. strip_cr (bom @ c) = bom @ x"
        by (cases c rule: rev_cases) (auto simp: strip_cr_def strip_suffix_Some_iff bom_def split: option.splits)
      with Cons [of "c @ [ch]"] show ?case by auto
    qed
    from this [of "[]" content] that show thesis
      by (auto simp: str_lines_def bom_def)
  qed
  obtain t where t: "split_csv_row header \<noteq> []" "hd (split_csv_row header) = trim (bom @ t)"
    using split_csv_head [of False bom x] by (auto simp: split_csv_row_def h bom_def)
  have "prefix bom (split_csv_row header ! 0)"
    using t trim_bom [of t] by (simp add: hd_conv_nth)
  then have "split_csv_row header ! 0 \<noteq> ''run_id''"
    by (auto simp: bom_def)
  then have "\<exists>err. validate_header header = Inl err"
    by (simp add: validate_header_def Let_def)
  with lines show ?thesis
    by (auto simp: parse_benchmark_csv_def)
qed

section \<open>Summaries\<close>

text \<open>What a filter means: every criterion that is set holds.\<close>

definition selected :: "run_filter \<Rightarrow> 'f benchmark_record \<Rightarrow> bool" where
  "selected flt r \<longleftrightarrow> (rf_success_only flt \<longrightarrow> br_run_success r)
     \<and> rf_model_name flt \<in> {None, Some (br_model_name r)}
     \<and> rf_compression_profile flt \<in> {None, Some (br_compression_profile r)}
     \<and> rf_context_tokens flt \<in> {None, Some (br_context_tokens r)}"

lemma filter_runs_selected: "filter_runs records flt = filter (selected flt) records"
  unfolding filter_runs_def selected_def by (intro filter_cong refl) (auto split: option.splits)

lemma sum_u32_spec:
  "unat acc + sum_list (map unat xs) < 2 ^ 32 \<Longrightarrow> sum_u32 checked acc xs = Done (of_nat (unat acc + sum_list (map unat xs)))"
  "2 ^ 32 \<le> unat acc + sum_list (map unat xs) \<Longrightarrow> sum_u32 True acc xs = Panic"
  "sum_u32 False acc xs = Done (of_nat (unat acc + sum_list (map unat xs)))"
proof -
  have add: "unat (acc + x) = unat acc + unat x" if "unat acc + unat x < 2 ^ 32" for acc x :: u32
    using that by (simp add: unat_word_ariths)
  show "unat acc + sum_list (map unat xs) < 2 ^ 32 \<Longrightarrow> sum_u32 checked acc xs = Done (of_nat (unat acc + sum_list (map unat xs)))"
    by (induction xs arbitrary: acc) (simp_all add: add add.assoc)
  show "2 ^ 32 \<le> unat acc + sum_list (map unat xs) \<Longrightarrow> sum_u32 True acc xs = Panic"
  proof (induction xs arbitrary: acc)
    case Nil
    have "unat acc < 2 ^ LENGTH(32)" by (rule unsigned_less)
    with Nil show ?case by simp
  next
    case (Cons x xs)
    then show ?case
      by (cases "unat acc + unat x < 2 ^ 32") (simp_all add: add add.assoc)
  qed
  show "sum_u32 False acc xs = Done (of_nat (unat acc + sum_list (map unat xs)))"
    by (induction xs arbitrary: acc) (simp_all add: add.assoc)
qed

definition oom_sum :: "'f benchmark_record list \<Rightarrow> nat" where
  "oom_sum rs = sum_list (map (\<lambda>r. unat (br_oom_events r)) rs)"

lemma summarize_group_fields:
  "summarize_group checked ops rs = Done s \<Longrightarrow> rsm_count s = length rs
     \<and> sum_u32 checked 0 (map br_oom_events rs) = Done (rsm_total_oom_events s)"
  by (auto simp: summarize_group_def Let_def split: if_splits outcome.splits)

text \<open>
  What a summary says of the runs it was asked for: it counts exactly the records that meet every
  criterion set in the filter, and adds up their OOM events modulo \<open>2 ^ 32\<close>; it panics exactly in a
  build with overflow checks whose selected runs had \<open>2 ^ 32\<close> such events or more.
\<close>

theorem summary_counts_and_totals:
  "(case summarize_group checked ops (filter_runs records flt) of
      Panic \<Rightarrow> checked \<and> 2 ^ 32 \<le> oom_sum (filter (selected flt) records)
    | Done s \<Rightarrow> rsm_count s = length (filter (selected flt) records)
        \<and> unat (rsm_total_oom_events s) = oom_sum (filter (selected flt) records) mod 2 ^ 32)
   \<and> (summarize_group True ops (filter_runs records flt) = Panic
        \<longleftrightarrow> 2 ^ 32 \<le> oom_sum (filter (selected flt) records))"
proof -
  let ?rs = "filter (selected flt) records"
  have sum: "oom_sum ?rs = sum_list (map unat (map br_oom_events ?rs))"
    by (simp add: oom_sum_def comp_def)
  note spec = sum_u32_spec [of 0 "map br_oom_events ?rs", folded sum, simplified]
  have panic: "summarize_group c ops ?rs = Panic \<longleftrightarrow> sum_u32 c 0 (map br_oom_events ?rs) = Panic" for c
    by (auto simp: summarize_group_def Let_def split: outcome.splits)
  have total: "unat (rsm_total_oom_events s) = oom_sum ?rs mod 2 ^ 32"
    if "sum_u32 c 0 (map br_oom_events ?rs) = Done (rsm_total_oom_events s)" for c s
  proof -
    have "rsm_total_oom_events s = of_nat (oom_sum ?rs)"
      using that spec by (cases "oom_sum ?rs < 2 ^ 32"; cases c) (auto simp: not_less)
    then show ?thesis by (simp add: unat_of_nat)
  qed
  have "sum_u32 True 0 (map br_oom_events ?rs) = Panic \<longleftrightarrow> 2 ^ 32 \<le> oom_sum ?rs"
    using spec by (cases "oom_sum ?rs < 2 ^ 32") (auto simp: not_less)
  with panic total summarize_group_fields [of checked ops ?rs] spec show ?thesis
    unfolding filter_runs_selected by (cases checked) (auto split: outcome.splits)
qed

section \<open>Instances\<close>

text \<open>Whole numbers in place of floating point numbers.\<close>

definition word_floats :: "u64 float_ops" where
  "word_floats = \<lparr>fl_parse = (\<lambda>s. map_option of_nat (parse_u64 s)), fl_zero = 0, fl_sum_start = 0,
     fl_add = (+), fl_div = (div), fl_of_nat = of_nat\<rparr>"

lemma word_floats_print: "prints_floats word_floats show_u64"
proof -
  have "parse_u64 (show_u64 x) = Some (unat x)" for x
    using unsigned_less [of x] unfolding parse_u64_def show_u64_def by (intro from_str_radix_show_nat) simp
  then show ?thesis
    by (simp add: prints_floats_def word_floats_def) (simp add: show_u64_def show_nat_clean)
qed

definition sample_run :: "u64 benchmark_record" where
  "sample_run =
     \<lparr>br_run_id = ''R1'', br_date_utc = [], br_host_id = [], br_ram_class_gb = 8, br_cpu_model = ''a,b'', br_backend = [],
      br_model_name = ''m'', br_model_arch = [], br_total_params_b = 3, br_active_params_b = 3, br_quantization = [],
      br_context_tokens = 1024, br_output_tokens = 128, br_concurrency = 1, br_compression_profile = ''none'',
      br_compression_codec = [], br_compression_target_pct = 0, br_zswap_enabled = False, br_tokens_per_sec = 10,
      br_ttft_ms = 184, br_p95_token_latency_ms = 39, br_peak_rss_gb = 3, br_swap_used_gb = 0,
      br_psi_mem_some_avg10 = 0, br_psi_mem_full_avg10 = 0, br_cpu_avg_pct = 65, br_cpu_peak_pct = 92,
      br_oom_events = 0, br_run_success = True, br_notes = []\<rparr>"

lemma sample_run_clean: "clean_record sample_run"
proof -
  have "list_all plain_char s \<Longrightarrow> clean_field s" for s
    by (rule plain_clean) (simp add: list_all_iff)
  moreover have "list_all (list_all plain_char) [''R1'', ''a,b'', ''m'', ''none'']"
    by code_simp
  ultimately show ?thesis
    by (simp add: clean_record_def sample_run_def)
qed

theorem benchmark_csv_roundtrip_witness:
  "parse_benchmark_csv word_floats (csv_file show_u64 [sample_run, sample_run]) = Inr [sample_run, sample_run]"
  by (rule benchmark_csv_roundtrip) (simp_all add: sample_run_clean word_floats_print)

lemma trim_x: "trim ''x'' = ''x''"
  by code_simp

lemma row_x: "parse_row word_floats ''x'' = Inl [''expected at least 30 fields, found 1'']"
proof -
  have "split_csv_row ''x'' = [''x'']" "show_nat 1 = ''1''"
    by code_simp+
  then show ?thesis by (simp add: parse_row_def)
qed

theorem benchmark_error_names_first_bad_line_witness:
  "parse_benchmark_csv word_floats (csv_line csv_header @ nl @ nl @ ''x'')
     = Inl [''failed to parse CSV row 3'', ''expected at least 30 fields, found 1'']"
proof -
  have lines: "str_lines (csv_line csv_header @ nl @ nl @ ''x'') = csv_line csv_header # [[], ''x'']"
    by code_simp
  have header: "validate_header (csv_line csv_header) = Inr ()"
    by code_simp
  have bad: "first_bad_line word_floats [[], ''x''] 1 [''expected at least 30 fields, found 1'']"
    using trim_x row_x by (simp add: first_bad_line_Cons line_fine_def)
  have "''failed to parse CSV row 3'' = ''failed to parse CSV row '' @ show_nat (1 + 2)"
    by code_simp
  with bad show ?thesis
    using benchmark_error_names_first_bad_line [OF lines header] by blast
qed

end
