(* ===== verification/Json.thy ===== *)
theory Json
  imports Llmos_Prelude
begin

text \<open>
  JSON values (\<open>serde_json::Value\<close>) as the sources build and inspect them, and the parts of \<open>std::fmt\<close> that
  pad a field to a width. Parsing and printing JSON text are parameters where they are used. A number
  is held as its text.
\<close>

datatype json =
  JNull | JBool bool | JNumber string | JString string | JArray "json list" | JObject "(string \<times> json) list"

fun json_get :: "json \<Rightarrow> string \<Rightarrow> json option" where
  "json_get (JObject kvs) key = map_of kvs key"
| "json_get v key = None"

fun json_as_str :: "json \<Rightarrow> string option" where
  "json_as_str (JString s) = Some s"
| "json_as_str v = None"

text \<open>Widths count characters, that is the bytes that do not continue one.\<close>

definition char_count :: "string \<Rightarrow> nat" where
  "char_count s = length (filter (\<lambda>c. \<not> (128 \<le> (of_char c :: nat) \<and> of_char c < (192 :: nat))) s)"

definition pad_right :: "nat \<Rightarrow> string \<Rightarrow> string" where
  "pad_right w s = s @ replicate (w - char_count s) CHR '' ''"

definition pad_left :: "nat \<Rightarrow> string \<Rightarrow> string" where
  "pad_left w s = replicate (w - char_count s) CHR '' '' @ s"

end
