(* ===== verification/Mock_Plugin.thy ===== *)
theory Mock_Plugin
  imports Json
begin

text \<open>
  \<^verbatim>\<open>services/mock-mcp-plugin/src/main.rs\<close>: a JSON-RPC server on standard input and output. Reading and writing JSON text (serde) are parameters, and so is whether a write to
  standard output succeeds.
\<close>

section \<open>Values and messages\<close>

record json_rpc_request =
  jq_id :: "json option"
  jq_method :: string
  jq_params :: json

record json_rpc_error =
  je_code :: int
  je_message :: string

record json_rpc_response =
  jr_jsonrpc :: string
  jr_id :: json
  jr_result :: "json option"
  jr_error :: "json_rpc_error option"

definition response_success :: "json \<Rightarrow> json \<Rightarrow> json_rpc_response" where
  "response_success i result = \<lparr>jr_jsonrpc = ''2.0'', jr_id = i, jr_result = Some result, jr_error = None\<rparr>"

definition response_error :: "json \<Rightarrow> int \<Rightarrow> string \<Rightarrow> json_rpc_response" where
  "response_error i code message =
     \<lparr>jr_jsonrpc = ''2.0'', jr_id = i, jr_result = None, jr_error = Some \<lparr>je_code = code, je_message = message\<rparr>\<rparr>"

section \<open>Handling\<close>

definition unwrap_str :: "json option \<Rightarrow> string" where
  "unwrap_str v = (case Option.bind v json_as_str of None \<Rightarrow> [] | Some s \<Rightarrow> s)"

definition handle_tool_call :: "json \<Rightarrow> json \<Rightarrow> json_rpc_response" where
  "handle_tool_call i params =
     (let tool_name = unwrap_str (json_get params ''name'') in
      if tool_name = ''echo''
      then let message = unwrap_str (Option.bind (json_get params ''arguments'') (\<lambda>a. json_get a ''message''))
           in response_success i (JObject [(''content'',
                JArray [JObject [(''type'', JString ''text''), (''text'', JString message)]])])
      else response_error i (- 32602) (''unknown tool: '' @ tool_name))"

definition initialize_result :: "string \<Rightarrow> json" where
  "initialize_result version =
     JObject [(''protocolVersion'', JString ''2024-11-05''),
              (''capabilities'', JObject [(''tools'', JObject [])]),
              (''serverInfo'', JObject [(''name'', JString ''mock-mcp-echo''), (''version'', JString version)])]"

definition tools_list_result :: json where
  "tools_list_result =
     JObject [(''tools'', JArray
       [JObject [(''name'', JString ''echo''), (''description'', JString ''Echoes back the input message.''),
         (''inputSchema'', JObject
           [(''type'', JString ''object''),
            (''properties'', JObject [(''message'', JObject [(''type'', JString ''string''),
                (''description'', JString ''The message to echo back.'')])]),
            (''required'', JArray [JString ''message''])])]])]"

definition handle_request :: "string \<Rightarrow> json_rpc_request \<Rightarrow> json_rpc_response" where
  "handle_request version request =
     (let i = (case jq_id request of None \<Rightarrow> JNull | Some i \<Rightarrow> i) in
      if jq_method request = ''initialize'' then response_success i (initialize_result version)
      else if jq_method request = ''tools/list'' then response_success i tools_list_result
      else if jq_method request = ''tools/call'' then handle_tool_call i (jq_params request)
      else if jq_method request = ''ping'' then response_success i (JObject [])
      else response_error i (- 32601) (''method not found: '' @ jq_method request))"

section \<open>The server loop\<close>

text \<open>
  The result of \<open>main\<close> and the lines it wrote. A line of input is \<open>Inl\<close> when reading it fails;
  \<open>write_ok k\<close> says whether the \<open>k\<close>-th write and flush succeed.
\<close>

definition write_response ::
  "(json_rpc_response \<Rightarrow> string + string) \<Rightarrow> (nat \<Rightarrow> bool) \<Rightarrow> json_rpc_response \<Rightarrow> string list
     \<Rightarrow> string + string list" where
  "write_response to_json write_ok response written =
     and_then (to_json response) (\<lambda>out.
       if write_ok (length written) then Inr (written @ [out]) else Inl ''failed to write to standard output'')"

fun plugin_loop ::
  "string \<Rightarrow> (string \<Rightarrow> string + json_rpc_request) \<Rightarrow> (json_rpc_response \<Rightarrow> string + string) \<Rightarrow> (nat \<Rightarrow> bool)
     \<Rightarrow> (string + string) list \<Rightarrow> string list \<Rightarrow> (string + unit) \<times> string list" where
  "plugin_loop version from_json to_json write_ok [] written = (Inr (), written)"
| "plugin_loop version from_json to_json write_ok (Inl err # input) written = (Inl err, written)"
| "plugin_loop version from_json to_json write_ok (Inr line # input) written =
     (if trim line = [] then plugin_loop version from_json to_json write_ok input written
      else case from_json (trim line) of
        Inl err \<Rightarrow>
          (case write_response to_json write_ok (response_error JNull (- 32700) (''parse error: '' @ err)) written of
             Inl e \<Rightarrow> (Inl e, written)
           | Inr written' \<Rightarrow> plugin_loop version from_json to_json write_ok input written')
      | Inr request \<Rightarrow>
          if jq_id request = None then plugin_loop version from_json to_json write_ok input written
          else (case write_response to_json write_ok (handle_request version request) written of
             Inl e \<Rightarrow> (Inl e, written)
           | Inr written' \<Rightarrow> plugin_loop version from_json to_json write_ok input written'))"

definition plugin_main ::
  "string \<Rightarrow> (string \<Rightarrow> string + json_rpc_request) \<Rightarrow> (json_rpc_response \<Rightarrow> string + string) \<Rightarrow> (nat \<Rightarrow> bool)
     \<Rightarrow> (string + string) list \<Rightarrow> (string + unit) \<times> string list" where
  "plugin_main version from_json to_json write_ok input =
     plugin_loop version from_json to_json write_ok input []"

section \<open>What the server promises\<close>

text \<open>
  JSON-RPC 2.0: what is due for a line is nothing for a blank line or a notification, and otherwise one
  response that carries the identifier of the request and either a result or an error.
\<close>

definition answers :: "json option \<Rightarrow> json_rpc_response \<Rightarrow> bool" where
  "answers i response \<longleftrightarrow> jr_jsonrpc response = ''2.0'' \<and> jr_id response = (case i of None \<Rightarrow> JNull | Some i \<Rightarrow> i)
     \<and> (jr_result response = None) = (jr_error response \<noteq> None)"

definition due :: "string \<Rightarrow> (string \<Rightarrow> string + json_rpc_request) \<Rightarrow> string \<Rightarrow> json_rpc_response option" where
  "due version from_json line =
     (if trim line = [] then None
      else case from_json (trim line) of
        Inl err \<Rightarrow> Some (response_error JNull (- 32700) (''parse error: '' @ err))
      | Inr request \<Rightarrow> if jq_id request = None then None else Some (handle_request version request))"

lemma handle_request_answers: "answers (jq_id request) (handle_request version request)"
  by (auto simp: handle_request_def handle_tool_call_def answers_def response_success_def response_error_def Let_def)

lemma plugin_loop_due:
  assumes "\<forall>k. write_ok k" "\<forall>r. to_json r = Inr (show_response r)"
  shows "plugin_loop version from_json to_json write_ok (map Inr lines) written
    = (Inr (), written @ map show_response (List.map_filter (due version from_json) lines))"
proof (induction lines arbitrary: written)
  case (Cons line lines)
  then show ?case
    by (auto simp: due_def write_response_def assms List.map_filter_simps split: sum.splits)
qed (simp add: List.map_filter_simps)

text \<open>
  C25: The mock plugin answers as JSON-RPC demands: as long as its input can be read and its output
  written, it writes exactly the responses that are due, one line each and in the order of the requests,
  and ends without error; every response that is due has the identifier of its request (null when the
  line does not parse), version 2.0, and either a result or an error.
\<close>

theorem plugin_answers_in_order:
  assumes "\<forall>k. write_ok k" "\<forall>r. to_json r = Inr (show_response r)"
  shows "plugin_main version from_json to_json write_ok (map Inr lines)
      = (Inr (), map show_response (List.map_filter (due version from_json) lines))
    \<and> (\<forall>line response. due version from_json line = Some response \<longrightarrow>
        answers (case from_json (trim line) of Inl err \<Rightarrow> None | Inr request \<Rightarrow> jq_id request) response)"
proof
  show "plugin_main version from_json to_json write_ok (map Inr lines)
      = (Inr (), map show_response (List.map_filter (due version from_json) lines))"
    using plugin_loop_due [OF assms, of version from_json lines "[]"] by (simp add: plugin_main_def)
  show "\<forall>line response. due version from_json line = Some response \<longrightarrow>
        answers (case from_json (trim line) of Inl err \<Rightarrow> None | Inr request \<Rightarrow> jq_id request) response"
    using handle_request_answers
    by (auto simp: due_def answers_def response_error_def split: if_splits sum.splits)
qed

definition sample_rpc :: "string \<Rightarrow> string + json_rpc_request" where
  "sample_rpc s = (if s = ''p'' then Inr \<lparr>jq_id = Some (JNumber ''1''), jq_method = ''ping'', jq_params = JNull\<rparr>
     else Inl ''expected value'')"

theorem plugin_answers_in_order_witness:
  "plugin_main ''0.1.0'' sample_rpc (\<lambda>r. Inr (case jr_error r of None \<Rightarrow> ''ok'' | Some e \<Rightarrow> je_message e)) (\<lambda>_. True)
     (map Inr [''p'', [], ''q'']) = (Inr (), [''ok'', ''parse error: expected value''])"
proof -
  have "trim ''p'' = ''p''" "trim ''q'' = ''q''"
    by code_simp+
  then have "List.map_filter (due ''0.1.0'' sample_rpc) [''p'', [], ''q'']
    = [response_success (JNumber ''1'') (JObject []), response_error JNull (- 32700) ''parse error: expected value'']"
    by (simp add: due_def sample_rpc_def handle_request_def List.map_filter_simps)
  then show ?thesis
    using plugin_answers_in_order [of "\<lambda>_. True" "\<lambda>r. Inr (case jr_error r of None \<Rightarrow> ''ok'' | Some e \<Rightarrow> je_message e)"
      "\<lambda>r. case jr_error r of None \<Rightarrow> ''ok'' | Some e \<Rightarrow> je_message e" "''0.1.0''" sample_rpc "[''p'', [], ''q'']"]
    by (simp add: response_success_def response_error_def)
qed

end
