(* ===== verification/Cli_Data.thy ===== *)
theory Cli_Data
  imports Benchmark Json "HOL-Library.AList"
begin

text \<open>
  The commands of \<^verbatim>\<open>tools/llmos-cli\<close> that read a file: \<open>profile\<close> (\<^verbatim>\<open>profile.rs\<close>) over
  \<^verbatim>\<open>crates/kernel-profile\<close>, and \<open>benchmark\<close> (\<^verbatim>\<open>benchmark.rs\<close>) over \<^verbatim>\<open>crates/benchmark-ingest\<close>, with
  \<^verbatim>\<open>output.rs\<close>. A command returns an error or the lines it prints. TOML parsing, JSON printing and the
  printing of floating point numbers are parameters.
\<close>

section \<open>Output\<close>

datatype output_format = TextOutput | JsonOutput

definition render_lines :: "string list \<Rightarrow> string" where
  "render_lines ls = join nl ls"

record 'f float_show =
  fs_display :: "'f \<Rightarrow> string"
  fs_fixed :: "nat \<Rightarrow> 'f \<Rightarrow> string"
  fs_json :: "'f \<Rightarrow> json"

definition json_u64 :: "u64 \<Rightarrow> json" where
  "json_u64 n = JNumber (show_u64 n)"

definition json_u32 :: "u32 \<Rightarrow> json" where
  "json_u32 n = JNumber (show_nat (unat n))"

section \<open>Kernel profiles\<close>

record 'f memory_profile =
  mp_zram_fraction :: "'f"
  mp_compression_algo :: string
  mp_swappiness :: u32

record 'f profile_set =
  ps_profiles :: "(string \<times> 'f memory_profile) list"

record cgroup_defaults =
  cg_memory_max_bytes :: "u64 option"
  cg_memory_high_bytes :: "u64 option"
  cg_cpu_weight :: u32

definition cgroup_defaults_default :: cgroup_defaults where
  "cgroup_defaults_default = \<lparr>cg_memory_max_bytes = None, cg_memory_high_bytes = None, cg_cpu_weight = 100\<rparr>"

datatype oom_policy = OomKill | OomPause | OomCompressThenKill

definition parse_profiles :: "(string \<Rightarrow> string + 'f profile_set) \<Rightarrow> string \<Rightarrow> string + 'f profile_set" where
  "parse_profiles from_toml content = map_err (\<lambda>_. ''failed to parse memory profiles TOML'') (from_toml content)"

definition load_profiles ::
  "(string \<Rightarrow> string + 'f profile_set) \<Rightarrow> (string \<Rightarrow> string option) \<Rightarrow> string \<Rightarrow> string + 'f profile_set" where
  "load_profiles from_toml read_file path =
     and_then (ok_or (''failed to read profile file at '' @ path) (read_file path)) (parse_profiles from_toml)"

definition resolve_profile :: "'f profile_set \<Rightarrow> string \<Rightarrow> 'f memory_profile option" where
  "resolve_profile s name = map_of (ps_profiles s) name"

datatype profile_command = ProfileList output_format | ProfileShow string output_format

definition profile_json :: "'f float_show \<Rightarrow> string \<Rightarrow> 'f memory_profile \<Rightarrow> json" where
  "profile_json fs name p = JObject [(''name'', JString name), (''zram_fraction'', fs_json fs (mp_zram_fraction p)),
     (''compression_algo'', JString (mp_compression_algo p)), (''swappiness'', json_u32 (mp_swappiness p))]"

definition profile_header :: string where
  "profile_header = pad_right 20 ''NAME'' @ '' '' @ pad_left 14 ''ZRAM_FRACTION'' @ '' '' @ pad_left 12 ''ALGO'' @ '' ''
     @ pad_left 10 ''SWAPPINESS''"

definition profile_line :: "'f float_show \<Rightarrow> string \<Rightarrow> 'f memory_profile \<Rightarrow> string" where
  "profile_line fs name p = pad_right 20 name @ '' '' @ pad_left 14 (fs_fixed fs 1 (mp_zram_fraction p)) @ '' ''
     @ pad_left 12 (mp_compression_algo p) @ '' '' @ pad_left 10 (show_nat (unat (mp_swappiness p)))"

definition profile_list_lines ::
  "'f float_show \<Rightarrow> (json \<Rightarrow> string + string) \<Rightarrow> output_format \<Rightarrow> 'f profile_set \<Rightarrow> string + string list" where
  "profile_list_lines fs render_json fmt s =
     (let names = sort (map fst (ps_profiles s)) in
      case fmt of
        JsonOutput \<Rightarrow>
          let entries = List.map_filter (\<lambda>name. map_option (profile_json fs name) (map_of (ps_profiles s) name)) names
          in and_then (render_json (JObject [(''profiles'', JArray entries)])) (\<lambda>out. Inr [out])
      | TextOutput \<Rightarrow>
          Inr (profile_header #
            List.map_filter (\<lambda>name. map_option (profile_line fs name) (map_of (ps_profiles s) name)) names))"

definition profile_show_lines ::
  "'f float_show \<Rightarrow> (json \<Rightarrow> string + string) \<Rightarrow> output_format \<Rightarrow> string \<Rightarrow> 'f memory_profile \<Rightarrow> string + string list" where
  "profile_show_lines fs render_json fmt name p =
     (case fmt of
        JsonOutput \<Rightarrow> and_then (render_json (profile_json fs name p)) (\<lambda>out. Inr [out])
      | TextOutput \<Rightarrow>
          Inr [''Profile: '' @ name, ''  zram_fraction:    '' @ fs_display fs (mp_zram_fraction p),
               ''  compression_algo: '' @ mp_compression_algo p,
               ''  swappiness:       '' @ show_nat (unat (mp_swappiness p))])"

definition run_profile ::
  "'f float_show \<Rightarrow> (json \<Rightarrow> string + string) \<Rightarrow> (string \<Rightarrow> string + 'f profile_set) \<Rightarrow> (string \<Rightarrow> string option)
     \<Rightarrow> string \<Rightarrow> profile_command \<Rightarrow> string + string list" where
  "run_profile fs render_json from_toml read_file config command =
     and_then (load_profiles from_toml read_file config) (\<lambda>s.
       case command of
         ProfileList fmt \<Rightarrow> profile_list_lines fs render_json fmt s
       | ProfileShow name fmt \<Rightarrow>
           (case resolve_profile s name of
              Some p \<Rightarrow> profile_show_lines fs render_json fmt name p
            | None \<Rightarrow> Inl (''profile '' @ quote_text name @ '' not found'')))"

section \<open>Benchmarks\<close>

record summary_args =
  sa_model :: "string option"
  sa_profile :: "string option"
  sa_context_tokens :: "u64 option"
  sa_success_only :: bool
  sa_format :: output_format

record list_args =
  la_model :: "string option"
  la_profile :: "string option"
  la_success_only :: bool
  la_limit :: nat
  la_format :: output_format

datatype benchmark_command = BenchmarkSummary summary_args | BenchmarkList list_args

definition summary_lines ::
  "'f float_show \<Rightarrow> (json \<Rightarrow> string + string) \<Rightarrow> output_format \<Rightarrow> 'f run_summary \<Rightarrow> string + string list" where
  "summary_lines fs render_json fmt s =
     (case fmt of
        JsonOutput \<Rightarrow>
          and_then (render_json (JObject
            [(''count'', JNumber (show_nat (rsm_count s))), (''avg_tokens_per_sec'', fs_json fs (rsm_avg_tokens_per_sec s)),
             (''avg_ttft_ms'', fs_json fs (rsm_avg_ttft_ms s)), (''avg_p95_latency_ms'', fs_json fs (rsm_avg_p95_latency_ms s)),
             (''avg_peak_rss_gb'', fs_json fs (rsm_avg_peak_rss_gb s)), (''total_oom_events'', json_u32 (rsm_total_oom_events s))]))
          (\<lambda>out. Inr [out])
      | TextOutput \<Rightarrow>
          Inr [''Benchmark Summary ('' @ show_nat (rsm_count s) @ '' runs)'',
               ''  avg tokens/sec:     '' @ fs_fixed fs 1 (rsm_avg_tokens_per_sec s),
               ''  avg TTFT (ms):      '' @ fs_fixed fs 1 (rsm_avg_ttft_ms s),
               ''  avg p95 latency:    '' @ fs_fixed fs 1 (rsm_avg_p95_latency_ms s),
               ''  avg peak RSS (GB):  '' @ fs_fixed fs 2 (rsm_avg_peak_rss_gb s),
               ''  total OOM events:   '' @ show_nat (unat (rsm_total_oom_events s))])"

definition run_json :: "'f float_show \<Rightarrow> 'f benchmark_record \<Rightarrow> json" where
  "run_json fs r = JObject
     [(''run_id'', JString (br_run_id r)), (''model_name'', JString (br_model_name r)),
      (''compression_profile'', JString (br_compression_profile r)), (''context_tokens'', json_u64 (br_context_tokens r)),
      (''tokens_per_sec'', fs_json fs (br_tokens_per_sec r)), (''peak_rss_gb'', fs_json fs (br_peak_rss_gb r)),
      (''run_success'', JBool (br_run_success r))]"

definition list_header :: string where
  "list_header = pad_right 8 ''RUN_ID'' @ '' '' @ pad_right 20 ''MODEL'' @ '' '' @ pad_right 18 ''PROFILE'' @ '' ''
     @ pad_left 6 ''CTX'' @ '' '' @ pad_left 8 ''TPS'' @ '' '' @ pad_left 8 ''RSS_GB'' @ '' '' @ pad_left 7 ''OK''"

text \<open>A \<open>bool\<close> is padded like its text.\<close>

definition run_line :: "'f float_show \<Rightarrow> 'f benchmark_record \<Rightarrow> string" where
  "run_line fs r = pad_right 8 (br_run_id r) @ '' '' @ pad_right 20 (br_model_name r) @ '' ''
     @ pad_right 18 (br_compression_profile r) @ '' '' @ pad_left 6 (show_u64 (br_context_tokens r)) @ '' ''
     @ pad_left 8 (fs_fixed fs 1 (br_tokens_per_sec r)) @ '' '' @ pad_left 8 (fs_fixed fs 2 (br_peak_rss_gb r)) @ '' ''
     @ pad_left 7 (show_bool (br_run_success r))"

definition list_lines ::
  "'f float_show \<Rightarrow> (json \<Rightarrow> string + string) \<Rightarrow> output_format \<Rightarrow> 'f benchmark_record list \<Rightarrow> string + string list" where
  "list_lines fs render_json fmt rs =
     (case fmt of
        JsonOutput \<Rightarrow> and_then (render_json (JObject [(''runs'', JArray (map (run_json fs) rs))])) (\<lambda>out. Inr [out])
      | TextOutput \<Rightarrow> Inr (list_header # map (run_line fs) rs))"

text \<open>The outer \<open>outcome\<close> is \<open>Panic\<close> when the sum of the OOM events overflows in a checked build.\<close>

definition run_benchmark ::
  "bool \<Rightarrow> 'f float_ops \<Rightarrow> 'f float_show \<Rightarrow> (json \<Rightarrow> string + string) \<Rightarrow> (string \<Rightarrow> string + string) \<Rightarrow> string
     \<Rightarrow> benchmark_command \<Rightarrow> (error_chain + string list) outcome" where
  "run_benchmark checked ops fs render_json read_file csv command =
     (case read_file csv of
        Inl e \<Rightarrow> Done (Inl [''failed to read '' @ csv @ '': '' @ e])
      | Inr content \<Rightarrow>
     (case parse_benchmark_csv ops content of
        Inl err \<Rightarrow> Done (Inl err)
      | Inr records \<Rightarrow>
     (case command of
        BenchmarkSummary a \<Rightarrow>
          let flt = \<lparr>rf_model_name = sa_model a, rf_compression_profile = sa_profile a,
                     rf_context_tokens = sa_context_tokens a, rf_success_only = sa_success_only a\<rparr>
          in (case summarize_group checked ops (filter_runs records flt) of
                Panic \<Rightarrow> Panic
              | Done summary \<Rightarrow> Done (map_err (\<lambda>e. [e]) (summary_lines fs render_json (sa_format a) summary)))
      | BenchmarkList a \<Rightarrow>
          let flt = \<lparr>rf_model_name = la_model a, rf_compression_profile = la_profile a,
                     rf_context_tokens = None, rf_success_only = la_success_only a\<rparr>
          in Done (map_err (\<lambda>e. [e]) (list_lines fs render_json (la_format a) (take (la_limit a) (filter_runs records flt)))))))"

section \<open>What the commands print\<close>

text \<open>
  The benchmark file that ships with the repository cannot be read by the command whose default it
  is: it starts with a byte order mark, and for every such file, whatever the rest holds and whatever
  the subcommand and its filters are, \<open>llmos benchmark\<close> ends with an error.
\<close>

theorem benchmark_file_with_bom_unreadable:
  assumes "read_file csv = Inr (bom @ content)"
  shows "\<exists>err. run_benchmark checked ops fs render_json read_file csv command = Done (Inl err)"
proof -
  obtain err where "parse_benchmark_csv ops (bom @ content) = Inl err"
    using benchmark_bom_rejected by blast
  with assms show ?thesis
    by (simp add: run_benchmark_def)
qed

theorem benchmark_file_with_bom_unreadable_witness:
  "\<exists>err. run_benchmark True word_floats \<lparr>fs_display = show_u64, fs_fixed = (\<lambda>_. show_u64), fs_json = json_u64\<rparr>
     (\<lambda>_. Inr []) (\<lambda>_. Inr (bom @ csv_file show_u64 [sample_run])) ''scripts/memory/benchmark_plan.csv''
     (BenchmarkList \<lparr>la_model = None, la_profile = None, la_success_only = False, la_limit = 50, la_format = TextOutput\<rparr>)
   = Done (Inl err)"
  by (rule benchmark_file_with_bom_unreadable) (rule refl)

lemma map_filter_lookup:
  assumes "distinct (map fst kvs)" "set names \<subseteq> fst ` set kvs"
  shows "List.map_filter (\<lambda>name. map_option (g name) (map_of kvs name)) names
    = map (\<lambda>name. g name (the (map_of kvs name))) names"
  using assms(2)
proof (induction names)
  case (Cons n names)
  then obtain v where "map_of kvs n = Some v"
    using assms(1) by auto
  with Cons show ?case
    by (simp add: List.map_filter_simps)
qed (simp add: List.map_filter_simps)

text \<open>
  The profile listing is complete and agrees with \<open>profile show\<close>: the text list has, after its header, one
  line for each profile of the file, in the order of their names, and \<open>show\<close> answers exactly for the
  names that are listed.
\<close>

theorem profile_list_complete:
  assumes "load_profiles from_toml read_file config = Inr s" "distinct (map fst (ps_profiles s))"
  shows "(\<exists>names. sorted_wrt (<) names \<and> set names = fst ` set (ps_profiles s) \<and>
      run_profile fs render_json from_toml read_file config (ProfileList TextOutput)
        = Inr (profile_header # map (\<lambda>name. profile_line fs name (the (resolve_profile s name))) names))
    \<and> (is_ok (run_profile fs render_json from_toml read_file config (ProfileShow name TextOutput))
        \<longleftrightarrow> name \<in> fst ` set (ps_profiles s))"
proof
  let ?names = "sort (map fst (ps_profiles s))"
  have "sorted_wrt (<) ?names"
    using assms(2) by (simp add: strict_sorted_iff)
  moreover have "run_profile fs render_json from_toml read_file config (ProfileList TextOutput)
      = Inr (profile_header # map (\<lambda>name. profile_line fs name (the (resolve_profile s name))) ?names)"
    using map_filter_lookup [OF assms(2), of ?names "profile_line fs"]
    by (simp add: run_profile_def assms(1) profile_list_lines_def resolve_profile_def Let_def)
  ultimately show "\<exists>names. sorted_wrt (<) names \<and> set names = fst ` set (ps_profiles s) \<and>
      run_profile fs render_json from_toml read_file config (ProfileList TextOutput)
        = Inr (profile_header # map (\<lambda>name. profile_line fs name (the (resolve_profile s name))) names)"
    by (intro exI [of _ ?names]) simp
  show "is_ok (run_profile fs render_json from_toml read_file config (ProfileShow name TextOutput))
      \<longleftrightarrow> name \<in> fst ` set (ps_profiles s)"
  proof (cases "map_of (ps_profiles s) name")
    case None
    then have "name \<notin> fst ` set (ps_profiles s)"
      by (simp add: map_of_eq_None_iff)
    with None show ?thesis
      by (simp add: run_profile_def assms(1) resolve_profile_def)
  next
    case (Some p)
    then have "name \<in> fst ` set (ps_profiles s)"
      by (force dest: map_of_SomeD)
    with Some show ?thesis
      by (simp add: run_profile_def assms(1) resolve_profile_def profile_show_lines_def)
  qed
qed

definition sample_profiles :: "u64 profile_set" where
  "sample_profiles = \<lparr>ps_profiles =
     [(''b'', \<lparr>mp_zram_fraction = 1, mp_compression_algo = ''zstd'', mp_swappiness = 100\<rparr>),
      (''a'', \<lparr>mp_zram_fraction = 1, mp_compression_algo = ''lz4'', mp_swappiness = 60\<rparr>)]\<rparr>"

theorem profile_list_complete_witness:
  "is_ok (run_profile \<lparr>fs_display = show_u64, fs_fixed = (\<lambda>_. show_u64), fs_json = json_u64\<rparr> (\<lambda>_. Inr [])
     (\<lambda>_. Inr sample_profiles) (\<lambda>_. Some []) ''p.toml'' (ProfileShow ''a'' TextOutput))"
  by (subst profile_list_complete [THEN conjunct2, of _ _ _ sample_profiles])
    (simp_all add: load_profiles_def parse_profiles_def sample_profiles_def)

end
