(* ===== verification/Cli_Ops.thy ===== *)
theory Cli_Ops
  imports Cli_Data Mcp_Runtime Service_Bus Policy_Service Runtime_Metrics
begin

text \<open>
  The commands of \<^verbatim>\<open>tools/llmos-cli\<close> that talk to the services: \<open>policy\<close> (\<^verbatim>\<open>policy.rs\<close>) and \<open>modules\<close>
  (\<^verbatim>\<open>modules.rs\<close>), and the dispatch of \<^verbatim>\<open>main.rs\<close>. A gRPC call is an oracle that includes its timeout
  and answers with a response or the text of its error; an HTTP request is an oracle as well.
\<close>

section \<open>Calls to the policy engine\<close>

record cli_io =
  cio_connect :: "string \<Rightarrow> string + unit"
  cio_metadata :: "string \<Rightarrow> string + unit"
  cio_evaluate :: "string \<Rightarrow> nat \<Rightarrow> grpc_evaluate_request \<Rightarrow> string + grpc_evaluate_response"
  cio_check :: "string \<Rightarrow> nat \<Rightarrow> grpc_health_request \<Rightarrow> string + grpc_health_response"
  cio_wall :: "nat \<Rightarrow> int"
  cio_latency_ms :: nat

text \<open>\<open>SEQ\<close> starts at 1 in a process that runs one command, and both modules have their own.\<close>

definition cli_generate_id :: "string \<Rightarrow> int \<Rightarrow> u64 \<Rightarrow> string \<times> u64" where
  "cli_generate_id pre clock_ns seq = (seq_id pre (unix_millis clock_ns) seq, seq + 1)"

definition trace_metadata :: "string \<Rightarrow> string \<Rightarrow> string \<Rightarrow> string option" where
  "trace_metadata request_id correlation_id =
     [''x-request-id'' \<mapsto> request_id, ''x-correlation-id'' \<mapsto> correlation_id]"

definition trace_ok :: "cli_io \<Rightarrow> string \<Rightarrow> string \<Rightarrow> string + unit" where
  "trace_ok io request_id correlation_id =
     and_then (cio_metadata io request_id) (\<lambda>_. cio_metadata io correlation_id)"

record policy_health_output =
  pho_status :: string
  pho_detail :: string
  pho_latency_ms :: nat
  pho_request_id :: string
  pho_correlation_id :: string

definition fetch_policy_health :: "cli_io \<Rightarrow> string \<Rightarrow> nat \<Rightarrow> string \<Rightarrow> string + policy_health_output" where
  "fetch_policy_health io endpoint timeout service_name =
     (case cli_generate_id ''cli-health-req'' (cio_wall io 0) 1 of (request_id, seq) \<Rightarrow>
      case cli_generate_id ''cli-health-corr'' (cio_wall io 1) seq of (correlation_id, _) \<Rightarrow>
        and_then (cio_connect io endpoint) (\<lambda>_.
        and_then (trace_ok io request_id correlation_id) (\<lambda>_.
        and_then (cio_check io endpoint timeout
            \<lparr>ghq_metadata = trace_metadata request_id correlation_id, ghq_service = service_name\<rparr>) (\<lambda>response.
          Inr \<lparr>pho_status = ghr_status response, pho_detail = ghr_detail response,
               pho_latency_ms = cio_latency_ms io, pho_request_id = request_id,
               pho_correlation_id = correlation_id\<rparr>))))"

section \<open>The policy commands\<close>

record policy_check_output =
  pco_decision :: string
  pco_reason :: string
  pco_rule_id :: "string option"
  pco_request_id :: string
  pco_correlation_id :: string

record policy_check_args =
  pca_subject :: string
  pca_action :: string
  pca_resource :: string
  pca_endpoint :: string
  pca_timeout_secs :: nat
  pca_output :: output_format

record policy_health_args =
  pha_endpoint :: string
  pha_timeout_secs :: nat
  pha_output :: output_format

datatype policy_command = PolicyCheck policy_check_args | PolicyHealth policy_health_args

definition render_policy_check :: "(json \<Rightarrow> string + string) \<Rightarrow> policy_check_output \<Rightarrow> output_format \<Rightarrow> string + string" where
  "render_policy_check render_json result fmt =
     (case fmt of
        TextOutput \<Rightarrow> Inr (render_lines
          [''decision: '' @ pco_decision result, ''reason: '' @ pco_reason result,
           ''rule_id: '' @ unwrap_or ''<none>'' (pco_rule_id result),
           ''request_id: '' @ pco_request_id result, ''correlation_id: '' @ pco_correlation_id result])
      | JsonOutput \<Rightarrow> render_json (JObject
          [(''decision'', JString (pco_decision result)), (''reason'', JString (pco_reason result)),
           (''rule_id'', case pco_rule_id result of None \<Rightarrow> JNull | Some i \<Rightarrow> JString i),
           (''request_id'', JString (pco_request_id result)),
           (''correlation_id'', JString (pco_correlation_id result))]))"

definition render_policy_health :: "(json \<Rightarrow> string + string) \<Rightarrow> policy_health_output \<Rightarrow> output_format \<Rightarrow> string + string" where
  "render_policy_health render_json result fmt =
     (case fmt of
        TextOutput \<Rightarrow> Inr (render_lines
          [''status: '' @ pho_status result, ''detail: '' @ pho_detail result,
           ''latency_ms: '' @ show_nat (pho_latency_ms result),
           ''request_id: '' @ pho_request_id result, ''correlation_id: '' @ pho_correlation_id result])
      | JsonOutput \<Rightarrow> render_json (JObject
          [(''status'', JString (pho_status result)), (''detail'', JString (pho_detail result)),
           (''latency_ms'', JNumber (show_nat (pho_latency_ms result))),
           (''request_id'', JString (pho_request_id result)),
           (''correlation_id'', JString (pho_correlation_id result))]))"

definition run_policy_check :: "cli_io \<Rightarrow> (json \<Rightarrow> string + string) \<Rightarrow> policy_check_args \<Rightarrow> string + string" where
  "run_policy_check io render_json a =
     (case cli_generate_id ''cli-req'' (cio_wall io 0) 1 of (request_id, seq) \<Rightarrow>
      case cli_generate_id ''cli-corr'' (cio_wall io 1) seq of (correlation_id, _) \<Rightarrow>
        and_then (cio_connect io (pca_endpoint a)) (\<lambda>_.
        and_then (trace_ok io request_id correlation_id) (\<lambda>_.
        and_then (cio_evaluate io (pca_endpoint a) (pca_timeout_secs a)
            \<lparr>geq_metadata = trace_metadata request_id correlation_id, geq_subject = pca_subject a,
             geq_action = pca_action a, geq_resource = pca_resource a\<rparr>) (\<lambda>response.
          render_policy_check render_json
            \<lparr>pco_decision = ger_effect response, pco_reason = ger_reason response,
             pco_rule_id = (if ger_rule_id response = [] then None else Some (ger_rule_id response)),
             pco_request_id = request_id, pco_correlation_id = correlation_id\<rparr> (pca_output a)))))"

definition run_policy_health :: "cli_io \<Rightarrow> (json \<Rightarrow> string + string) \<Rightarrow> policy_health_args \<Rightarrow> string + string" where
  "run_policy_health io render_json a =
     and_then (fetch_policy_health io (pha_endpoint a) (pha_timeout_secs a) ''policy-engine'')
       (\<lambda>result. render_policy_health render_json result (pha_output a))"

fun run_policy :: "cli_io \<Rightarrow> (json \<Rightarrow> string + string) \<Rightarrow> policy_command \<Rightarrow> string + string" where
  "run_policy io render_json (PolicyCheck a) = run_policy_check io render_json a"
| "run_policy io render_json (PolicyHealth a) = run_policy_health io render_json a"

section \<open>Lossy decoding of a body\<close>

text \<open>
  \<open>String::from_utf8_lossy\<close>: the ranges that the bytes after a first byte must be in, and the replacement
  of every longest broken prefix of a character by U+FFFD.
\<close>

definition continuations :: "nat \<Rightarrow> (nat \<times> nat) list option" where
  "continuations b =
     (if 0xC2 \<le> b \<and> b \<le> 0xDF then Some [(0x80, 0xBF)]
      else if b = 0xE0 then Some [(0xA0, 0xBF), (0x80, 0xBF)]
      else if b = 0xED then Some [(0x80, 0x9F), (0x80, 0xBF)]
      else if 0xE1 \<le> b \<and> b \<le> 0xEF then Some [(0x80, 0xBF), (0x80, 0xBF)]
      else if b = 0xF0 then Some [(0x90, 0xBF), (0x80, 0xBF), (0x80, 0xBF)]
      else if 0xF1 \<le> b \<and> b \<le> 0xF3 then Some [(0x80, 0xBF), (0x80, 0xBF), (0x80, 0xBF)]
      else if b = 0xF4 then Some [(0x80, 0x8F), (0x80, 0xBF), (0x80, 0xBF)]
      else None)"

fun matched :: "(nat \<times> nat) list \<Rightarrow> string \<Rightarrow> nat" where
  "matched ((lo, hi) # rs) (c # cs) = (if lo \<le> of_char c \<and> of_char c \<le> hi then Suc (matched rs cs) else 0)"
| "matched rs cs = 0"

definition replacement_character :: string where
  "replacement_character = [char_of (0xEF :: nat), char_of (0xBF :: nat), char_of (0xBD :: nat)]"

function utf8_lossy :: "string \<Rightarrow> string" where
  "utf8_lossy [] = []"
| "utf8_lossy (c # cs) =
     (if of_char c < (0x80 :: nat) then c # utf8_lossy cs
      else case continuations (of_char c) of
        None \<Rightarrow> replacement_character @ utf8_lossy cs
      | Some rs \<Rightarrow>
          let n = matched rs cs in
          (if n = length rs then c # take n cs else replacement_character) @ utf8_lossy (drop n cs))"
  by pat_completeness auto
termination
  by (relation "measure length") auto

section \<open>The modules command\<close>

text \<open>\<open>HttpStatus\<close> has the code, its text and the body as it was read.\<close>

datatype http_end = HttpTimedOut | HttpFailed string | HttpResponse nat string "string + string"

record 'u probe_io =
  prio_parse_uri :: "string \<Rightarrow> string + 'u"
  prio_get :: "nat \<Rightarrow> 'u \<Rightarrow> http_end"
  prio_policy :: cli_io
  prio_from_json :: "string \<Rightarrow> string + plugin_manifest"
  prio_directory :: "string \<Rightarrow> directory"

definition is_success :: "nat \<Rightarrow> bool" where
  "is_success code \<longleftrightarrow> 200 \<le> code \<and> code < 300"

definition probe_llmd_metrics :: "'u probe_io \<Rightarrow> string \<Rightarrow> nat \<Rightarrow> string" where
  "probe_llmd_metrics io endpoint timeout =
     (case prio_parse_uri io endpoint of
        Inl err \<Rightarrow> ''invalid-endpoint('' @ err @ '')''
      | Inr uri \<Rightarrow>
          (case prio_get io timeout uri of
             HttpFailed err \<Rightarrow> ''unreachable('' @ err @ '')''
           | HttpTimedOut \<Rightarrow> ''timeout''
           | HttpResponse code code_text body \<Rightarrow>
               if \<not> is_success code then ''unhealthy(http:'' @ code_text @ '')''
               else (case body of
                  Inl err \<Rightarrow> ''unhealthy(body-read:'' @ err @ '')''
                | Inr bytes \<Rightarrow>
                    if str_contains (utf8_lossy bytes) ''llmos_policy_requests_total'' then ''healthy''
                    else ''unhealthy(metrics-missing)'')))"

text \<open>\<^verbatim>\<open>modules.rs\<close> has its own copies of \<open>generate_id\<close>, with its own counter, and of \<open>fetch_policy_health\<close>.\<close>

definition modules_generate_id :: "string \<Rightarrow> int \<Rightarrow> u64 \<Rightarrow> string \<times> u64" where
  "modules_generate_id pre clock_ns seq = (seq_id pre (unix_millis clock_ns) seq, seq + 1)"

definition modules_fetch_policy_health :: "cli_io \<Rightarrow> string \<Rightarrow> nat \<Rightarrow> string \<Rightarrow> string + policy_health_output" where
  "modules_fetch_policy_health io endpoint timeout service_name =
     (case modules_generate_id ''cli-health-req'' (cio_wall io 0) 1 of (request_id, seq) \<Rightarrow>
      case modules_generate_id ''cli-health-corr'' (cio_wall io 1) seq of (correlation_id, _) \<Rightarrow>
        and_then (cio_connect io endpoint) (\<lambda>_.
        and_then (trace_ok io request_id correlation_id) (\<lambda>_.
        and_then (cio_check io endpoint timeout
            \<lparr>ghq_metadata = trace_metadata request_id correlation_id, ghq_service = service_name\<rparr>) (\<lambda>response.
          Inr \<lparr>pho_status = ghr_status response, pho_detail = ghr_detail response,
               pho_latency_ms = cio_latency_ms io, pho_request_id = request_id,
               pho_correlation_id = correlation_id\<rparr>))))"

definition probe_policy_health :: "'u probe_io \<Rightarrow> string \<Rightarrow> nat \<Rightarrow> string" where
  "probe_policy_health io endpoint timeout =
     (case modules_fetch_policy_health (prio_policy io) endpoint timeout ''policy-engine'' of
        Inr h \<Rightarrow>
          if eq_ignore_ascii_case (pho_status h) ''SERVING'' then ''healthy''
          else ''unhealthy(status:'' @ pho_status h @ '' detail:'' @ pho_detail h @ '')''
      | Inl err \<Rightarrow> ''unreachable('' @ err @ '')'')"

definition probe_mcp_runtime :: "'u probe_io \<Rightarrow> string \<Rightarrow> string" where
  "probe_mcp_runtime io dir =
     (case load_manifests (prio_from_json io) dir (prio_directory io dir) of
        Inr ms \<Rightarrow> if ms = [] then ''no-manifests'' else ''configured(manifests:'' @ show_nat (length ms) @ '')''
      | Inl err \<Rightarrow> ''invalid-manifests('' @ err @ '')'')"

record modules_args =
  ma_llmd_metrics_endpoint :: string
  ma_policy_endpoint :: string
  ma_mcp_manifest_dir :: string
  ma_timeout_secs :: nat
  ma_output :: output_format

definition CARGO_PKG_VERSION :: string where
  "CARGO_PKG_VERSION = ''0.1.0''"

definition collect_modules :: "'u probe_io \<Rightarrow> modules_args \<Rightarrow> module_descriptor list" where
  "collect_modules io a =
     (let llmd = probe_llmd_metrics io (ma_llmd_metrics_endpoint a) (ma_timeout_secs a);
          policy = probe_policy_health io (ma_policy_endpoint a) (ma_timeout_secs a);
          mcp = probe_mcp_runtime io (ma_mcp_manifest_dir a)
      in [\<lparr>md_id = ''services/llmd'', md_version = CARGO_PKG_VERSION, md_status = llmd\<rparr>,
          \<lparr>md_id = ''services/mcp-runtime'', md_version = CARGO_PKG_VERSION, md_status = mcp\<rparr>,
          \<lparr>md_id = ''services/policy-engine'', md_version = CARGO_PKG_VERSION, md_status = policy\<rparr>])"

definition modules_as_json :: "(json \<Rightarrow> string + string) \<Rightarrow> module_descriptor list \<Rightarrow> string + string" where
  "modules_as_json render_json ms = render_json (JArray (map (\<lambda>m. JObject
     [(''id'', JString (md_id m)), (''version'', JString (md_version m)), (''status'', JString (md_status m))]) ms))"

definition render_modules :: "(json \<Rightarrow> string + string) \<Rightarrow> module_descriptor list \<Rightarrow> output_format \<Rightarrow> string + string list" where
  "render_modules render_json ms fmt =
     (case fmt of
        TextOutput \<Rightarrow> Inr (map (\<lambda>m. md_id m @ ''@'' @ md_version m @ '' ['' @ md_status m @ '']'') ms)
      | JsonOutput \<Rightarrow> and_then (modules_as_json render_json ms) (\<lambda>j. Inr [j]))"

definition run_modules :: "'u probe_io \<Rightarrow> (json \<Rightarrow> string + string) \<Rightarrow> modules_args \<Rightarrow> string + string list" where
  "run_modules io render_json a = render_modules render_json (collect_modules io a) (ma_output a)"

section \<open>The dispatch\<close>

datatype cli_command =
  BenchmarkCommand string benchmark_command
| ModulesCommand modules_args
| PolicyCommand policy_command
| ProfileCommand string profile_command

text \<open>The environment of a run: the other programs, the file system and the code of the libraries.\<close>

record ('u, 'f) cli_env =
  cle_checked :: bool
  cle_float_ops :: "'f float_ops"
  cle_float_show :: "'f float_show"
  cle_render_json :: "json \<Rightarrow> string + string"
  cle_from_toml :: "string \<Rightarrow> string + 'f profile_set"
  cle_read_file :: "string \<Rightarrow> string + string"
  cle_probe :: "'u probe_io"

fun cli_main :: "('u, 'f) cli_env \<Rightarrow> cli_command \<Rightarrow> (error_chain + string list) outcome" where
  "cli_main e (BenchmarkCommand csv command) =
     run_benchmark (cle_checked e) (cle_float_ops e) (cle_float_show e) (cle_render_json e) (cle_read_file e) csv command"
| "cli_main e (ModulesCommand a) =
     Done (map_err (\<lambda>err. [err]) (run_modules (cle_probe e) (cle_render_json e) a))"
| "cli_main e (PolicyCommand command) =
     Done (map_err (\<lambda>err. [err])
       (and_then (run_policy (prio_policy (cle_probe e)) (cle_render_json e) command) (\<lambda>out. Inr [out])))"
| "cli_main e (ProfileCommand config command) =
     Done (map_err (\<lambda>err. [err]) (run_profile (cle_float_show e) (cle_render_json e) (cle_from_toml e)
       (\<lambda>path. case cle_read_file e path of Inl _ \<Rightarrow> None | Inr content \<Rightarrow> Some content) config command))"

section \<open>What the commands report\<close>

lemma utf8_lossy_ascii_append:
  "list_all (\<lambda>c. of_char c < (128 :: nat)) a \<Longrightarrow> utf8_lossy (a @ s) = a @ utf8_lossy s"
  by (induction a) simp_all

text \<open>The name that the probe looks for stands in the first line of what llmd exports.\<close>

lemma metrics_body_recognised:
  "str_contains (utf8_lossy (runtime_render_prometheus m)) ''llmos_policy_requests_total''"
proof -
  let ?head = "''# TYPE llmos_policy_requests_total counter''"
  obtain r where "runtime_render_prometheus m = ?head @ r"
    unfolding runtime_render_prometheus_def by blast
  then have "utf8_lossy (runtime_render_prometheus m) = ?head @ utf8_lossy r"
    by (simp add: utf8_lossy_ascii_append del: append_Cons)
  also have "\<dots> = ''# TYPE '' @ ''llmos_policy_requests_total'' @ ('' counter'' @ utf8_lossy r)"
    by simp
  finally show ?thesis
    unfolding str_contains_iff by blast
qed

text \<open>The three oracles of a running system.\<close>

definition answers_calls :: "cli_io \<Rightarrow> string \<Rightarrow> bool" where
  "answers_calls io endpoint \<longleftrightarrow> cio_connect io endpoint = Inr () \<and> cio_metadata io = (\<lambda>_. Inr ())"

lemma trace_ok_answers: "answers_calls io endpoint \<Longrightarrow> trace_ok io r c = Inr ()"
  by (simp add: answers_calls_def trace_ok_def)

text \<open>
  C28: Against a running system, \<open>llmos modules\<close> reports it as running: where the metrics endpoint is served by
  llmd's own exporter and the health call is answered by the policy engine's own handler, and the manifest
  directory loads, the command prints llmd and the policy engine as healthy and the number of manifests.
\<close>

theorem modules_reports_running_system:
  assumes "prio_parse_uri io (ma_llmd_metrics_endpoint a) = Inr uri"
    and "prio_get io (ma_timeout_secs a) uri
      = HttpResponse (fst (runtime_metrics_endpoint m ''GET'' ''/metrics'')) ''200 OK''
          (Inr (snd (runtime_metrics_endpoint m ''GET'' ''/metrics'')))"
    and "answers_calls (prio_policy io) (ma_policy_endpoint a)"
    and "cio_check (prio_policy io) (ma_policy_endpoint a) (ma_timeout_secs a) = (\<lambda>q. Inr (fst (grpc_check to_str q svc)))"
    and "load_manifests (prio_from_json io) (ma_mcp_manifest_dir a) (prio_directory io (ma_mcp_manifest_dir a)) = Inr ms"
    and "ms \<noteq> []" "ma_output a = TextOutput"
  shows "run_modules io render_json a = Inr
     [''services/llmd@0.1.0 [healthy]'',
      ''services/mcp-runtime@0.1.0 [configured(manifests:'' @ show_nat (length ms) @ '')]'',
      ''services/policy-engine@0.1.0 [healthy]'']"
proof -
  have llmd: "probe_llmd_metrics io (ma_llmd_metrics_endpoint a) (ma_timeout_secs a) = ''healthy''"
    using assms(1,2) metrics_body_recognised [of m]
    by (simp add: probe_llmd_metrics_def runtime_metrics_endpoint_def metrics_route_def is_success_def)
  have "\<exists>h. modules_fetch_policy_health (prio_policy io) (ma_policy_endpoint a) (ma_timeout_secs a) ''policy-engine'' = Inr h
      \<and> pho_status h = ''SERVING''"
    using assms(3,4) trace_ok_answers [OF assms(3)]
    by (simp add: modules_fetch_policy_health_def answers_calls_def grpc_check_def Let_def split: prod.splits)
  then have policy: "probe_policy_health io (ma_policy_endpoint a) (ma_timeout_secs a) = ''healthy''"
    by (auto simp: probe_policy_health_def eq_ignore_ascii_case_def)
  have mcp: "probe_mcp_runtime io (ma_mcp_manifest_dir a) = ''configured(manifests:'' @ show_nat (length ms) @ '')''"
    using assms(5,6) by (simp add: probe_mcp_runtime_def)
  show ?thesis
    by (simp add: run_modules_def render_modules_def collect_modules_def CARGO_PKG_VERSION_def llmd policy mcp assms(7))
qed

definition sample_service :: policy_service where
  "sample_service = \<lparr>svc_shared = \<lparr>doc_version = ''v'', doc_rules =
     [\<lparr>pr_id = ''r1'', pr_effect = RuleAllow, pr_subject = ''runtime/*'', pr_actions = [''*''], pr_resources = [''*'']\<rparr>]\<rparr>,
     svc_metrics = None, svc_log = []\<rparr>"

definition sample_cli_io :: cli_io where
  "sample_cli_io = \<lparr>cio_connect = (\<lambda>_. Inr ()), cio_metadata = (\<lambda>_. Inr ()),
     cio_evaluate = (\<lambda>_ _ q. Inr (fst (grpc_evaluate Some 3 q sample_service))),
     cio_check = (\<lambda>_ _ q. Inr (fst (grpc_check Some q sample_service))), cio_wall = (\<lambda>_. 0), cio_latency_ms = 1\<rparr>"

definition sample_probe :: "unit probe_io" where
  "sample_probe = \<lparr>prio_parse_uri = (\<lambda>_. Inr ()),
     prio_get = (\<lambda>_ _. HttpResponse (fst (runtime_metrics_endpoint runtime_metrics_default ''GET'' ''/metrics'')) ''200 OK''
       (Inr (snd (runtime_metrics_endpoint runtime_metrics_default ''GET'' ''/metrics'')))),
     prio_policy = sample_cli_io, prio_from_json = (\<lambda>_. Inr sample_manifest),
     prio_directory = (\<lambda>_. Listing [Inr \<lparr>de_path = ''x'', de_is_file = True, de_extension = Some ''json'',
       de_content = Some ''{}''\<rparr>])\<rparr>"

lemma show_nat_one: "show_nat (Suc 0) = ''1''"
  by code_simp

theorem modules_reports_running_system_witness:
  "run_modules sample_probe (\<lambda>_. Inr []) \<lparr>ma_llmd_metrics_endpoint = ''http://127.0.0.1:9090/metrics'',
     ma_policy_endpoint = ''http://127.0.0.1:50051'', ma_mcp_manifest_dir = ''d'', ma_timeout_secs = 2,
     ma_output = TextOutput\<rparr> = Inr
     [''services/llmd@0.1.0 [healthy]'', ''services/mcp-runtime@0.1.0 [configured(manifests:1)]'',
      ''services/policy-engine@0.1.0 [healthy]'']"
  using modules_reports_running_system [where io = sample_probe and uri = "()" and m = runtime_metrics_default
      and to_str = Some and svc = sample_service and ms = "[(''a.b'', sample_manifest)]"
      and render_json = "\<lambda>_. Inr []" and a = "\<lparr>ma_llmd_metrics_endpoint = ''http://127.0.0.1:9090/metrics'',
     ma_policy_endpoint = ''http://127.0.0.1:50051'', ma_mcp_manifest_dir = ''d'', ma_timeout_secs = 2,
     ma_output = TextOutput\<rparr>"] sample_load show_nat_one
  by (simp add: sample_probe_def sample_cli_io_def answers_calls_def)

text \<open>The identifier that a decision shows to the operator.\<close>

fun shown_rule :: "decision_reason \<Rightarrow> string" where
  "shown_rule NoMatch = ''<none>''"
| "shown_rule (MatchedAllow i) = (if i = [] then ''<none>'' else i)"
| "shown_rule (MatchedDeny i) = (if i = [] then ''<none>'' else i)"



end
