(* ===== verification/Tests_Services.thy ===== *)
theory Tests_Services
  imports Policy_Service Llmd Service_Bus Secrets Sandbox
begin

text \<open>
  The repository's unit tests of the policy engine, the executor, the model runtime, the sandbox templates, the secret
  store and the bus, each translated to a truth value over the model: an assertion is a conjunct, and \<open>unwrap\<close> or \<open>expect\<close> on
  a failure makes it false. That they all hold checks the translation of the code against what its authors expect.
\<close>

definition unwrap_then :: "'e + 'a \<Rightarrow> ('a \<Rightarrow> bool) \<Rightarrow> bool" where
  "unwrap_then r P = (case r of Inl e \<Rightarrow> False | Inr x \<Rightarrow> P x)"

definition unwrap_err_then :: "'e + 'a \<Rightarrow> ('e \<Rightarrow> bool) \<Rightarrow> bool" where
  "unwrap_err_then r P = (case r of Inl e \<Rightarrow> P e | Inr x \<Rightarrow> False)"

definition returns_then :: "'a outcome \<Rightarrow> ('a \<Rightarrow> bool) \<Rightarrow> bool" where
  "returns_then r P = (case r of Panic \<Rightarrow> False | Done x \<Rightarrow> P x)"

lemma unwrap_then_simps [simp]:
  "unwrap_then (Inr x) P = P x" "\<not> unwrap_then (Inl e) P"
  "unwrap_err_then (Inl e) Q = Q e" "\<not> unwrap_err_then (Inr x) Q"
  "returns_then (Done y) R = R y" "\<not> returns_then Panic R"
  by (simp_all add: unwrap_then_def unwrap_err_then_def returns_then_def)

section \<open>Policy engine\<close>

definition test_policy :: "policy_rule list \<Rightarrow> policy_document" where
  "test_policy rules = \<lparr>doc_version = ''v1'', doc_rules = rules\<rparr>"

definition allow_rule :: "string \<Rightarrow> policy_rule" where
  "allow_rule i = \<lparr>pr_id = i, pr_effect = RuleAllow, pr_subject = ''runtime/model-runtime'',
     pr_actions = [''network:connect''], pr_resources = [''api.openai.com'']\<rparr>"

definition deny_rule :: "string \<Rightarrow> policy_rule" where
  "deny_rule i = \<lparr>pr_id = i, pr_effect = RuleDeny, pr_subject = ''runtime/model-runtime'',
     pr_actions = [''network:connect''], pr_resources = [''api.openai.com'']\<rparr>"

definition validate_valid_subject :: bool where
  "validate_valid_subject \<longleftrightarrow>
     unwrap_then (validate_subject ''runtime/model-runtime'')
       (\<lambda>wid. wid_namespace wid = ''runtime'' \<and> wid_name wid = ''model-runtime'')"

definition validate_invalid_subject :: bool where
  "validate_invalid_subject \<longleftrightarrow> unwrap_err_then (validate_subject ''no-slash'') (\<lambda>_. True)"

definition exact_match :: bool where
  "exact_match \<longleftrightarrow> subject_matches ''runtime/model-runtime'' ''runtime/model-runtime''
     \<and> \<not> subject_matches ''runtime/model-runtime'' ''runtime/mcp-runtime''"

definition wildcard_star_matches_everything :: bool where
  "wildcard_star_matches_everything \<longleftrightarrow>
     subject_matches ''*'' ''runtime/model-runtime'' \<and> subject_matches ''*'' ''security/audit''"

definition namespace_wildcard_matches_same_namespace :: bool where
  "namespace_wildcard_matches_same_namespace \<longleftrightarrow>
     subject_matches ''runtime/*'' ''runtime/model-runtime'' \<and> subject_matches ''runtime/*'' ''runtime/mcp-runtime''
     \<and> \<not> subject_matches ''runtime/*'' ''security/audit''"

definition backward_compatible_with_raw_strings :: bool where
  "backward_compatible_with_raw_strings \<longleftrightarrow> subject_matches ''runtime/*'' ''runtime/something''"

lemma identity_tests:
  "validate_valid_subject" "validate_invalid_subject" "exact_match" "wildcard_star_matches_everything"
  "namespace_wildcard_matches_same_namespace" "backward_compatible_with_raw_strings"
  by code_simp+

definition allow_when_allow_rule_matches :: bool where
  "allow_when_allow_rule_matches \<longleftrightarrow>
     (let policy = test_policy [allow_rule ''allow-1''];
          request = \<lparr>rq_subject = ''runtime/model-runtime'', rq_action = ''network:connect'', rq_resource = ''api.openai.com''\<rparr>;
          decision = evaluate_policy policy request
      in dec_effect decision = DecisionAllow \<and> dec_reason decision = MatchedAllow ''allow-1'')"

definition deny_when_no_rule_matches :: bool where
  "deny_when_no_rule_matches \<longleftrightarrow>
     (let policy = test_policy [allow_rule ''allow-1''];
          request = \<lparr>rq_subject = ''runtime/mcp-runtime'', rq_action = ''fs:write'', rq_resource = ''/''\<rparr>;
          decision = evaluate_policy policy request
      in dec_effect decision = DecisionDeny \<and> dec_reason decision = NoMatch)"

definition deny_rule_overrides_allow_rule :: bool where
  "deny_rule_overrides_allow_rule \<longleftrightarrow>
     (let policy = test_policy [allow_rule ''allow-1'', deny_rule ''deny-1''];
          request = \<lparr>rq_subject = ''runtime/model-runtime'', rq_action = ''network:connect'', rq_resource = ''api.openai.com''\<rparr>;
          decision = evaluate_policy policy request
      in dec_effect decision = DecisionDeny \<and> dec_reason decision = MatchedDeny ''deny-1'')"

definition wildcard_prefix_matches :: bool where
  "wildcard_prefix_matches \<longleftrightarrow>
     (let policy = test_policy [\<lparr>pr_id = ''allow-prefix'', pr_effect = RuleAllow, pr_subject = ''runtime/*'',
            pr_actions = [''network:*''], pr_resources = [''api.*'']\<rparr>];
          request = \<lparr>rq_subject = ''runtime/model-runtime'', rq_action = ''network:connect'', rq_resource = ''api.openai.com''\<rparr>;
          decision = evaluate_policy policy request
      in dec_effect decision = DecisionAllow)"

lemma engine_tests:
  "allow_when_allow_rule_matches" "deny_when_no_rule_matches" "deny_rule_overrides_allow_rule" "wildcard_prefix_matches"
  by code_simp+

definition metadata_value_reads_ascii_header :: bool where
  "metadata_value_reads_ascii_header \<longleftrightarrow>
     (let metadata = (\<lambda>_. None)(''x-request-id'' := Some ''req-123'')
      in metadata_value Some metadata ''x-request-id'' = Some ''req-123'')"

lemma grpc_test: "metadata_value_reads_ascii_header"
  by (simp add: metadata_value_reads_ascii_header_def metadata_value_def)

definition render_prometheus_contains_expected_fields :: bool where
  "render_prometheus_contains_expected_fields \<longleftrightarrow>
     (let metrics = observe_evaluate_latency 1200000 (inc_health_checks (inc_deny (inc_allow
            (inc_evaluate_requests (set_rules_loaded 3 policy_metrics_default)))));
          rendered = policy_render_prometheus metrics
      in str_contains rendered ''llmos_policy_engine_evaluate_requests_total 1''
       \<and> str_contains rendered ''llmos_policy_engine_allow_total 1''
       \<and> str_contains rendered ''llmos_policy_engine_deny_total 1''
       \<and> str_contains rendered ''llmos_policy_engine_health_checks_total 1''
       \<and> str_contains rendered ''llmos_policy_engine_rules_loaded 3''
       \<and> str_contains rendered ''llmos_policy_engine_evaluate_latency_us_count 1'')"

text \<open>Looking for a line in a rendered text: skip the chunks before it, then compare label and number.\<close>

lemma contains_here: "str_contains (label @ show_u64 n @ rest) (label @ show_u64 n)"
  by (auto simp: str_contains_iff intro: exI [of _ "[]"])

lemma contains_skip: "str_contains rest p \<Longrightarrow> str_contains (chunk @ rest) p"
  by (metis append.assoc str_contains_iff)

lemma show_u64_digits: "show_u64 0 = ''0''" "show_u64 1 = ''1''" "show_u64 3 = ''3''"
  by (simp_all add: show_u64_def show_nat.simps char_of_def bit_0)

lemma policy_metrics_test: "render_prometheus_contains_expected_fields"
proof -
  define m where "m = observe_evaluate_latency 1200000 (inc_health_checks (inc_deny (inc_allow
    (inc_evaluate_requests (set_rules_loaded 3 policy_metrics_default)))))"
  have m: "evaluate_requests_total m = 1" "evaluate_allow_total m = 1" "evaluate_deny_total m = 1"
    "health_checks_total m = 1" "rules_loaded m = 3" "evaluate_latency_count m = 1"
    by (simp_all add: m_def policy_metric_defs policy_metrics_default_def)
  have "str_contains (policy_render_prometheus m) (''llmos_policy_engine_evaluate_requests_total '' @ show_u64 1)"
    "str_contains (policy_render_prometheus m) (''llmos_policy_engine_allow_total '' @ show_u64 1)"
    "str_contains (policy_render_prometheus m) (''llmos_policy_engine_deny_total '' @ show_u64 1)"
    "str_contains (policy_render_prometheus m) (''llmos_policy_engine_health_checks_total '' @ show_u64 1)"
    "str_contains (policy_render_prometheus m) (''llmos_policy_engine_rules_loaded '' @ show_u64 3)"
    "str_contains (policy_render_prometheus m) (''llmos_policy_engine_evaluate_latency_us_count '' @ show_u64 1)"
    unfolding policy_render_prometheus_def m by (rule contains_here | rule contains_skip)+
  then show ?thesis
    by (simp add: render_prometheus_contains_expected_fields_def Let_def flip: m_def)
      (simp add: show_u64_digits)
qed

section \<open>Model runtime and executor\<close>

definition test_config :: model_config where
  "test_config = cpu_only ''test-model'' ''/tmp/test.gguf''"

definition mock_backend_load_and_infer :: bool where
  "mock_backend_load_and_infer \<longleftrightarrow>
     (let backend = mock_new in \<not> mb_loaded backend \<and>
       (case mock_load test_config backend of (r, backend) \<Rightarrow>
          unwrap_then r (\<lambda>_. mb_loaded backend \<and> mock_loaded_model_name backend = Some ''test-model''
            \<and> returns_then (mock_infer (inference_request_new ''Hello world'' 32) backend) (\<lambda>r.
                unwrap_then r (\<lambda>response. rs_text response = ''mock response''
                  \<and> returns_then (token_usage_total True (rs_usage response)) (\<lambda>total. 0 < total))))))"

definition mock_backend_infer_without_load_fails :: bool where
  "mock_backend_infer_without_load_fails \<longleftrightarrow>
     returns_then (mock_infer (inference_request_new ''Hello'' 32) mock_new) (\<lambda>r.
       unwrap_err_then r (\<lambda>err. case err of NotLoaded _ \<Rightarrow> True | _ \<Rightarrow> False))"

definition mock_backend_unload_clears_state :: bool where
  "mock_backend_unload_clears_state \<longleftrightarrow>
     (case mock_load test_config mock_new of (r, backend) \<Rightarrow>
        unwrap_then r (\<lambda>_. mb_loaded backend \<and>
          (case mock_unload backend of (r, backend) \<Rightarrow>
             unwrap_then r (\<lambda>_. \<not> mb_loaded backend \<and> mock_loaded_model_name backend = None))))"

definition mock_backend_custom_response :: bool where
  "mock_backend_custom_response \<longleftrightarrow>
     (case mock_load test_config (mock_with_response ''custom output'' mock_new) of (r, backend) \<Rightarrow>
        unwrap_then r (\<lambda>_. returns_then (mock_infer (inference_request_new ''test prompt'' 16) backend) (\<lambda>r.
          unwrap_then r (\<lambda>response. rs_text response = ''custom output''))))"

text \<open>The temperature is compared by its bits: \<open>0x3F333333\<close> is the float 0.7.\<close>

definition inference_request_defaults :: bool where
  "inference_request_defaults \<longleftrightarrow>
     (let request = inference_request_new ''prompt'' 128
      in ir_max_tokens request = 128 \<and> ir_temperature request = 0x3F333333 \<and> ir_stop request = [])"

definition token_usage_total_test :: bool where
  "token_usage_total_test \<longleftrightarrow>
     returns_then (token_usage_total True \<lparr>prompt_tokens = 10, completion_tokens = 20\<rparr>) (\<lambda>total. total = 30)"

definition cpu_only_config_defaults :: bool where
  "cpu_only_config_defaults \<longleftrightarrow>
     (let config = cpu_only ''my-model'' ''/path/to/model.gguf''
      in mc_name config = ''my-model'' \<and> mc_gpu_layers config = 0 \<and> mc_context_length config = 4096
       \<and> mc_quantization config = ''Q4_K_M'')"

lemma model_runtime_tests:
  "mock_backend_load_and_infer" "mock_backend_infer_without_load_fails" "mock_backend_unload_clears_state"
  "mock_backend_custom_response" "inference_request_defaults" "token_usage_total_test" "cpu_only_config_defaults"
  by (simp_all add: mock_backend_load_and_infer_def mock_backend_infer_without_load_fails_def
      mock_backend_unload_clears_state_def mock_backend_custom_response_def inference_request_defaults_def
      token_usage_total_test_def cpu_only_config_defaults_def test_config_def cpu_only_def inference_request_new_def
      mock_new_def mock_load_def mock_infer_def mock_unload_def mock_with_response_def mock_loaded_model_name_def
      token_usage_total_def Let_def)

definition test_request :: "string \<Rightarrow> action_request" where
  "test_request act = \<lparr>ar_version = ''v1'', ar_request_id = ''req-1'', ar_correlation_id = ''corr-1'',
     ar_subject = ''runtime/model-runtime'', ar_action = act, ar_resource = ''test prompt''\<rparr>"

definition non_model_action_passes_through :: bool where
  "non_model_action_passes_through \<longleftrightarrow>
     returns_then (model_execute mb_loaded mock_infer (test_request ''network:connect'') mock_new) (\<lambda>r.
       unwrap_then r (\<lambda>result. res_status result = Executed \<and> str_contains (res_message result) ''network:connect''))"

definition model_invoke_without_loaded_model :: bool where
  "model_invoke_without_loaded_model \<longleftrightarrow>
     returns_then (model_execute mb_loaded mock_infer (test_request ''model:invoke'') mock_new) (\<lambda>r.
       unwrap_then r (\<lambda>result. res_status result = Executed \<and> str_contains (res_message result) ''pass-through''))"

definition model_invoke_with_loaded_model :: bool where
  "model_invoke_with_loaded_model \<longleftrightarrow>
     (case mock_load (cpu_only ''test'' ''/tmp/test.gguf'') (mock_with_response ''generated text here'' mock_new) of (r, mock) \<Rightarrow>
        unwrap_then r (\<lambda>_. returns_then (model_execute mb_loaded mock_infer (test_request ''model:invoke'') mock) (\<lambda>r.
          unwrap_then r (\<lambda>result. res_status result = Executed
            \<and> str_contains (res_message result) ''model:invoke complete''
            \<and> str_contains (res_message result) ''generated text here''))))"

definition model_invoke_includes_timing_info :: bool where
  "model_invoke_includes_timing_info \<longleftrightarrow>
     (case mock_load (cpu_only ''test'' ''/tmp/test.gguf'') mock_new of (r, mock) \<Rightarrow>
        unwrap_then r (\<lambda>_. returns_then (model_execute mb_loaded mock_infer (test_request ''model:invoke'') mock) (\<lambda>r.
          unwrap_then r (\<lambda>result. str_contains (res_message result) ''50ms''))))"

lemma show_50_64: "show_nat 50 = ''50''" "show_nat 64 = ''64''"
  by (simp_all add: show_nat.simps char_of_def bit_0)

lemma executor_tests:
  "non_model_action_passes_through" "model_invoke_without_loaded_model" "model_invoke_with_loaded_model"
  "model_invoke_includes_timing_info"
  by (simp_all add: non_model_action_passes_through_def model_invoke_without_loaded_model_def
      model_invoke_with_loaded_model_def model_invoke_includes_timing_info_def model_execute_def test_request_def
      executed_message_def mock_new_def mock_load_def mock_infer_def mock_with_response_def cpu_only_def
      inference_request_new_def truncate_text_def show_50_64 Let_def)

section \<open>Secrets\<close>

text \<open>The provider of the tests keeps its secrets in a table; it is another provider of the store's interface.\<close>

record in_memory_provider =
  imp_secrets :: "(string \<times> string) list"

definition in_memory_get :: "in_memory_provider \<Rightarrow> string \<Rightarrow> secret_error + string" where
  "in_memory_get p key = ok_or (SecretNotFound key) (map_of (imp_secrets p) key)"

definition in_memory_exists :: "in_memory_provider \<Rightarrow> string \<Rightarrow> secret_error + bool" where
  "in_memory_exists p key = Inr (map_of (imp_secrets p) key \<noteq> None)"

interpretation in_memory: secret_provider in_memory_get in_memory_exists
  by unfold_locales (auto simp: in_memory_get_def in_memory_exists_def result_simps)

definition test_provider :: in_memory_provider where
  "test_provider = \<lparr>imp_secrets = AList.update ''anthropic_api_key'' ''ak-test-456''
     (AList.update ''openai_api_key'' ''sk-test-123'' [])\<rparr>"

definition allowed_module_can_read_secret :: bool where
  "allowed_module_can_read_secret \<longleftrightarrow>
     (let store = store_register ''openai_api_key'' {''runtime/model-runtime''} (store_new test_provider)
      in unwrap_then (store_get in_memory_get store ''runtime/model-runtime'' ''openai_api_key'') (\<lambda>value. value = ''sk-test-123''))"

definition denied_module_cannot_read_secret :: bool where
  "denied_module_cannot_read_secret \<longleftrightarrow>
     (let store = store_register ''openai_api_key'' {''runtime/model-runtime''} (store_new test_provider)
      in unwrap_err_then (store_get in_memory_get store ''runtime/mcp-runtime'' ''openai_api_key'') (\<lambda>err.
           case err of AccessDenied _ _ \<Rightarrow> True | _ \<Rightarrow> False))"

definition unregistered_key_returns_not_found :: bool where
  "unregistered_key_returns_not_found \<longleftrightarrow>
     unwrap_err_then (store_get in_memory_get (store_new test_provider) ''runtime/model-runtime'' ''nonexistent'') (\<lambda>err.
       case err of SecretNotFound _ \<Rightarrow> True | _ \<Rightarrow> False)"

definition keys_returns_sorted_registered_keys :: bool where
  "keys_returns_sorted_registered_keys \<longleftrightarrow>
     (let store = store_new test_provider;
          store = store_register ''zebra_key'' {''mod-a''} store;
          store = store_register ''alpha_key'' {''mod-b''} store
      in store_keys store = [''alpha_key'', ''zebra_key''])"

definition provider_missing_key_returns_not_found :: bool where
  "provider_missing_key_returns_not_found \<longleftrightarrow>
     (let store = store_register ''missing_key'' {''runtime/model-runtime''} (store_new test_provider)
      in unwrap_err_then (store_get in_memory_get store ''runtime/model-runtime'' ''missing_key'') (\<lambda>err.
           case err of SecretNotFound _ \<Rightarrow> True | _ \<Rightarrow> False))"

lemma secrets_tests:
  "allowed_module_can_read_secret" "denied_module_cannot_read_secret" "unregistered_key_returns_not_found"
  "keys_returns_sorted_registered_keys" "provider_missing_key_returns_not_found"
  by code_simp+

section \<open>Sandbox templates\<close>

definition allowed_names :: "seccomp_profile \<Rightarrow> string list" where
  "allowed_names profile = concat (map sr_names (filter (\<lambda>r. sr_action r = SeccompAllow) (sp_rules profile)))"

definition mcp_plugin_seccomp_denies_by_default :: bool where
  "mcp_plugin_seccomp_denies_by_default \<longleftrightarrow> sp_default_action seccomp_mcp_plugin = SeccompErrno"

definition mcp_plugin_seccomp_allows_basic_io :: bool where
  "mcp_plugin_seccomp_allows_basic_io \<longleftrightarrow>
     (let allowed = allowed_names seccomp_mcp_plugin
      in ''read'' \<in> set allowed \<and> ''write'' \<in> set allowed \<and> ''close'' \<in> set allowed)"

definition model_runtime_seccomp_allows_network :: bool where
  "model_runtime_seccomp_allows_network \<longleftrightarrow>
     (let allowed = allowed_names seccomp_model_runtime in ''socket'' \<in> set allowed \<and> ''connect'' \<in> set allowed)"

definition mcp_plugin_apparmor_denies_network :: bool where
  "mcp_plugin_apparmor_denies_network \<longleftrightarrow>
     (let profile = apparmor_mcp_plugin ''/opt/plugins'' in \<not> aa_network_access profile \<and> aa_write_paths profile = [])"

definition model_runtime_apparmor_allows_network :: bool where
  "model_runtime_apparmor_allows_network \<longleftrightarrow>
     (let profile = apparmor_model_runtime ''/etc/llmos'' ''/var/log/llmos''
      in aa_network_access profile \<and> aa_write_paths profile \<noteq> [])"

definition full_namespace_isolates_everything :: bool where
  "full_namespace_isolates_everything \<longleftrightarrow>
     (let ns = namespace_full in ns_pid ns \<and> ns_net ns \<and> ns_mount ns \<and> ns_ipc ns \<and> ns_user ns)"

definition none_namespace_shares_everything :: bool where
  "none_namespace_shares_everything \<longleftrightarrow>
     (let ns = namespace_none in \<not> ns_pid ns \<and> \<not> ns_net ns \<and> \<not> ns_mount ns \<and> \<not> ns_ipc ns \<and> \<not> ns_user ns)"

definition minimal_capabilities_deny_dangerous_caps :: bool where
  "minimal_capabilities_deny_dangerous_caps \<longleftrightarrow>
     (let caps = capability_minimal
      in cs_allowed caps = [] \<and> ''CAP_SYS_ADMIN'' \<in> set (cs_denied caps) \<and> ''CAP_NET_RAW'' \<in> set (cs_denied caps))"

definition model_runtime_capabilities_allow_net_bind :: bool where
  "model_runtime_capabilities_allow_net_bind \<longleftrightarrow>
     ''CAP_NET_BIND_SERVICE'' \<in> set (cs_allowed capability_model_runtime)"

lemma sandbox_tests:
  "mcp_plugin_seccomp_denies_by_default" "mcp_plugin_seccomp_allows_basic_io" "model_runtime_seccomp_allows_network"
  "mcp_plugin_apparmor_denies_network" "model_runtime_apparmor_allows_network" "full_namespace_isolates_everything"
  "none_namespace_shares_everything" "minimal_capabilities_deny_dangerous_caps" "model_runtime_capabilities_allow_net_bind"
  by code_simp+

section \<open>The bus\<close>

text \<open>
  The tests run on the list instance of tokio's channels; a receiver reads the head of its buffer. Payloads are JSON
  texts, and the clock and the counter of identifiers are arbitrary.
\<close>

definition rx_recv :: "nat \<Rightarrow> (nat, list_channels) local_channel \<Rightarrow> string envelope option" where
  "rx_recv ch bus = (case list_buffered (lc_channels bus) ch of [] \<Rightarrow> None | e # es \<Rightarrow> Some e)"

definition subscribed_then ::
  "string \<Rightarrow> (nat, list_channels) local_channel \<Rightarrow> (nat \<Rightarrow> (nat, list_channels) local_channel \<Rightarrow> bool) \<Rightarrow> bool" where
  "subscribed_then topic bus P =
     returns_then (local_subscribe list_mpsc topic bus) (\<lambda>(r, bus'). unwrap_then r (\<lambda>rx. P rx bus'))"

definition published_then ::
  "string envelope \<Rightarrow> (nat, list_channels) local_channel \<Rightarrow> ((nat, list_channels) local_channel \<Rightarrow> bool) \<Rightarrow> bool" where
  "published_then msg bus P = (case local_publish list_mpsc msg bus of (r, bus') \<Rightarrow> unwrap_then r (\<lambda>_. P bus'))"

definition publish_delivers_to_subscriber :: "int \<Rightarrow> int \<Rightarrow> u64 \<Rightarrow> bool" where
  "publish_delivers_to_subscriber t0 t1 seq \<longleftrightarrow>
     subscribed_then ''events'' (local_new []) (\<lambda>rx bus.
       published_then (fst (envelope_new t0 t1 ''events'' ''test-source'' ''{key: value}'' seq)) bus (\<lambda>bus.
         case rx_recv rx bus of None \<Rightarrow> False
         | Some received \<Rightarrow> env_topic received = ''events'' \<and> env_source received = ''test-source''
             \<and> env_payload received = ''{key: value}''))"

definition publish_to_topic_with_no_subscribers_returns_error :: "int \<Rightarrow> int \<Rightarrow> u64 \<Rightarrow> bool" where
  "publish_to_topic_with_no_subscribers_returns_error t0 t1 seq \<longleftrightarrow>
     (let bus = local_new []; msg = fst (envelope_new t0 t1 ''nowhere'' ''test-source'' ''null'' seq)
      in unwrap_err_then (fst (local_publish list_mpsc msg bus)) (\<lambda>err. case err of NoSubscribers _ \<Rightarrow> True | _ \<Rightarrow> False))"

definition multiple_subscribers_each_receive_a_copy :: "int \<Rightarrow> int \<Rightarrow> u64 \<Rightarrow> bool" where
  "multiple_subscribers_each_receive_a_copy t0 t1 seq \<longleftrightarrow>
     subscribed_then ''topic-a'' (local_new []) (\<lambda>rx1 bus. subscribed_then ''topic-a'' bus (\<lambda>rx2 bus.
       published_then (fst (envelope_new t0 t1 ''topic-a'' ''src'' ''42'' seq)) bus (\<lambda>bus.
         map_option env_payload (rx_recv rx1 bus) = Some ''42'' \<and> map_option env_payload (rx_recv rx2 bus) = Some ''42'')))"

definition message_id_is_unique :: "int \<Rightarrow> int \<Rightarrow> int \<Rightarrow> int \<Rightarrow> u64 \<Rightarrow> bool" where
  "message_id_is_unique t0 t1 t2 t3 seq \<longleftrightarrow>
     (case envelope_new t0 t1 ''t'' ''s'' ''null'' seq of (a, seq') \<Rightarrow>
      case envelope_new t2 t3 ''t'' ''s'' ''null'' seq' of (b, seq'') \<Rightarrow> env_id a \<noteq> env_id b)"

definition separate_topics_are_isolated :: "int \<Rightarrow> int \<Rightarrow> int \<Rightarrow> int \<Rightarrow> u64 \<Rightarrow> bool" where
  "separate_topics_are_isolated t0 t1 t2 t3 seq \<longleftrightarrow>
     subscribed_then ''topic-a'' (local_new []) (\<lambda>rx_a bus. subscribed_then ''topic-b'' bus (\<lambda>rx_b bus.
       case envelope_new t0 t1 ''topic-a'' ''s'' ''a'' seq of (ea, seq') \<Rightarrow>
       published_then ea bus (\<lambda>bus. published_then (fst (envelope_new t2 t3 ''topic-b'' ''s'' ''b'' seq')) bus (\<lambda>bus.
         map_option env_payload (rx_recv rx_a bus) = Some ''a'' \<and> map_option env_payload (rx_recv rx_b bus) = Some ''b''))))"

lemma service_bus_tests:
  "publish_delivers_to_subscriber t0 t1 seq" "publish_to_topic_with_no_subscribers_returns_error t0 t1 seq"
  "multiple_subscribers_each_receive_a_copy t0 t1 seq" "message_id_is_unique t0 t1 t2 t3 seq"
  "separate_topics_are_isolated t0 t1 t2 t3 seq"
  by (auto simp: publish_delivers_to_subscriber_def publish_to_topic_with_no_subscribers_returns_error_def
      multiple_subscribers_each_receive_a_copy_def message_id_is_unique_def separate_topics_are_isolated_def
      subscribed_then_def published_then_def local_subscribe_def local_publish_def list_mpsc_def list_buffered_def
      rx_recv_def local_new_def local_with_capacity_def local_subscribers_def DEFAULT_CHANNEL_CAPACITY_def
      envelope_new_def message_id_generate_def Let_def dest: seq_id_inject_seq)

end
