(* ===== verification/Tests_Llmd.thy ===== *)
theory Tests_Llmd
  imports Tests_Services Audit_Log Benchmark
begin

text \<open>
  The unit tests of \<^verbatim>\<open>services/llmd/src/lib.rs\<close>: the pipeline with test doubles for its three parties, the JSONL sink and
  the rendered metrics. The serialiser of events is arbitrary; what a test needs of it is a premise.
\<close>

section \<open>Test doubles\<close>

record fake_policy_client =
  fpc_decision :: "policy_decision_record option"
  fpc_error :: "llmos_error option"

definition fake_evaluate :: "fake_policy_client \<Rightarrow> llmos_error + policy_decision_record" where
  "fake_evaluate c =
     (case fpc_error c of
        Some err \<Rightarrow> Inl err
      | None \<Rightarrow> ok_or (PolicyUnavailable ''missing fake decision'') (fpc_decision c))"

text \<open>The calls of \<open>TestExecutor\<close> and the events of \<open>RecordingAuditSink\<close>.\<close>

record test_world =
  tw_calls :: nat
  tw_events :: "audit_event list"

definition test_execute :: "action_request \<Rightarrow> test_world \<Rightarrow> action_outcome \<times> test_world" where
  "test_execute request w =
     (Done (Inr \<lparr>res_version = ar_version request, res_status = Executed, res_message = ''ok''\<rparr>),
      w\<lparr>tw_calls := tw_calls w + 1\<rparr>)"

definition recording_emit :: "audit_event \<Rightarrow> test_world \<Rightarrow> test_world" where
  "recording_emit event w = w\<lparr>tw_events := tw_events w @ [event]\<rparr>"

definition last_event_then :: "test_world \<Rightarrow> (audit_event \<Rightarrow> bool) \<Rightarrow> bool" where
  "last_event_then w P = (tw_events w \<noteq> [] \<and> P (List.last (tw_events w)))"

definition fake_process :: "fake_policy_client \<Rightarrow> int \<Rightarrow> action_request \<Rightarrow> action_outcome \<times> test_world" where
  "fake_process c clock_ns request =
     process_action (\<lambda>_ w. (Done (fake_evaluate c), w)) test_execute recording_emit (\<lambda>_ w. w) clock_ns request
       \<lparr>tw_calls = 0, tw_events = []\<rparr>"

definition lib_request :: action_request where
  "lib_request = \<lparr>ar_version = ''v1'', ar_request_id = ''req-123'', ar_correlation_id = ''corr-123'',
     ar_subject = ''runtime/model-runtime'', ar_action = ''network:connect'', ar_resource = ''api.openai.com''\<rparr>"

section \<open>The pipeline\<close>

definition allow_path_executes_action_and_emits_audit :: "int \<Rightarrow> bool" where
  "allow_path_executes_action_and_emits_audit clock_ns \<longleftrightarrow>
     (let policy = \<lparr>fpc_decision = Some \<lparr>pd_version = ''v1'', pd_effect = PolicyAllow,
            pd_reason = ''allowed by matching rule'', pd_rule_id = Some ''allow-network''\<rparr>, fpc_error = None\<rparr>
      in case fake_process policy clock_ns lib_request of (out, w) \<Rightarrow>
        returns_then out (\<lambda>r. unwrap_then r (\<lambda>result. res_status result = Executed \<and> tw_calls w = 1
          \<and> last_event_then w (\<lambda>event. ae_request_id event = ''req-123'' \<and> ae_correlation_id event = ''corr-123''
               \<and> pd_effect (ae_decision event) = PolicyAllow \<and> ae_outcome event = Executed))))"

definition explicit_deny_does_not_execute_action :: "int \<Rightarrow> bool" where
  "explicit_deny_does_not_execute_action clock_ns \<longleftrightarrow>
     (let policy = \<lparr>fpc_decision = Some \<lparr>pd_version = ''v1'', pd_effect = PolicyDeny,
            pd_reason = ''denied by matching rule'', pd_rule_id = Some ''deny-network''\<rparr>, fpc_error = None\<rparr>
      in case fake_process policy clock_ns lib_request of (out, w) \<Rightarrow>
        returns_then out (\<lambda>r. unwrap_err_then r (\<lambda>err. (case err of ActionDenied _ \<Rightarrow> True | _ \<Rightarrow> False) \<and> tw_calls w = 0
          \<and> last_event_then w (\<lambda>event. pd_effect (ae_decision event) = PolicyDeny \<and> ae_outcome event = Denied))))"

definition policy_error_fails_closed_and_does_not_execute_action :: "int \<Rightarrow> bool" where
  "policy_error_fails_closed_and_does_not_execute_action clock_ns \<longleftrightarrow>
     (let policy = \<lparr>fpc_decision = None, fpc_error = Some (PolicyUnavailable ''connection refused'')\<rparr>
      in case fake_process policy clock_ns lib_request of (out, w) \<Rightarrow>
        returns_then out (\<lambda>r. unwrap_err_then r (\<lambda>err. (case err of ActionDenied _ \<Rightarrow> True | _ \<Rightarrow> False) \<and> tw_calls w = 0
          \<and> last_event_then w (\<lambda>event. pd_effect (ae_decision event) = PolicyDeny \<and> pd_rule_id (ae_decision event) = None
               \<and> ae_outcome event = Denied))))"

lemma pipeline_tests:
  "allow_path_executes_action_and_emits_audit t" "explicit_deny_does_not_execute_action t"
  "policy_error_fails_closed_and_does_not_execute_action t"
  by (simp_all add: allow_path_executes_action_and_emits_audit_def explicit_deny_does_not_execute_action_def
      policy_error_fails_closed_and_does_not_execute_action_def fake_process_def fake_evaluate_def process_action_def
      test_execute_def recording_emit_def last_event_then_def build_audit_event_def lib_request_def Let_def)

section \<open>The JSONL sink\<close>

definition test_event :: "string \<Rightarrow> string \<Rightarrow> nat \<Rightarrow> audit_event" where
  "test_event request_id correlation_id now =
     \<lparr>ae_version = ''v1'', ae_request_id = request_id, ae_correlation_id = correlation_id, ae_timestamp_unix_ms = now,
      ae_subject = ''runtime/model-runtime'', ae_action = ''network:connect'', ae_resource = ''api.openai.com'',
      ae_decision = \<lparr>pd_version = ''v1'', pd_effect = PolicyAllow, pd_reason = ''allowed by matching rule'',
        pd_rule_id = Some ''allow-network''\<rparr>, ae_outcome = Executed\<rparr>"

definition jsonl_audit_sink_writes_event ::
  "(audit_event \<Rightarrow> string option) \<Rightarrow> (string \<Rightarrow> audit_event option) \<Rightarrow> string \<Rightarrow> nat \<Rightarrow> bool" where
  "jsonl_audit_sink_writes_event to_json from_json path now \<longleftrightarrow>
     (case jsonl_new (\<lambda>_. None) path \<lparr>dk_files = (\<lambda>_. None), dk_ops = 0\<rparr> of
        (None, d) \<Rightarrow> False
      | (Some sink, d) \<Rightarrow>
          (case jsonl_emit (\<lambda>_. None) to_json (test_event ''req-xyz'' ''corr-xyz'' now) ((sink, d), None) of ((sink', d'), cell) \<Rightarrow>
             (case dk_files d' path of
                None \<Rightarrow> False
              | Some content \<Rightarrow>
                  (case str_lines content of
                     [] \<Rightarrow> False
                   | line # rest \<Rightarrow>
                       (case from_json line of
                          None \<Rightarrow> False
                        | Some parsed \<Rightarrow> ae_request_id parsed = ''req-xyz'' \<and> ae_correlation_id parsed = ''corr-xyz''
                            \<and> ae_outcome parsed = Executed)))))"

lemma jsonl_write_test:
  assumes "to_json (test_event ''req-xyz'' ''corr-xyz'' now) = Some j" "from_json j = Some (test_event ''req-xyz'' ''corr-xyz'' now)"
    and "CHR 0x0A \<notin> set j" "CHR 0x0D \<notin> set j" "length j < 1024"
  shows "jsonl_audit_sink_writes_event to_json from_json path now"
proof -
  have "str_lines (j @ nl) = [j]"
    using lines_from_line [OF assms(3), of "[]" "[]"] assms(4) strip_suffix_None_iff [of j "[CHR 0x0D]"]
    by (auto simp: str_lines_def nl_def strip_cr_def suffix_def)
  then show ?thesis
    using assms by (simp add: jsonl_audit_sink_writes_event_def jsonl_new_def new_with_rotation_def simple_op_def
        open_append_def metadata_len_def jsonl_emit_def emit_payload_def ensure_file_def write_event_def write_all_def
        put_bytes_def flush_file_def test_event_def nl_def Let_def)
qed

definition rotate_event_payloads :: "(audit_event \<Rightarrow> string) \<Rightarrow> (nat \<Rightarrow> nat) \<Rightarrow> string list" where
  "rotate_event_payloads json now =
     map (\<lambda>idx. json (test_event (''req-rotate-'' @ show_nat idx) ''corr-rotate'' (now idx)) @ nl) [0..<6]"

definition jsonl_audit_sink_rotates_by_size :: "(audit_event \<Rightarrow> string) \<Rightarrow> (nat \<Rightarrow> nat) \<Rightarrow> string \<Rightarrow> bool" where
  "jsonl_audit_sink_rotates_by_size json now path \<longleftrightarrow>
     (case new_with_rotation (\<lambda>_. None) path 220 2 \<lparr>dk_files = (\<lambda>_. None), dk_ops = 0\<rparr> of
        (None, d) \<Rightarrow> False
      | (Some sink, d) \<Rightarrow>
          (case emit_all (\<lambda>_. None) (rotate_event_payloads json now) sink d of (ok, sink', d') \<Rightarrow>
             path_exists d' path \<and> path_exists d' (rotated_path path 1) \<and> path_exists d' (rotated_path path 2)))"

text \<open>After \<open>k\<close> events that each exceed the limit, the generations up to the smaller of \<open>k\<close> and 2 exist.\<close>

definition rotated_times :: "nat \<Rightarrow> string \<Rightarrow> jsonl_sink \<Rightarrow> disk \<Rightarrow> bool" where
  "rotated_times k path s d \<longleftrightarrow> sink_synced s d \<and> healthy (\<lambda>_. None) d \<and> js_path s = path \<and> js_max_bytes s = 220
     \<and> js_max_files s = 2 \<and> (\<forall>i\<le>min k 2. path_exists d (generation path i))"

lemma rotated_once_more:
  assumes "rotated_times k path s d" "220 < length payload" "length payload < 2 ^ 64"
  shows "\<exists>s' d'. emit_payload (\<lambda>_. None) payload s d = (True, s', d') \<and> rotated_times (Suc k) path s' d'"
proof -
  have s: "sink_synced s d" "healthy (\<lambda>_. None) d" "js_path s = path" "js_max_bytes s = 220" "js_max_files s = 2"
    and gen: "\<And>i. i \<le> min k 2 \<Longrightarrow> path_exists d (generation path i)"
    using assms(1) by (simp_all add: rotated_times_def)
  then have handle: "js_file s \<noteq> None"
    by (auto simp: sink_synced_def)
  obtain s1 d1 where rot: "rotate_files (\<lambda>_. None) s d = (True, s1, d1)" "healthy (\<lambda>_. None) d1"
      "js_file s1 = Some (HandleAt 0)" "js_bytes_written s1 = 0" "js_path s1 = path" "js_max_files s1 = 2" "js_max_bytes s1 = 220"
    and shift: "\<And>i. dk_files d1 (generation path i) = (if i = 0 then Some [] else shifted (dk_files d) path 2 i)"
    using rotate_files_shifts [OF s(2) handle] unfolding s(3-5) by blast
  have "dk_files d1 path = Some []"
    using shift [of 0] by (simp add: generation_def)
  then obtain s2 d2 where w: "write_event (\<lambda>_. None) payload s1 d1 = (True, s2, d2)" "healthy (\<lambda>_. None) d2" "sink_synced s2 d2"
    "dk_files d2 = (dk_files d1)(path \<mapsto> payload)" "js_path s2 = path" "js_max_files s2 = 2" "js_max_bytes s2 = 220"
    using write_event_healthy [of "\<lambda>_. None" d1 s1 "HandleAt 0" "[]" payload] rot assms(3)
    by (auto simp: handle_at_end_def)
  have "path_exists d2 (generation path i)" if "i \<le> min (Suc k) 2" for i
    using that gen [of "i - 1"] shift [of i] w(4) by (cases i) (auto simp: path_exists_def shifted_def)
  moreover have "emit_payload (\<lambda>_. None) payload s d = (True, s2, d2)"
    using assms(2) s(4) rot(1,3) w(1) by (simp add: emit_payload_def ensure_file_def)
  ultimately show ?thesis
    using w by (simp add: rotated_times_def)
qed

lemma rotated_by_events:
  "rotated_times k path s d \<Longrightarrow> \<forall>payload\<in>set payloads. 220 < length payload \<and> length payload < 2 ^ 64 \<Longrightarrow>
    \<exists>s' d'. emit_all (\<lambda>_. None) payloads s d = (True, s', d') \<and> rotated_times (k + length payloads) path s' d'"
proof (induction payloads arbitrary: k s d)
  case (Cons payload payloads)
  then obtain s1 d1 where "emit_payload (\<lambda>_. None) payload s d = (True, s1, d1)" "rotated_times (Suc k) path s1 d1"
    using rotated_once_more by (metis list.set_intros(1))
  with Cons.IH [of "Suc k" s1 d1] Cons.prems(2) show ?case
    by auto
qed simp

lemma jsonl_rotate_test:
  assumes "\<And>event. 220 < length (json event) \<and> length (json event) < 2 ^ 63"
  shows "jsonl_audit_sink_rotates_by_size json now path"
proof -
  let ?d0 = "\<lparr>dk_files = (\<lambda>_. None), dk_ops = 0\<rparr>"
  have h: "healthy (\<lambda>_. None) ?d0"
    by (simp add: healthy_def)
  obtain sink d where new: "new_with_rotation (\<lambda>_. None) path 220 2 ?d0 = (Some sink, d)"
    and "healthy (\<lambda>_. None) d" "sink_synced sink d" "js_path sink = path" "js_max_bytes sink = 220" "js_max_files sink = max 2 1"
    using new_with_rotation_healthy [OF h, of path 220 2] by blast
  then have start: "rotated_times 0 path sink d"
    by (auto simp: rotated_times_def generation_def path_exists_def sink_synced_def)
  have len: "220 < Suc (length (json event))" "Suc (length (json event)) < 2 ^ 64" for event
    using assms [of event] by simp_all
  have "\<forall>payload\<in>set (rotate_event_payloads json now). 220 < length payload \<and> length payload < 2 ^ 64"
    using len by (auto simp: rotate_event_payloads_def nl_def)
  from rotated_by_events [OF start this] obtain s' d' where
    "emit_all (\<lambda>_. None) (rotate_event_payloads json now) sink d = (True, s', d')"
    "rotated_times (length (rotate_event_payloads json now)) path s' d'"
    by auto
  then have "emit_all (\<lambda>_. None) (rotate_event_payloads json now) sink d = (True, s', d')"
    "\<forall>i\<le>2. path_exists d' (generation path i)"
    by (simp_all add: rotated_times_def rotate_event_payloads_def)
  then have "path_exists d' (generation path 0)" "path_exists d' (generation path 1)" "path_exists d' (generation path 2)"
    by simp_all
  with new \<open>emit_all _ _ _ _ = _\<close> show ?thesis
    by (simp add: jsonl_audit_sink_rotates_by_size_def generation_def)
qed

section \<open>Metrics\<close>

definition metrics_render_includes_policy_and_audit_fields :: bool where
  "metrics_render_includes_policy_and_audit_fields \<longleftrightarrow>
     (let metrics = mark_audit_write_failure (set_breaker_open True (inc_breaker_open_total (observe_policy_latency 42000000
            (inc_policy_allows (inc_policy_denies (inc_policy_retries (inc_policy_requests runtime_metrics_default)))))));
          rendered = runtime_render_prometheus metrics
      in str_contains rendered ''llmos_policy_requests_total 1'' \<and> str_contains rendered ''llmos_policy_retries_total 1''
       \<and> str_contains rendered ''llmos_policy_denies_total 1'' \<and> str_contains rendered ''llmos_policy_allows_total 1''
       \<and> str_contains rendered ''llmos_policy_breaker_open 1'' \<and> str_contains rendered ''llmos_audit_write_failures_total 1''
       \<and> str_contains rendered ''llmos_policy_latency_ms_count 1'')"

lemma metrics_render_test: "metrics_render_includes_policy_and_audit_fields"
proof -
  define m where "m = mark_audit_write_failure (set_breaker_open True (inc_breaker_open_total (observe_policy_latency 42000000
    (inc_policy_allows (inc_policy_denies (inc_policy_retries (inc_policy_requests runtime_metrics_default)))))))"
  have m: "policy_requests_total m = 1" "policy_retries_total m = 1" "policy_denies_total m = 1" "policy_allows_total m = 1"
    "policy_breaker_open_state m = 1" "audit_write_failures_total m = 1" "policy_latency_count m = 1"
    by (simp_all add: m_def runtime_metric_defs runtime_metrics_default_def)
  have "str_contains (runtime_render_prometheus m) (''llmos_policy_requests_total '' @ show_u64 1)"
    "str_contains (runtime_render_prometheus m) (''llmos_policy_retries_total '' @ show_u64 1)"
    "str_contains (runtime_render_prometheus m) (''llmos_policy_denies_total '' @ show_u64 1)"
    "str_contains (runtime_render_prometheus m) (''llmos_policy_allows_total '' @ show_u64 1)"
    "str_contains (runtime_render_prometheus m) (''llmos_policy_breaker_open '' @ show_u64 1)"
    "str_contains (runtime_render_prometheus m) (''llmos_audit_write_failures_total '' @ show_u64 1)"
    "str_contains (runtime_render_prometheus m) (''llmos_policy_latency_ms_count '' @ show_u64 1)"
    unfolding runtime_render_prometheus_def m by (rule contains_here | rule contains_skip)+
  then show ?thesis
    by (simp add: metrics_render_includes_policy_and_audit_fields_def Let_def flip: m_def)
      (simp add: show_u64_digits)
qed

end
