(* ===== verification/Tests_Tools.thy ===== *)
theory Tests_Tools
  imports Tests_Services Mcp_Runtime Mock_Plugin Cli_Ops
begin

text \<open>
  The unit tests of the MCP runtime (\<^verbatim>\<open>services/mcp-runtime/src\<close>), the mock plugin and the commands of \<^verbatim>\<open>tools/llmos-cli\<close>. What
  a test gives to code of a library (JSON text, a server that it starts) is a premise about the parameter that stands for
  that code.
\<close>

section \<open>MCP runtime\<close>

definition parse_manifest_accepts_valid_payload :: "(string \<Rightarrow> string + plugin_manifest) \<Rightarrow> string \<Rightarrow> bool" where
  "parse_manifest_accepts_valid_payload from_json raw \<longleftrightarrow>
     unwrap_then (parse_manifest_json from_json raw ''manifest.json'') (\<lambda>manifest.
       pm_id manifest = ''example.plugin'' \<and> pm_version manifest = ''1.0.0'' \<and> pm_entrypoint manifest = ''node server.js'')"

definition parse_manifest_rejects_invalid_id :: "(string \<Rightarrow> string + plugin_manifest) \<Rightarrow> string \<Rightarrow> bool" where
  "parse_manifest_rejects_invalid_id from_json raw \<longleftrightarrow>
     unwrap_err_then (parse_manifest_json from_json raw ''manifest.json'') (\<lambda>err. str_contains err ''invalid plugin id'')"

definition load_manifests_rejects_duplicate_ids :: "(string \<Rightarrow> string + plugin_manifest) \<Rightarrow> string \<Rightarrow> string \<Rightarrow> bool" where
  "load_manifests_rejects_duplicate_ids from_json json root \<longleftrightarrow>
     (let one = \<lparr>de_path = root @ ''/one.json'', de_is_file = True, de_extension = Some ''json'', de_content = Some json\<rparr>;
          two = \<lparr>de_path = root @ ''/two.json'', de_is_file = True, de_extension = Some ''json'', de_content = Some json\<rparr>
      in unwrap_err_then (load_manifests from_json root (Listing [Inr one, Inr two])) (\<lambda>err.
           str_contains err ''duplicate plugin id''))"

lemma test_trims: "trim ''node server.js'' = ''node server.js''" "trim ''echo test'' = ''echo test''" "trim ''echo hi'' = ''echo hi''"
  by code_simp+

lemma parse_manifest_tests:
  "from_json raw = Inr \<lparr>pm_id = ''example.plugin'', pm_version = ''1.0.0'', pm_entrypoint = ''node server.js'',
      pm_description = None, pm_capabilities = [McpSpawn, FsRead]\<rparr>
    \<Longrightarrow> parse_manifest_accepts_valid_payload from_json raw"
  "from_json raw = Inr \<lparr>pm_id = ''Example.Plugin'', pm_version = ''1.0.0'', pm_entrypoint = ''node server.js'',
      pm_description = None, pm_capabilities = [McpSpawn]\<rparr>
    \<Longrightarrow> parse_manifest_rejects_invalid_id from_json raw"
  by (simp_all add: parse_manifest_accepts_valid_payload_def parse_manifest_rejects_invalid_id_def parse_manifest_json_def
      validate_plugin_id_def plugin_id_char_def is_ascii_lowercase_def is_ascii_digit_def test_trims)

lemma load_manifests_test:
  "from_json raw = Inr \<lparr>pm_id = ''dup.plugin'', pm_version = ''1.0.0'', pm_entrypoint = ''echo test'',
      pm_description = None, pm_capabilities = [FsRead]\<rparr>
    \<Longrightarrow> load_manifests_rejects_duplicate_ids from_json raw root"
  by (simp add: load_manifests_rejects_duplicate_ids_def load_manifests_def load_manifest_file_def parse_manifest_json_def
      validate_plugin_id_def plugin_id_char_def is_ascii_lowercase_def is_ascii_digit_def test_trims)

definition parse_start_command :: bool where
  "parse_start_command \<longleftrightarrow>
     unwrap_then (parse_admin_command ''start my.plugin'') (\<lambda>cmd. case cmd of AdminStart i \<Rightarrow> i = ''my.plugin'' | _ \<Rightarrow> False)"

definition parse_quit_command :: bool where
  "parse_quit_command \<longleftrightarrow> unwrap_then (parse_admin_command ''quit'') (\<lambda>cmd. cmd = AdminQuit)"

definition parse_unknown_command_errors :: bool where
  "parse_unknown_command_errors \<longleftrightarrow>
     unwrap_err_then (parse_admin_command ''explode'') (\<lambda>err. str_contains err ''unknown command'')"

lemma admin_command_tests: "parse_start_command" "parse_quit_command" "parse_unknown_command_errors"
  by code_simp+

definition plugin_without_network_gets_restrictive_profile :: bool where
  "plugin_without_network_gets_restrictive_profile \<longleftrightarrow>
     (let config = resolve_sandbox ''test.plugin'' [McpSpawn, AuditEmit] ''/opt/plugins''
      in psc_namespaces config = namespace_full \<and> psc_capabilities config = capability_minimal)"

definition plugin_with_network_gets_permissive_profile :: bool where
  "plugin_with_network_gets_permissive_profile \<longleftrightarrow>
     (let config = resolve_sandbox ''test.plugin'' [NetworkEgress, McpSpawn] ''/opt/plugins''
      in psc_namespaces config = namespace_network_only \<and> psc_capabilities config = capability_model_runtime)"

lemma resolve_sandbox_tests:
  "plugin_without_network_gets_restrictive_profile" "plugin_with_network_gets_permissive_profile"
  by code_simp+

section \<open>Mock plugin\<close>

definition make_request :: "string \<Rightarrow> json \<Rightarrow> json_rpc_request" where
  "make_request method params = \<lparr>jq_id = Some (JNumber ''1''), jq_method = method, jq_params = params\<rparr>"

text \<open>Indexing a value by a key or a position gives \<open>Null\<close> when there is nothing.\<close>

definition json_key :: "json \<Rightarrow> string \<Rightarrow> json" where
  "json_key v key = (case json_get v key of None \<Rightarrow> JNull | Some x \<Rightarrow> x)"

fun json_nth :: "json \<Rightarrow> nat \<Rightarrow> json" where
  "json_nth (JArray vs) i = (if i < length vs then vs ! i else JNull)"
| "json_nth v i = JNull"

definition result_then :: "json_rpc_response \<Rightarrow> (json \<Rightarrow> bool) \<Rightarrow> bool" where
  "result_then resp P = (case jr_result resp of None \<Rightarrow> False | Some result \<Rightarrow> P result)"

definition initialize_returns_server_info :: "string \<Rightarrow> bool" where
  "initialize_returns_server_info version \<longleftrightarrow>
     result_then (handle_request version (make_request ''initialize'' (JObject []))) (\<lambda>result.
       json_as_str (json_key (json_key result ''serverInfo'') ''name'') = Some ''mock-mcp-echo'')"

definition tools_list_returns_echo_tool :: "string \<Rightarrow> bool" where
  "tools_list_returns_echo_tool version \<longleftrightarrow>
     result_then (handle_request version (make_request ''tools/list'' (JObject []))) (\<lambda>result.
       case json_key result ''tools'' of
         JArray tools \<Rightarrow> length tools = 1 \<and> json_as_str (json_key (tools ! 0) ''name'') = Some ''echo''
       | _ \<Rightarrow> False)"

definition echo_tool_returns_input_message :: "string \<Rightarrow> bool" where
  "echo_tool_returns_input_message version \<longleftrightarrow>
     result_then (handle_request version (make_request ''tools/call'' (JObject [(''name'', JString ''echo''),
         (''arguments'', JObject [(''message'', JString ''hello world'')])]))) (\<lambda>result.
       json_as_str (json_key (json_nth (json_key result ''content'') 0) ''text'') = Some ''hello world'')"

definition unknown_method_returns_error :: "string \<Rightarrow> bool" where
  "unknown_method_returns_error version \<longleftrightarrow>
     (case jr_error (handle_request version (make_request ''nonexistent'' (JObject []))) of
        None \<Rightarrow> False | Some err \<Rightarrow> je_code err = - 32601)"

definition unknown_tool_returns_error :: "string \<Rightarrow> bool" where
  "unknown_tool_returns_error version \<longleftrightarrow>
     (case jr_error (handle_request version (make_request ''tools/call'' (JObject [(''name'', JString ''nonexistent''),
         (''arguments'', JObject [])]))) of
        None \<Rightarrow> False | Some err \<Rightarrow> je_code err = - 32602)"

definition ping_returns_empty_result :: "string \<Rightarrow> bool" where
  "ping_returns_empty_result version \<longleftrightarrow>
     result_then (handle_request version (make_request ''ping'' (JObject []))) (\<lambda>result. result = JObject [])"

lemma mock_plugin_tests:
  "initialize_returns_server_info version" "tools_list_returns_echo_tool version" "echo_tool_returns_input_message version"
  "unknown_method_returns_error version" "unknown_tool_returns_error version" "ping_returns_empty_result version"
  by (simp_all add: initialize_returns_server_info_def tools_list_returns_echo_tool_def echo_tool_returns_input_message_def
      unknown_method_returns_error_def unknown_tool_returns_error_def ping_returns_empty_result_def make_request_def
      handle_request_def handle_tool_call_def initialize_result_def tools_list_result_def response_success_def
      response_error_def result_then_def json_key_def unwrap_str_def)

section \<open>llmos policy\<close>

definition render_policy_check_text_handles_missing_rule_id :: "(json \<Rightarrow> string + string) \<Rightarrow> bool" where
  "render_policy_check_text_handles_missing_rule_id render_json \<longleftrightarrow>
     (let result = \<lparr>pco_decision = ''allow'', pco_reason = ''matched rule'', pco_rule_id = None,
            pco_request_id = ''req-1'', pco_correlation_id = ''corr-1''\<rparr>
      in unwrap_then (render_policy_check render_json result TextOutput) (\<lambda>rendered.
           str_contains rendered ''decision: allow'' \<and> str_contains rendered ''rule_id: <none>''))"

text \<open>The pretty printer of the JSON library prints a member of an object as its key, a colon, a blank and the value, where
  a text without characters that need an escape stands in quotes as it is.\<close>

definition json_text :: "string \<Rightarrow> string" where
  "json_text s = [CHR 0x22] @ s @ [CHR 0x22]"

definition json_member :: "string \<Rightarrow> string \<Rightarrow> string" where
  "json_member key shown = json_text key @ '': '' @ shown"

definition plain_text :: "string \<Rightarrow> bool" where
  "plain_text = list_all (\<lambda>c. is_ascii_lowercase c \<or> is_ascii_uppercase c \<or> is_ascii_digit c \<or> c = CHR ''-'' \<or> c = CHR ''_'')"

definition prints_members :: "(json \<Rightarrow> string + string) \<Rightarrow> bool" where
  "prints_members render_json \<longleftrightarrow>
     (\<forall>kvs. \<exists>out. render_json (JObject kvs) = Inr out
        \<and> (\<forall>key s. (key, JString s) \<in> set kvs \<longrightarrow> plain_text key \<longrightarrow> plain_text s
             \<longrightarrow> str_contains out (json_member key (json_text s)))
        \<and> (\<forall>key n. (key, JNumber n) \<in> set kvs \<longrightarrow> plain_text key \<longrightarrow> str_contains out (json_member key n)))"

lemma prints_membersE:
  assumes "prints_members render_json"
  obtains out where "render_json (JObject kvs) = Inr out"
    "\<And>key s. (key, JString s) \<in> set kvs \<Longrightarrow> plain_text key \<Longrightarrow> plain_text s \<Longrightarrow> str_contains out (json_member key (json_text s))"
    "\<And>key n. (key, JNumber n) \<in> set kvs \<Longrightarrow> plain_text key \<Longrightarrow> str_contains out (json_member key n)"
  using assms [unfolded prints_members_def, THEN spec, of kvs] by blast

lemma plain_texts:
  "plain_text ''decision''" "plain_text ''rule_id''" "plain_text ''status''" "plain_text ''latency_ms''"
  "plain_text ''deny''" "plain_text ''rule-1''" "plain_text ''SERVING''"
  by (simp_all add: plain_text_def is_ascii_lowercase_def is_ascii_uppercase_def is_ascii_digit_def)

definition render_policy_check_json_includes_expected_keys :: "(json \<Rightarrow> string + string) \<Rightarrow> bool" where
  "render_policy_check_json_includes_expected_keys render_json \<longleftrightarrow>
     (let result = \<lparr>pco_decision = ''deny'', pco_reason = ''blocked'', pco_rule_id = Some ''rule-1'',
            pco_request_id = ''req-2'', pco_correlation_id = ''corr-2''\<rparr>
      in unwrap_then (render_policy_check render_json result JsonOutput) (\<lambda>rendered.
           str_contains rendered (json_member ''decision'' (json_text ''deny''))
           \<and> str_contains rendered (json_member ''rule_id'' (json_text ''rule-1''))))"

definition render_policy_health_json_includes_expected_keys :: "(json \<Rightarrow> string + string) \<Rightarrow> bool" where
  "render_policy_health_json_includes_expected_keys render_json \<longleftrightarrow>
     (let result = \<lparr>pho_status = ''SERVING'', pho_detail = ''ok'', pho_latency_ms = 10,
            pho_request_id = ''req-3'', pho_correlation_id = ''corr-3''\<rparr>
      in unwrap_then (render_policy_health render_json result JsonOutput) (\<lambda>rendered.
           str_contains rendered (json_member ''status'' (json_text ''SERVING''))
           \<and> str_contains rendered (json_member ''latency_ms'' ''10'')))"

lemma policy_render_tests:
  "render_policy_check_text_handles_missing_rule_id render_json"
  "prints_members render_json \<Longrightarrow> render_policy_check_json_includes_expected_keys render_json"
  "prints_members render_json \<Longrightarrow> render_policy_health_json_includes_expected_keys render_json"
proof -
  show "render_policy_check_text_handles_missing_rule_id render_json"
    by (simp add: render_policy_check_text_handles_missing_rule_id_def render_policy_check_def render_lines_def
        unwrap_or_def nl_def)
  assume printer: "prints_members render_json"
  {
    let ?kvs = "[(''decision'', JString ''deny''), (''reason'', JString ''blocked''), (''rule_id'', JString ''rule-1''),
      (''request_id'', JString ''req-2''), (''correlation_id'', JString ''corr-2'')]"
    obtain out where out: "render_json (JObject ?kvs) = Inr out"
      and texts: "\<And>key s. (key, JString s) \<in> set ?kvs \<Longrightarrow> plain_text key \<Longrightarrow> plain_text s \<Longrightarrow> str_contains out (json_member key (json_text s))"
      and numbers: "\<And>key n. (key, JNumber n) \<in> set ?kvs \<Longrightarrow> plain_text key \<Longrightarrow> str_contains out (json_member key n)"
      by (rule prints_membersE [OF printer, where kvs = ?kvs]) (rule that)
    have "str_contains out (json_member ''decision'' (json_text ''deny''))"
      "str_contains out (json_member ''rule_id'' (json_text ''rule-1''))"
      by (rule texts; simp add: plain_texts)+
    with out show "render_policy_check_json_includes_expected_keys render_json"
      by (simp add: render_policy_check_json_includes_expected_keys_def render_policy_check_def)
  next
    let ?kvs = "[(''status'', JString ''SERVING''), (''detail'', JString ''ok''), (''latency_ms'', JNumber ''10''),
      (''request_id'', JString ''req-3''), (''correlation_id'', JString ''corr-3'')]"
    obtain out where out: "render_json (JObject ?kvs) = Inr out"
      and texts: "\<And>key s. (key, JString s) \<in> set ?kvs \<Longrightarrow> plain_text key \<Longrightarrow> plain_text s \<Longrightarrow> str_contains out (json_member key (json_text s))"
      and numbers: "\<And>key n. (key, JNumber n) \<in> set ?kvs \<Longrightarrow> plain_text key \<Longrightarrow> str_contains out (json_member key n)"
      by (rule prints_membersE [OF printer, where kvs = ?kvs]) (rule that)
    have "show_nat 10 = ''10''"
      by (simp add: show_nat.simps char_of_def bit_0)
    moreover have "str_contains out (json_member ''status'' (json_text ''SERVING''))"
      by (rule texts) (simp_all add: plain_texts)
    moreover have "str_contains out (json_member ''latency_ms'' ''10'')"
      by (rule numbers) (simp_all add: plain_texts)
    ultimately show "render_policy_health_json_includes_expected_keys render_json"
      using out by (simp add: render_policy_health_json_includes_expected_keys_def render_policy_health_def)
  }
qed

section \<open>llmos modules\<close>

text \<open>
  The servers of the tests: an HTTP server with a status, a body and a delay before it answers \<open>GET /metrics\<close>, a health
  service with a status, a detail and a delay, and a port where nothing listens. A call to a server that answers too late times out.
\<close>

definition metrics_server :: "(nat \<Rightarrow> string) \<Rightarrow> string \<Rightarrow> nat \<Rightarrow> string \<Rightarrow> nat \<Rightarrow> nat \<Rightarrow> string \<Rightarrow> http_end" where
  "metrics_server code_text addr status_code body delay timeout uri =
     (if uri = ''http://'' @ addr @ ''/metrics''
      then if timeout < delay then HttpTimedOut else HttpResponse status_code (code_text status_code) (Inr body)
      else HttpResponse 404 (code_text 404) (Inr ''not found''))"

definition health_server :: "string \<Rightarrow> string \<Rightarrow> nat \<Rightarrow> string \<Rightarrow> nat \<Rightarrow> grpc_health_request \<Rightarrow> string + grpc_health_response" where
  "health_server status detail delay endpoint timeout request =
     (if timeout < delay then Inl ''deadline has elapsed'' else Inr \<lparr>ghr_status = status, ghr_detail = detail\<rparr>)"

definition llmd_probe_reports_healthy_for_expected_metric_payload :: "(nat \<Rightarrow> string) \<Rightarrow> string probe_io \<Rightarrow> string \<Rightarrow> bool" where
  "llmd_probe_reports_healthy_for_expected_metric_payload code_text io addr \<longleftrightarrow>
     (let io = io\<lparr>prio_get := metrics_server code_text addr 200 (''llmos_policy_requests_total 1'' @ nl) 0\<rparr>
      in probe_llmd_metrics io (''http://'' @ addr @ ''/metrics'') 1000 = ''healthy'')"

definition llmd_probe_reports_timeout :: "(nat \<Rightarrow> string) \<Rightarrow> string probe_io \<Rightarrow> string \<Rightarrow> bool" where
  "llmd_probe_reports_timeout code_text io addr \<longleftrightarrow>
     (let io = io\<lparr>prio_get := metrics_server code_text addr 200 (''llmos_policy_requests_total 1'' @ nl) 100\<rparr>
      in probe_llmd_metrics io (''http://'' @ addr @ ''/metrics'') 20 = ''timeout'')"

definition llmd_probe_reports_http_failure :: "(nat \<Rightarrow> string) \<Rightarrow> string probe_io \<Rightarrow> string \<Rightarrow> bool" where
  "llmd_probe_reports_http_failure code_text io addr \<longleftrightarrow>
     (let io = io\<lparr>prio_get := metrics_server code_text addr 503 ''unavailable'' 0\<rparr>
      in starts_with (probe_llmd_metrics io (''http://'' @ addr @ ''/metrics'') 1000) ''unhealthy(http:503'')"

definition llmd_probe_reports_metrics_missing :: "(nat \<Rightarrow> string) \<Rightarrow> string probe_io \<Rightarrow> string \<Rightarrow> bool" where
  "llmd_probe_reports_metrics_missing code_text io addr \<longleftrightarrow>
     (let io = io\<lparr>prio_get := metrics_server code_text addr 200 (''other_metric 7'' @ nl) 0\<rparr>
      in probe_llmd_metrics io (''http://'' @ addr @ ''/metrics'') 1000 = ''unhealthy(metrics-missing)'')"

lemma llmd_probe_tests:
  assumes "\<And>uri. prio_parse_uri io uri = Inr uri" "\<And>code. \<exists>rest. code_text code = show_nat code @ rest"
  shows "llmd_probe_reports_healthy_for_expected_metric_payload code_text io addr" "llmd_probe_reports_timeout code_text io addr"
    "llmd_probe_reports_http_failure code_text io addr" "llmd_probe_reports_metrics_missing code_text io addr"
proof -
  obtain rest where "code_text 503 = ''503'' @ rest"
    using assms(2) [of 503] by (auto simp: show_nat.simps char_of_def bit_0)
  then show "llmd_probe_reports_healthy_for_expected_metric_payload code_text io addr" "llmd_probe_reports_timeout code_text io addr"
    "llmd_probe_reports_http_failure code_text io addr" "llmd_probe_reports_metrics_missing code_text io addr"
    by (simp_all add: llmd_probe_reports_healthy_for_expected_metric_payload_def llmd_probe_reports_timeout_def
        llmd_probe_reports_http_failure_def llmd_probe_reports_metrics_missing_def probe_llmd_metrics_def
        metrics_server_def assms(1) is_success_def starts_with_def nl_def)
qed

definition policy_probe_reports_healthy_for_serving_status :: "string probe_io \<Rightarrow> string \<Rightarrow> bool" where
  "policy_probe_reports_healthy_for_serving_status io addr \<longleftrightarrow>
     (let io = io\<lparr>prio_policy := (prio_policy io)\<lparr>cio_check := health_server ''SERVING'' ''ok'' 0\<rparr>\<rparr>
      in probe_policy_health io (''http://'' @ addr) 1000 = ''healthy'')"

definition policy_probe_reports_unhealthy_for_non_serving_status :: "string probe_io \<Rightarrow> string \<Rightarrow> bool" where
  "policy_probe_reports_unhealthy_for_non_serving_status io addr \<longleftrightarrow>
     (let io = io\<lparr>prio_policy := (prio_policy io)\<lparr>cio_check := health_server ''NOT_SERVING'' ''degraded'' 0\<rparr>\<rparr>
      in probe_policy_health io (''http://'' @ addr) 1000 = ''unhealthy(status:NOT_SERVING detail:degraded)'')"

definition policy_probe_reports_unreachable_when_server_missing :: "string probe_io \<Rightarrow> string \<Rightarrow> nat \<Rightarrow> bool" where
  "policy_probe_reports_unreachable_when_server_missing io err port \<longleftrightarrow>
     (let io = io\<lparr>prio_policy := (prio_policy io)\<lparr>cio_connect := (\<lambda>_. Inl err)\<rparr>\<rparr>
      in starts_with (probe_policy_health io (''http://127.0.0.1:'' @ show_nat port) 100) ''unreachable('')"

lemma not_serving: "to_ascii_lowercase ''NOT_SERVING'' \<noteq> to_ascii_lowercase ''SERVING''"
  by code_simp

lemma policy_probe_tests:
  assumes "\<And>endpoint. cio_connect (prio_policy io) endpoint = Inr ()" "\<And>s. cio_metadata (prio_policy io) s = Inr ()"
  shows "policy_probe_reports_healthy_for_serving_status io addr" "policy_probe_reports_unhealthy_for_non_serving_status io addr"
    "policy_probe_reports_unreachable_when_server_missing io err port"
  by (simp_all add: policy_probe_reports_healthy_for_serving_status_def policy_probe_reports_unhealthy_for_non_serving_status_def
      policy_probe_reports_unreachable_when_server_missing_def probe_policy_health_def modules_fetch_policy_health_def
      health_server_def trace_ok_def assms starts_with_def eq_ignore_ascii_case_def not_serving split: prod.splits)

definition mcp_probe_reports_configured :: "string probe_io \<Rightarrow> string \<Rightarrow> string \<Rightarrow> bool" where
  "mcp_probe_reports_configured io raw dir \<longleftrightarrow>
     (let io = io\<lparr>prio_directory := (\<lambda>_. Listing [Inr \<lparr>de_path = dir @ ''/sample.json'', de_is_file = True,
            de_extension = Some ''json'', de_content = Some raw\<rparr>])\<rparr>
      in probe_mcp_runtime io dir = ''configured(manifests:1)'')"

definition mcp_probe_reports_no_manifests :: "string probe_io \<Rightarrow> string \<Rightarrow> bool" where
  "mcp_probe_reports_no_manifests io dir \<longleftrightarrow>
     (let io = io\<lparr>prio_directory := (\<lambda>_. Listing [])\<rparr> in probe_mcp_runtime io dir = ''no-manifests'')"

definition mcp_probe_reports_invalid_manifests :: "string probe_io \<Rightarrow> string \<Rightarrow> string \<Rightarrow> bool" where
  "mcp_probe_reports_invalid_manifests io raw dir \<longleftrightarrow>
     (let io = io\<lparr>prio_directory := (\<lambda>_. Listing [Inr \<lparr>de_path = dir @ ''/broken.json'', de_is_file = True,
            de_extension = Some ''json'', de_content = Some raw\<rparr>])\<rparr>
      in starts_with (probe_mcp_runtime io dir) ''invalid-manifests('')"

lemma mcp_probe_tests:
  "prio_from_json io raw = Inr \<lparr>pm_id = ''test.plugin'', pm_version = ''0.1.0'', pm_entrypoint = ''echo hi'',
      pm_description = None, pm_capabilities = [McpSpawn]\<rparr> \<Longrightarrow> mcp_probe_reports_configured io raw dir"
  "mcp_probe_reports_no_manifests io dir"
  "prio_from_json io raw = Inr \<lparr>pm_id = ''INVALID.ID'', pm_version = ''0.1.0'', pm_entrypoint = ''echo hi'',
      pm_description = None, pm_capabilities = [McpSpawn]\<rparr> \<Longrightarrow> mcp_probe_reports_invalid_manifests io raw dir"
  by (simp_all add: mcp_probe_reports_configured_def mcp_probe_reports_no_manifests_def mcp_probe_reports_invalid_manifests_def
      probe_mcp_runtime_def load_manifests_def load_manifest_file_def parse_manifest_json_def validate_plugin_id_def
      plugin_id_char_def is_ascii_lowercase_def is_ascii_digit_def test_trims starts_with_def show_nat.simps char_of_def bit_0)

section \<open>JSON output\<close>

text \<open>The keys of the JSON contract, on values that the tests build themselves.\<close>

definition has_key :: "json \<Rightarrow> string \<Rightarrow> bool" where
  "has_key v key \<longleftrightarrow> json_get v key \<noteq> None"

definition render_profile_list_json_includes_expected_keys :: bool where
  "render_profile_list_json_includes_expected_keys \<longleftrightarrow>
     (let entries = [JObject [(''name'', JString ''balanced''), (''zram_fraction'', JNumber ''1.0''),
            (''compression_algo'', JString ''zstd''), (''swappiness'', JNumber ''100'')]];
          output = JObject [(''profiles'', JArray entries)]
      in case json_key output ''profiles'' of
           JArray profiles \<Rightarrow> length profiles = 1 \<and> list_all (has_key (profiles ! 0))
             [''name'', ''zram_fraction'', ''compression_algo'', ''swappiness'']
         | _ \<Rightarrow> False)"

definition render_profile_show_json_includes_expected_keys :: bool where
  "render_profile_show_json_includes_expected_keys \<longleftrightarrow>
     (let output = JObject [(''name'', JString ''aggressive''), (''zram_fraction'', JNumber ''1.5''),
            (''compression_algo'', JString ''zstd''), (''swappiness'', JNumber ''180'')]
      in json_as_str (json_key output ''name'') = Some ''aggressive''
         \<and> json_key output ''zram_fraction'' = JNumber ''1.5'')"

definition summary_json_includes_expected_keys :: bool where
  "summary_json_includes_expected_keys \<longleftrightarrow>
     (let output = JObject [(''count'', JNumber ''5''), (''avg_tokens_per_sec'', JNumber ''10.0''),
            (''avg_ttft_ms'', JNumber ''200.0''), (''avg_p95_latency_ms'', JNumber ''40.0''),
            (''avg_peak_rss_gb'', JNumber ''3.5''), (''total_oom_events'', JNumber ''0'')]
      in list_all (has_key output) [''count'', ''avg_tokens_per_sec'', ''total_oom_events''])"

definition list_json_includes_expected_keys :: bool where
  "list_json_includes_expected_keys \<longleftrightarrow>
     (let entry = JObject [(''run_id'', JString ''R0001''), (''model_name'', JString ''dense-3b''),
            (''compression_profile'', JString ''none''), (''context_tokens'', JNumber ''1024''),
            (''tokens_per_sec'', JNumber ''10.0''), (''peak_rss_gb'', JNumber ''3.75''), (''run_success'', JBool True)]
      in list_all (has_key entry) [''run_id'', ''tokens_per_sec''])"

lemma json_contract_tests:
  "render_profile_list_json_includes_expected_keys" "render_profile_show_json_includes_expected_keys"
  "summary_json_includes_expected_keys" "list_json_includes_expected_keys"
  by code_simp+

text \<open>
  The values of the tests have the shape that the commands print: the keys are those of \<open>profile_json\<close>.
\<close>

lemma profile_json_keys:
  "list_all (has_key (profile_json fs name p)) [''name'', ''zram_fraction'', ''compression_algo'', ''swappiness'']"
  by (simp add: profile_json_def has_key_def)

definition render_modules_json_includes_descriptor_fields :: "(json \<Rightarrow> string + string) \<Rightarrow> bool" where
  "render_modules_json_includes_descriptor_fields render_json \<longleftrightarrow>
     (let modules = [\<lparr>md_id = ''services/llmd'', md_version = ''0.1.0'', md_status = ''healthy''\<rparr>]
      in unwrap_then (modules_as_json render_json modules) (\<lambda>j.
           str_contains j (json_member ''id'' (json_text ''services/llmd'')) \<and> str_contains j (json_member ''status'' (json_text ''healthy''))))"

text \<open>The pretty printer of \<^verbatim>\<open>serde_json\<close>: one member per line, indented, with a space after the colon.\<close>

lemma modules_json_test:
  assumes "render_json (JArray [JObject [(''id'', JString ''services/llmd''), (''version'', JString ''0.1.0''),
      (''status'', JString ''healthy'')]])
    = Inr (''['' @ nl @ ''  {'' @ nl @ ''    '' @ json_member ''id'' (json_text ''services/llmd'') @ '','' @ nl @ ''    ''
        @ json_member ''version'' (json_text ''0.1.0'') @ '','' @ nl @ ''    '' @ json_member ''status'' (json_text ''healthy'') @ nl @ ''  }'' @ nl @ '']'')"
  shows "render_modules_json_includes_descriptor_fields render_json"
  unfolding render_modules_json_includes_descriptor_fields_def Let_def modules_as_json_def list.map module_descriptor.select_convs assms
  by code_simp

end
