(* ===== verification/Spec2Isabelle.thy ===== *)
theory Spec2Isabelle
  imports Sha_Vectors Fips_Sha256 Token Circuit_Breaker Policy_Concurrent Metrics_Scrape Bus_Delivery Llmd Audit_Log Audit_Trail Mcp_Refinement Llmd_Main Client_Bounds Benchmark
    Mock_Plugin Cli_Data Cli_Ops Tests_Services Tests_Llmd Tests_Tools
begin

text \<open>
  A verification development for LLM-OS, a set of services in Rust that run language models and tools
  under a policy.

  \<^bold>\<open>The program.\<close> \<^verbatim>\<open>services/llmd\<close> executes actions (a model call, a network connection, a file access)
  on behalf of workloads. Before each action it asks \<^verbatim>\<open>services/policy-engine\<close> over gRPC, with time-outs, retries
  and a circuit breaker, and after it it writes an audit event to a rotated JSONL file, to standard output or
  to a message bus (\<^verbatim>\<open>crates/service-bus\<close>). The policy engine evaluates a list of allow and deny rules and
  reloads its file when the file changes. \<^verbatim>\<open>crates/identity\<close> has the workload identifiers that rules match on
  and signed tokens (its own SHA-256, HMAC, hex and base64). \<^verbatim>\<open>services/mcp-runtime\<close> starts and stops plugin
  processes from manifests and resolves a sandbox for each from \<^verbatim>\<open>crates/sandbox\<close>;
  \<^verbatim>\<open>services/mock-mcp-plugin\<close> is such a plugin. \<^verbatim>\<open>crates/model-runtime\<close> has the model backends,
  \<^verbatim>\<open>crates/secrets\<close> the access-controlled credentials. \<^verbatim>\<open>tools/llmos-cli\<close> is the operator's command, over
  \<^verbatim>\<open>crates/kernel-profile\<close> and \<^verbatim>\<open>crates/benchmark-ingest\<close>.

  \<^bold>\<open>Which theory models what.\<close> Names of definitions are those of the code, with the type or module as a
  prefix where two functions share a name.

    \<^item> \<open>Llmos_Prelude\<close>: the parts of the standard library that several components use: bytes and UTF-8
      strings (a \<open>string\<close> is the list of its bytes), trimming and splitting, decimal printing and parsing,
      \<open>Result\<close> as a sum, and \<open>outcome\<close> for code that can panic.
    \<^item> \<open>Hmac\<close>, \<open>Sha_Vectors\<close>, \<open>Base64\<close>, \<open>Workload\<close>, \<open>Token\<close>: \<^verbatim>\<open>crates/identity/src\<close> (\<^verbatim>\<open>hmac.rs\<close>, \<^verbatim>\<open>token.rs\<close>,
      \<^verbatim>\<open>workload.rs\<close>, \<^verbatim>\<open>verifier.rs\<close>). \<open>Fips_Sha256\<close>: SHA-256 and HMAC as the standards FIPS 180-4 and FIPS 198-1 define them, on
      strings of bits, with the constants derived from the primes; it models no code, the code is proved equal to it.
    \<^item> \<open>Common_Types\<close>: \<^verbatim>\<open>crates/common-types/src/lib.rs\<close>. \<open>Histogram\<close>: the latency histograms and their Prometheus
      text that both metrics modules contain, as the locale \<open>latency_histogram\<close>.
    \<^item> \<open>Policy_Engine\<close>, \<open>Policy_Metrics\<close>, \<open>Policy_Service\<close>: \<^verbatim>\<open>services/policy-engine/src\<close>. The state of the service is the
      record \<open>policy_service\<close> (the shared policy, the metrics cell, the log); the operations on it are the
      handlers \<open>grpc_evaluate\<close> and \<open>grpc_check\<close> and one iteration \<open>poll_step\<close> of the reload task.
    \<^item> \<open>Policy_Concurrent\<close>: the same handler and reload iteration as the sequences of their accesses to the policy lock and
      to the atomic counters (\<open>handler_step\<close>, \<open>poll_check\<close>, \<open>poll_finish\<close>), and the step relation of any number of
      calls interleaved with the reload task (\<^verbatim>\<open>grpc.rs\<close>, \<^verbatim>\<open>reload.rs\<close>, \<^verbatim>\<open>metrics.rs\<close>). \<open>Metrics_Scrape\<close>: a rendering of
      the metrics as the sequence of its loads, interleaved with all of these.
    \<^item> \<open>Runtime_Metrics\<close>, \<open>Policy_Client\<close>, \<open>Client_Bounds\<close>, \<open>Llmd\<close>, \<open>Audit_Log\<close>: \<^verbatim>\<open>services/llmd/src/lib.rs\<close> and
      \<^verbatim>\<open>executor.rs\<close>. The client's state is \<open>client_world\<close> (the client, the metrics, the number of clock readings and the
      trace of remote calls and sleeps); \<open>action_pipeline\<close> is the locale of what \<open>process_action\<close> needs
      of its three trait objects. \<open>Circuit_Breaker\<close>: the breaker as the machine with the states closed, half open and open, and
      the histories of the client as its runs.
    \<^item> \<open>Model_Runtime\<close>: \<^verbatim>\<open>crates/model-runtime/src\<close>, both backends and the generation loop of \<^verbatim>\<open>llama.rs\<close>.
    \<^item> \<open>Service_Bus\<close>, \<open>Secrets\<close>: \<^verbatim>\<open>crates/service-bus/src\<close> with the locale \<open>transport\<close>, and \<^verbatim>\<open>crates/secrets/src\<close> with
      the locale \<open>secret_provider\<close> and \<^verbatim>\<open>services/llmd/src/secrets.rs\<close>. \<open>Bus_Delivery\<close>: whole runs of the bus, as a log per topic.
    \<^item> \<open>Llmd_Main\<close>: \<^verbatim>\<open>services/llmd/src/bus.rs\<close> and \<^verbatim>\<open>main.rs\<close>, from the environment to the start-up requests.
      \<open>Audit_Trail\<close>: the audit log of a whole run of llmd, the pipeline over the JSONL sink.
    \<^item> \<open>Sandbox\<close>, \<open>Mcp_Runtime\<close>: \<^verbatim>\<open>crates/sandbox/src\<close> and \<^verbatim>\<open>services/mcp-runtime/src\<close>: manifests, the process manager, the
      subcommands and the admin loop; \<open>Mcp_Refinement\<close>: the abstract supervisor that a run of them implements. \<open>Json\<close>, \<open>Mock_Plugin\<close>: \<^verbatim>\<open>services/mock-mcp-plugin/src/main.rs\<close>.
    \<^item> \<open>Benchmark\<close>, \<open>Cli_Data\<close>, \<open>Cli_Ops\<close>: \<^verbatim>\<open>crates/benchmark-ingest/src\<close>, \<^verbatim>\<open>crates/kernel-profile/src\<close> and
      \<^verbatim>\<open>tools/llmos-cli/src\<close>.
    \<^item> \<open>Tests_Services\<close>, \<open>Tests_Llmd\<close>, \<open>Tests_Tools\<close> and the end of \<open>Sha_Vectors\<close>: the unit tests of the repository, each a truth
      value over the model that is proved to hold, so that the definitions are checked against what the
      authors of the code expect of it.
    \<^item> this theory: llmd and the policy engine together.

  \<^bold>\<open>How code corresponds to definitions.\<close> A struct is a record, an enum a datatype, \<open>Result\<close> a sum with the
  error on the left (an \<open>anyhow\<close> error is its message, or the list of its contexts where these matter), a
  method with \<open>&mut self\<close> a function that returns the new state. Counters keep their 64 or 32 bits and wrap
  around; durations are nanoseconds and instants nanoseconds since some origin. A \<open>HashMap\<close> is an association
  list in the order of its iteration. What happens outside the program is an oracle, a function from the number
  of the operation (and its input) to its result, so that every behaviour of clock, network, disk and child
  processes is covered, and the ghost fields (traces, histories, spawned processes) record what was asked of it.
  Parsers and printers of other packages (serde, TOML, YAML, f64) are parameters; where a property
  needs something of one, it is a hypothesis of that property.

  \<^bold>\<open>What is shown.\<close> (1) End to end: everything llmd executes is authorised by a policy that was loaded from
  the policy file, for every interleaving of the calls inside the engine with each other and with the reload, and
  with an answering engine one request runs exactly if it is authorised. Interleaved calls are linearizable: each
  answers as if it had run alone at the moment it read the policy; the counters lag behind
  by exactly the calls under way, and a scrape between their steps still shows a consistent histogram; started calls can
  always run to their end. The log of a whole run of llmd on a healthy disk has
  one record for every decision, in order.
  (2) Policy evaluation is deny-overrides with default deny, and its identity-aware matching is prefix matching;
  the reload task converges to the file; the counters of the service balance in every reachable state.
  (3) The client fails closed, follows its retry protocol and ends within a known time; its breaker is the
  textbook machine over every history of calls and opens for a dead service. (4) Every possible history of \<open>process_action\<close>; the audit log
  loses only oldest events, and what it counts as written is there. (5) Tokens are accepted exactly when
  authentic and in their window; the codecs round-trip; SHA-256 and HMAC are the standards' functions on every input. (6) A
  secret is read exactly by the modules registered for it; the bus is a log per topic, of which each subscriber sees, in order, all
  that its channel had room for; plugin processes are all
  reaped by a run that ends well, and a run of the manager is a run of an abstract supervisor; loaded manifests are well formed. (7) The backends respect the context length and
  the stop sequences. (8) The benchmark parser inverts its format and names the first bad line; the
  operator's commands report what the services say. Theorems without a claim number state
  further facts, several of them defects of the code.

  \<^bold>\<open>Bounds and fuel.\<close> No definition has fuel. Loops over data are structural; the loops over attempts and
  tokens run over the list of the attempts or steps that the code's counter allows; trimming, number printing,
  chunking and lossy decoding recurse on a shorter string or smaller number, with termination proofs; the endless
  loops (reload task, admin loop, plugin loop) are functions of the number of iterations or the list of the inputs.

  \<^bold>\<open>Not modelled.\<close> The gRPC and HTTP servers, tracing, signals and argument parsing (clap) are libraries that
  the code calls; \<^verbatim>\<open>crates/controlplane-api\<close> is generated from protobuf files; the llama.cpp binding below
  \<^verbatim>\<open>llama.rs\<close> is an oracle for tokens. The periodic health task of llmd only logs; the identifiers that it draws are
  counted by a parameter. The lock-poisoning branches cannot be reached, as no code panics while holding a
  lock. Atomic accesses take effect in program order; reordering under \<open>Relaxed\<close> is not modelled. The size of the audit file (\<open>bytes_written\<close>) is a natural number; the code's 64 bits would need a file of that length to wrap. The
  tests that read sample files, the token tests of \<^verbatim>\<open>crates/identity/src/tests.rs\<close>, and the integration tests over real sockets and child processes are not
  translated.
  Scripts, images and documents of the repository are not code of the program.
\<close>

section \<open>llmd and the policy engine together\<close>

text \<open>The request that the engine sees for an action.\<close>

definition policy_view :: "action_request \<Rightarrow> policy_request" where
  "policy_view request = \<lparr>rq_subject = ar_subject request, rq_action = ar_action request,
     rq_resource = ar_resource request\<rparr>"

text \<open>
  The answers that llmd gets over the network come from the evaluation handler of the policy engine, at a moment
  when the engine holds one of the policies of a set. Calls may also fail or time out.
\<close>

definition answered_by_engine :: "client_io \<Rightarrow> policy_document set \<Rightarrow> bool" where
  "answered_by_engine io policies \<longleftrightarrow>
     (\<forall>i q response. io_rpc io i q = RpcResponse response \<longrightarrow>
        (\<exists>to_str elapsed svc. svc_shared svc \<in> policies \<and> response = fst (grpc_evaluate to_str elapsed q svc)))"

lemma handler_effect:
  "ger_effect (fst (grpc_evaluate to_str elapsed q svc))
    = (if authorised (set (doc_rules (svc_shared svc)))
           \<lparr>rq_subject = geq_subject q, rq_action = geq_action q, rq_resource = geq_resource q\<rparr>
       then ''allow'' else ''deny'')"
proof -
  let ?dec = "evaluate_policy (svc_shared svc)
     \<lparr>rq_subject = geq_subject q, rq_action = geq_action q, rq_resource = geq_resource q\<rparr>"
  have "ger_effect (fst (grpc_evaluate to_str elapsed q svc)) = effect_text (dec_effect ?dec)"
    using map_decision_fields_effect [of ?dec] by (auto simp: grpc_evaluate_response split: prod.splits)
  then show ?thesis
    using evaluate_allow_iff [of "svc_shared svc"
        "\<lparr>rq_subject = geq_subject q, rq_action = geq_action q, rq_resource = geq_resource q\<rparr>"]
    by (cases "dec_effect ?dec") auto
qed

lemma wire_request:
  assumes "build_grpc_request io request = Inr q"
  shows "\<lparr>rq_subject = geq_subject q, rq_action = geq_action q, rq_resource = geq_resource q\<rparr> = policy_view request"
  using assms by (auto simp: build_grpc_request_def policy_view_def split: if_splits)

lemma granted_authorised:
  assumes "answered_by_engine io policies" "client_granted io request c"
  shows "\<exists>policy\<in>policies. authorised (set (doc_rules policy)) (policy_view request)"
proof -
  obtain q i response where q: "build_grpc_request io request = Inr q"
    and r: "io_rpc io i q = RpcResponse response" "ger_effect response = ''allow''"
    using assms(2) unfolding client_granted_def by blast
  then obtain to_str elapsed svc where "svc_shared svc \<in> policies" "response = fst (grpc_evaluate to_str elapsed q svc)"
    using assms(1) unfolding answered_by_engine_def by blast
  with r(2) show ?thesis
    by (auto simp: handler_effect wire_request [OF q] split: if_splits)
qed

lemma requests_authorised:
  assumes "answered_by_engine io policies"
    and "process_requests (llmd_process io ex sink) wall n requests w = (outs, w')"
  shows "\<exists>ext. lw_history w' = lw_history w @ ext \<and>
    (\<forall>r. ActionRun r \<in> set ext \<longrightarrow>
      r \<in> set requests \<and> (\<exists>policy\<in>policies. authorised (set (doc_rules policy)) (policy_view r)))"
  using assms(2)
proof (induction requests arbitrary: n w outs)
  case (Cons request requests)
  obtain o1 w1 where p: "llmd_process io ex sink (wall n) request w = (o1, w1)"
    by (meson surj_pair)
  obtain ext where ext: "lw_history w1 = lw_history w @ ext"
    "\<And>r. ActionRun r \<in> set ext \<Longrightarrow> r = request \<and> client_granted io request (lw_client w)"
    using llmd.process_extends [of io ex sink "wall n" request w] p
    by (auto simp: llmd_process_eq [symmetric])
  then have head: "\<And>r. ActionRun r \<in> set ext \<Longrightarrow>
      r = request \<and> (\<exists>policy\<in>policies. authorised (set (doc_rules policy)) (policy_view r))"
    using granted_authorised [OF assms(1)] by blast
  show ?case
  proof (cases o1)
    case Panic
    with Cons.prems p ext(1) head show ?thesis by auto
  next
    case (Done x)
    obtain rest where "process_requests (llmd_process io ex sink) wall (Suc n) requests w1 = (rest, w')"
      using Cons.prems p Done by (auto split: prod.splits)
    from Cons.IH [OF this] obtain ext2 where "lw_history w' = lw_history w1 @ ext2"
      "\<forall>r. ActionRun r \<in> set ext2 \<longrightarrow>
        r \<in> set requests \<and> (\<exists>policy\<in>policies. authorised (set (doc_rules policy)) (policy_view r))"
      by blast
    with ext(1) head show ?thesis
      by (intro exI [of _ "ext @ ext2"]) auto
  qed
qed simp

text \<open>The policies that the engine holds between its start and its \<open>n\<close>-th reload.\<close>

definition engine_policies ::
  "(string \<Rightarrow> 'y + policy_document) \<Rightarrow> string \<Rightarrow> (nat \<Rightarrow> file_system) \<Rightarrow> policy_service \<Rightarrow> policy_document set" where
  "engine_policies from_yaml path fs svc = (\<Union>n. {svc_shared (snd (poll_and_reload from_yaml path fs svc n))})"

lemma engine_policies_loaded:
  assumes "policy \<in> engine_policies from_yaml path fs svc"
  shows "policy = svc_shared svc \<or> (\<exists>k. load_policy_document from_yaml (fs k) path = Inr policy)"
proof -
  have "svc_shared (snd (poll_and_reload from_yaml path fs svc n)) = svc_shared svc
      \<or> (\<exists>k. load_policy_document from_yaml (fs k) path = Inr (svc_shared (snd (poll_and_reload from_yaml path fs svc n))))" for n
  proof (induction n)
    case (Suc n)
    then show ?case
      by (cases "poll_and_reload from_yaml path fs svc n") (auto simp: poll_step_shared split: sum.splits if_splits)
  qed simp
  with assms show ?thesis
    by (auto simp: engine_policies_def)
qed

lemma llmd_runs_authorised:
  fixes le :: "('addr, 'q, 'j) llmd_env" and w :: "('ch, 'q, 'j) llmd_state"
  assumes answers: "answered_by_engine (le_client le) policies"
    and run: "llmd_main le d = Inr (outs, w)"
    and executed: "ActionRun request \<in> set (lw_history w)"
  shows "\<exists>policy\<in>policies. authorised (set (doc_rules policy)) (policy_view request)"
proof -
  obtain lconfig :: "'addr llmd_config" and corr seq sink where
    "process_requests (llmd_process (le_client le) (model_execute mb_loaded mock_infer)
        (audit_emit (le_disk_io le) (le_to_json le) (le_bus_clock le) (le_to_value le)))
      (le_wall le) 5 (startup_requests (startup_clock le) (le_gap le) corr seq)
      \<lparr>lw_client = connected_world (lc_policy_config lconfig) 0, lw_backend = mock_new, lw_sink = sink, lw_history = []\<rparr>
      = (outs, w)"
    by (rule llmd_main_Inr [OF run])
  from requests_authorised [OF answers this] executed show ?thesis
    by auto
qed

text \<open>
  The same with the engine at its finest grain: an answer is the answer of a call in some reachable state of the
  concurrent engine, where calls of other clients, health checks and reloads come between the steps of the call.
\<close>

definition answered_concurrently ::
  "client_io \<Rightarrow> (string \<Rightarrow> 'y + policy_document) \<Rightarrow> string \<Rightarrow> file_system set \<Rightarrow> engine \<Rightarrow> bool" where
  "answered_concurrently io from_yaml path disks start \<longleftrightarrow>
     (\<forall>i q response. io_rpc io i q = RpcResponse response \<longrightarrow>
        (\<exists>to_str e c. (engine_step to_str from_yaml path disks)\<^sup>*\<^sup>* start e \<and> c \<in> set (en_calls e)
          \<and> hc_request c = q \<and> hc_pc c = Answered response))"

lemma answered_concurrently_by_engine:
  assumes "policy_engine_main from_yaml parse_addr env fs = Inr (config, svc)"
    and "answered_concurrently io from_yaml (pc_policy_path config) disks (engine_started svc lm)"
  shows "answered_by_engine io
    {policy. \<exists>fs'\<in>insert fs disks. load_policy_document from_yaml fs' (pc_policy_path config) = Inr policy}"
  unfolding answered_by_engine_def
proof (intro allI impI)
  fix i q response
  assume "io_rpc io i q = RpcResponse response"
  then obtain to_str e c where "(engine_step to_str from_yaml (pc_policy_path config) disks)\<^sup>*\<^sup>* (engine_started svc lm) e"
    "c \<in> set (en_calls e)" "hc_request c = q" "hc_pc c = Answered response"
    using assms(2) unfolding answered_concurrently_def by blast
  with answered_from_loaded [OF assms(1) this(1,2,4), where elapsed = 0]
  obtain fs' policy where p: "fs' \<in> insert fs disks" "load_policy_document from_yaml fs' (pc_policy_path config) = Inr policy"
    and r: "response = fst (grpc_evaluate to_str 0 q (svc\<lparr>svc_shared := policy\<rparr>))"
    by blast
  show "\<exists>to_str elapsed service. svc_shared service \<in> {policy. \<exists>fs'\<in>insert fs disks.
      load_policy_document from_yaml fs' (pc_policy_path config) = Inr policy}
    \<and> response = fst (grpc_evaluate to_str elapsed q service)"
    using p by (intro exI [of _ to_str] exI [of _ 0] exI [of _ "svc\<lparr>svc_shared := policy\<rparr>"] conjI r) auto
qed

text \<open>
  C1: End to end: let the policy engine start on its policy file, serve any number of concurrent clients and reload the
  file while llmd runs, its steps interleaved in any order, and let every answer that llmd receives be the answer of one of its
  calls to the engine. Then whatever llmd executes in its whole run is authorised by a policy that was loaded from
  the policy file, at the start or by a reload; no fault of the network, time-out, retry, restart of the breaker or race of
  a call with a reload executes anything else.
\<close>

theorem concurrent_actions_authorised:
  fixes le :: "('addr, 'q, 'j) llmd_env" and w :: "('ch, 'q, 'j) llmd_state"
  assumes engine: "policy_engine_main from_yaml parse_addr env fs = Inr (config, svc)"
    and answers: "answered_concurrently (le_client le) from_yaml (pc_policy_path config) disks (engine_started svc lm)"
    and run: "llmd_main le d = Inr (outs, w)"
    and executed: "ActionRun request \<in> set (lw_history w)"
  shows "\<exists>fs'\<in>insert fs disks. \<exists>policy. load_policy_document from_yaml fs' (pc_policy_path config) = Inr policy
    \<and> authorised (set (doc_rules policy)) (policy_view request)"
  using llmd_runs_authorised [OF answered_concurrently_by_engine [OF engine answers] run executed]
  by blast

text \<open>
  End to end with the calls as single steps: let the policy engine start on its policy file and reload it while llmd runs, and let every
  answer that llmd receives come from the engine's handler. Then whatever llmd executes in its whole run is
  authorised by a policy that was loaded from the policy file, at the start or by a reload; no fault of
  the network, time-out, retry or restart of the breaker executes anything else.
\<close>

theorem executed_actions_authorised:
  fixes le :: "('addr, 'q, 'j) llmd_env" and w :: "('ch, 'q, 'j) llmd_state"
  assumes engine: "policy_engine_main from_yaml parse_addr env fs0 = Inr (config, svc)"
    and answers: "answered_by_engine (le_client le) (engine_policies from_yaml (pc_policy_path config) fs svc)"
    and run: "llmd_main le d = Inr (outs, w)"
    and executed: "ActionRun request \<in> set (lw_history w)"
  shows "\<exists>file_system policy. (file_system = fs0 \<or> (\<exists>k. file_system = fs k))
    \<and> load_policy_document from_yaml file_system (pc_policy_path config) = Inr policy
    \<and> authorised (set (doc_rules policy)) (policy_view request)"
proof -
  have start: "load_policy_document from_yaml fs0 (pc_policy_path config) = Inr (svc_shared svc)"
    using engine by (auto simp: policy_engine_main_def Let_def and_then_Inr_iff)
  obtain policy where "policy \<in> engine_policies from_yaml (pc_policy_path config) fs svc"
    and auth: "authorised (set (doc_rules policy)) (policy_view request)"
    using llmd_runs_authorised [OF answers run executed] by blast
  from engine_policies_loaded [OF this(1)] start auth show ?thesis
    by metis
qed

text \<open>
  What llmd does for one request when the engine answers: the abstract behaviour that the client, the
  wire format, the handler and the pipeline implement together.
\<close>

definition governed_execution ::
  "policy_document \<Rightarrow> (action_request \<Rightarrow> 'b \<Rightarrow> action_outcome) \<Rightarrow> action_request \<Rightarrow> 'b
     \<Rightarrow> action_outcome \<times> pipeline_event list" where
  "governed_execution policy ex request b =
     (if authorised (set (doc_rules policy)) (policy_view request) then (ex request b, [ActionRun request])
      else (Done (Inl (ActionDenied (fst (snd (map_decision_fields (evaluate_policy policy (policy_view request))))))), []))"

lemma governed_process:
  assumes "breaker_permits io (lw_client w)" "0 < max_attempts (cw_client (lw_client w))"
    and "io_metadata_ok io (ar_request_id request)" "io_metadata_ok io (ar_correlation_id request)"
    and "\<And>q. io_rpc io (rpcs_sent (cw_trace (lw_client w))) q = RpcResponse (fst (grpc_evaluate to_str elapsed q svc))"
  shows "fst (llmd_process io ex sink t request w) = fst (governed_execution (svc_shared svc) ex request (lw_backend w))
    \<and> (\<exists>audit. length audit \<le> 1 \<and> lw_history (snd (llmd_process io ex sink t request w)) = lw_history w
        @ snd (governed_execution (svc_shared svc) ex request (lw_backend w)) @ map AuditEmitted audit)"
proof -
  let ?v = "policy_view request"
  let ?dec = "evaluate_policy (svc_shared svc) ?v"
  obtain q where q: "build_grpc_request io request = Inr q"
    using assms(3,4) by (simp add: build_grpc_request_def)
  obtain eff reason rule where m: "map_decision_fields ?dec = (eff, reason, rule)"
    by (cases "map_decision_fields ?dec")
  have resp: "fst (grpc_evaluate to_str elapsed q svc) = \<lparr>ger_effect = eff, ger_reason = reason, ger_rule_id = rule\<rparr>"
    by (simp add: grpc_evaluate_response wire_request [OF q] m)
  have eff: "eff = (if authorised (set (doc_rules (svc_shared svc))) ?v then ''allow'' else ''deny'')"
    using handler_effect [of to_str elapsed q svc] by (simp add: resp wire_request [OF q])
  define decision where "decision = map_grpc_decision request (fst (grpc_evaluate to_str elapsed q svc))"
  have d: "pd_effect decision = (if authorised (set (doc_rules (svc_shared svc))) ?v then PolicyAllow else PolicyDeny)"
    "pd_reason decision = reason"
    by (simp_all add: decision_def map_grpc_decision_def resp eff)
  have "fst (client_evaluate io request (lw_client w)) = Done (Inr decision)"
    unfolding decision_def by (rule first_answer_settles [OF assms(1) q assms(2,5)])
  then obtain c where e: "llmd_evaluate io request w = (Done (Inr decision), w\<lparr>lw_client := c\<rparr>)"
    by (cases "client_evaluate io request (lw_client w)") (simp add: llmd_evaluate_def)
  note unf = llmd_process_def process_action_def e llmd_execute_def governed_execution_def m
    llmd_emit_def llmd_metric_def
  show ?thesis
  proof (cases "authorised (set (doc_rules (svc_shared svc))) ?v")
    case False
    then show ?thesis
      using d by (auto simp: unf Let_def split: prod.splits intro: exI [of _ "[_]"])
  next
    case True
    show ?thesis
    proof (cases "ex request (lw_backend w)")
      case Panic
      with True d show ?thesis by (simp add: unf)
    next
      case (Done r)
      with True d show ?thesis
        by (cases r) (auto simp: unf Let_def split: prod.splits intro: exI [of _ "[_]"])
    qed
  qed
qed

text \<open>
  C2: One request is governed by the policy exactly: when the breaker lets the call pass, the identifiers are
  printable and the engine answers the first remote call, then llmd returns the executor's result and runs
  the action if and only if the engine's policy authorises the request, and otherwise denies with the
  engine's reason; apart from executions it only adds audit events, at most one.
\<close>

theorem llmd_implements_policy:
  assumes "breaker_permits io (lw_client w)" "0 < max_attempts (cw_client (lw_client w))"
    and "io_metadata_ok io (ar_request_id request)" "io_metadata_ok io (ar_correlation_id request)"
    and "\<And>q. io_rpc io (rpcs_sent (cw_trace (lw_client w))) q = RpcResponse (fst (grpc_evaluate to_str elapsed q svc))"
  shows "fst (llmd_process io ex sink t request w) = fst (governed_execution (svc_shared svc) ex request (lw_backend w))
    \<and> (\<exists>audit. length audit \<le> 1 \<and> lw_history (snd (llmd_process io ex sink t request w)) = lw_history w
        @ snd (governed_execution (svc_shared svc) ex request (lw_backend w)) @ map AuditEmitted audit)"
  by (rule governed_process [OF assms])

section \<open>The two programs on concrete inputs\<close>

definition open_policy :: policy_document where
  "open_policy = \<lparr>doc_version = ''v'', doc_rules =
     [\<lparr>pr_id = ''r1'', pr_effect = RuleAllow, pr_subject = ''runtime/*'', pr_actions = [''*''], pr_resources = [''*'']\<rparr>]\<rparr>"

definition policy_file :: file_system where
  "policy_file path = Some \<lparr>fv_modified = None, fv_content = ''rules''\<rparr>"

definition open_service :: policy_service where
  "open_service = \<lparr>svc_shared = open_policy,
     svc_metrics = Some (set_rules_loaded 1 policy_metrics_default), svc_log = []\<rparr>"

definition open_client :: client_io where
  "open_client = \<lparr>io_clock = (\<lambda>n. n), io_rpc = (\<lambda>n q. RpcResponse (fst (grpc_evaluate Some 1 q open_service))),
     io_metadata_ok = (\<lambda>s. True), io_code_text = show_nat\<rparr>"

definition open_llmd_env :: "(unit, unit, string) llmd_env" where
  "open_llmd_env = sample_llmd_env\<lparr>le_client := open_client\<rparr>"

lemma open_engine:
  "policy_engine_main (\<lambda>_. Inr open_policy :: unit + policy_document) (\<lambda>a. Inr a :: string + string) (\<lambda>_. None) policy_file
    = Inr (\<lparr>pc_policy_path = ''config/policy.example.yaml'', pc_listen_addr = ''127.0.0.1:50051'',
        pc_metrics_listen_addr = ''127.0.0.1:9091'', pc_reload_interval_secs = 5\<rparr>, open_service)"
  by (simp add: policy_engine_main_def load_policy_document_def policy_file_def unwrap_or_def open_policy_def
      open_service_def policy_reload_interval_def init_policy_metrics_def Let_def)

lemma open_answered:
  "answered_by_engine (le_client open_llmd_env) (engine_policies from_yaml path fs open_service)"
proof -
  have "svc_shared open_service \<in> engine_policies from_yaml path fs open_service"
    unfolding engine_policies_def by (intro UN_I [of 0]) simp_all
  then show ?thesis
    unfolding answered_by_engine_def open_llmd_env_def open_client_def by auto
qed

lemma open_answered_concurrently:
  "answered_concurrently (le_client open_llmd_env) from_yaml path disks (engine_started open_service lm)"
  unfolding answered_concurrently_def open_llmd_env_def open_client_def by (auto intro: call_answerable)

lemma open_policy_authorises:
  "authorised (set (doc_rules open_policy)) \<lparr>rq_subject = ''runtime/model-runtime'',
     rq_action = ''network:connect'', rq_resource = ''api.openai.com''\<rparr>"
  unfolding evaluate_allow_iff [symmetric] by code_simp

lemma open_client_answers:
  "io_metadata_ok open_client text" "io_rpc open_client i q = RpcResponse (fst (grpc_evaluate Some 1 q open_service))"
  "svc_shared open_service = open_policy"
  by (simp_all add: open_client_def open_service_def)

lemma open_run:
  obtains outs and w :: "(unit, unit, string) llmd_state" and request where
    "llmd_main open_llmd_env sample_disk = Inr (outs, w)" "ActionRun request \<in> set (lw_history w)"
proof -
  have "\<exists>r :: action_outcome list \<times> (unit, unit, string) llmd_state. llmd_main open_llmd_env sample_disk = Inr r"
    by (simp add: llmd_main_def open_llmd_env_def sample_llmd_env_def llmd_config_from_env_def
        create_audit_sink_def Let_def split: prod.splits)
  then obtain outs and w :: "(unit, unit, string) llmd_state" where run: "llmd_main open_llmd_env sample_disk = Inr (outs, w)"
    by (metis surj_pair)
  obtain config :: "unit llmd_config" and corr seq sink where
    p: "process_requests (llmd_process (le_client open_llmd_env) (model_execute mb_loaded mock_infer)
        (audit_emit (le_disk_io open_llmd_env) (le_to_json open_llmd_env) (le_bus_clock open_llmd_env) (le_to_value open_llmd_env)))
      (le_wall open_llmd_env) 5 (startup_requests (startup_clock open_llmd_env) (le_gap open_llmd_env) corr seq)
      \<lparr>lw_client = connected_world (lc_policy_config config) 0, lw_backend = mock_new, lw_sink = sink, lw_history = []\<rparr>
      = (outs, w)"
    by (rule llmd_main_Inr [OF run])
  let ?process = "llmd_process (le_client open_llmd_env) (model_execute mb_loaded mock_infer)
        (audit_emit (le_disk_io open_llmd_env) (le_to_json open_llmd_env) (le_bus_clock open_llmd_env) (le_to_value open_llmd_env))"
  let ?w = "\<lparr>lw_client = connected_world (lc_policy_config config) 0, lw_backend = mock_new, lw_sink = sink, lw_history = []\<rparr>"
  obtain r0 rest where rs: "startup_requests (startup_clock open_llmd_env) (le_gap open_llmd_env) corr seq = r0 # rest"
    and v: "policy_view r0 = \<lparr>rq_subject = ''runtime/model-runtime'', rq_action = ''network:connect'',
      rq_resource = ''api.openai.com''\<rparr>"
    by (simp add: startup_requests_def build_request_def llmd_generate_id_def policy_view_def)
  obtain o1 w1 where step: "?process (le_wall open_llmd_env 5) r0 ?w = (o1, w1)"
    by (meson surj_pair)
  have "breaker_permits open_client (lw_client ?w)" "0 < max_attempts (cw_client (lw_client ?w))"
    by (simp_all add: breaker_permits_def connected_world_def connect_with_config_def)
  moreover have "le_client open_llmd_env = open_client"
    by (simp add: open_llmd_env_def)
  ultimately have "\<exists>audit. length audit \<le> 1 \<and> lw_history (snd (?process (le_wall open_llmd_env 5) r0 ?w))
      = lw_history ?w @ snd (governed_execution (svc_shared open_service) (model_execute mb_loaded mock_infer) r0 (lw_backend ?w))
        @ map AuditEmitted audit"
    using governed_process [THEN conjunct2, of open_client ?w r0 Some 1 open_service] open_client_answers
    by metis
  then obtain audit where "lw_history w1 = [ActionRun r0] @ map AuditEmitted audit"
    using step v open_policy_authorises by (auto simp: governed_execution_def open_client_answers)
  then have "ActionRun r0 \<in> set (lw_history w1)"
    by auto
  moreover have "\<exists>ext. lw_history w = lw_history w1 @ ext"
  proof (cases o1)
    case Panic
    with p step rs show ?thesis by simp
  next
    case (Done x)
    obtain outs' where "process_requests ?process (le_wall open_llmd_env) (Suc 5) rest w1 = (outs', w)"
      using p step rs Done by (auto split: prod.splits)
    from requests_authorised [OF open_answered this] show ?thesis
      by blast
  qed
  ultimately show thesis
    using that [OF run, of r0] by auto
qed

theorem executed_actions_authorised_witness:
  "\<exists>request. authorised (set (doc_rules open_policy)) (policy_view request)"
proof -
  obtain outs and w :: "(unit, unit, string) llmd_state" and request where
    "llmd_main open_llmd_env sample_disk = Inr (outs, w)" "ActionRun request \<in> set (lw_history w)"
    by (rule open_run)
  from executed_actions_authorised [where fs = "\<lambda>_. policy_file", OF open_engine open_answered this]
  show ?thesis
    by (auto simp: load_policy_document_def policy_file_def)
qed

theorem concurrent_actions_authorised_witness:
  "\<exists>request policy. policy = open_policy \<and> authorised (set (doc_rules policy)) (policy_view request)"
proof -
  obtain outs and w :: "(unit, unit, string) llmd_state" and request where
    "llmd_main open_llmd_env sample_disk = Inr (outs, w)" "ActionRun request \<in> set (lw_history w)"
    by (rule open_run)
  from concurrent_actions_authorised [where disks = "{policy_file}", OF open_engine open_answered_concurrently this]
  show ?thesis
    by (auto simp: load_policy_document_def policy_file_def)
qed

theorem llmd_implements_policy_witness:
  "fst (llmd_process open_client (model_execute mb_loaded mock_infer) stdout_emit 0 sample_action
      \<lparr>lw_client = sample_world, lw_backend = mock_new, lw_sink = [], lw_history = []\<rparr>)
    = model_execute mb_loaded mock_infer sample_action mock_new"
proof -
  let ?w = "\<lparr>lw_client = sample_world, lw_backend = mock_new, lw_sink = [] :: audit_event list, lw_history = []\<rparr>"
  have auth: "authorised (set (doc_rules (svc_shared open_service))) (policy_view sample_action)"
    using open_policy_authorises by (simp add: open_service_def policy_view_def sample_action_def)
  have "breaker_permits open_client (lw_client ?w)" "0 < max_attempts (cw_client (lw_client ?w))"
    by (simp_all add: breaker_permits_def sample_world_def connect_with_config_def)
  then have "fst (llmd_process open_client (model_execute mb_loaded mock_infer) stdout_emit 0 sample_action ?w)
      = fst (governed_execution (svc_shared open_service) (model_execute mb_loaded mock_infer) sample_action (lw_backend ?w))"
    using llmd_implements_policy [THEN conjunct1, of open_client ?w sample_action Some 1 open_service] open_client_answers
    by metis
  with auth show ?thesis
    by (simp add: governed_execution_def)
qed

end
